theory Spec2Isabelle
  imports Complex_Main "HOL-Library.AList" "HOL-Library.Sublist"
begin

section \<open>JavaScript values\<close>

text \<open>
  The record trees handled by \<^verbatim>\<open>src/steps/consistent.js\<close> are the results of
  \<^verbatim>\<open>JSON.parse\<close> and of \<^verbatim>\<open>require\<close> on a fixture: finite trees of objects and arrays
  with strings, numbers, booleans and null at the leaves. \<^verbatim>\<open>undefined\<close> is added since
  the program reads absent properties and may store \<^verbatim>\<open>undefined\<close> as an id.

  \<^item> A number is the rational it denotes (every finite double is one; \<^verbatim>\<open>-0\<close> and
    \<^verbatim>\<open>0\<close> are not told apart by any operation used here).
  \<^item> An object is the list of its own properties in insertion order.
  \<^item> An array carries its elements and, since JavaScript lets the program assign
    \<^verbatim>\<open>id\<close>, \<^verbatim>\<open>version\<close> or \<^verbatim>\<open>objectType\<close> on an array, its own named properties.
  \<^item> The two trees of one call share no object: a mutation through a reference
    obtained by a path is then the update of the tree at that path.
\<close>

datatype jv =
    JUndefined
  | JNull
  | JBool bool
  | JNum rat
  | JStr string
  | JArr "jv list" "(string \<times> jv) list"
  | JObj "(string \<times> jv) list"

datatype error = TypeError | AssertionError

text \<open>
  What the program takes from its host and its libraries and what is not fixed by the
  source: \<^verbatim>\<open>ToNumber\<close> on a string (\<open>None\<close> for NaN); \<^verbatim>\<open>ToString\<close> of a value that is
  not a string; the instant \<^verbatim>\<open>moment(v, moment.ISO_8601).valueOf()\<close>, in milliseconds since
  1970-01-01T00:00:00Z, of a value \<open>v\<close> that is not a timestamp of the form modelled below
  (\<open>None\<close> for an invalid moment); and what \<^verbatim>\<open>assert[name](actual, expected)\<close> does for a
  \<open>name\<close> that is neither \<^verbatim>\<open>"deepEqual"\<close> nor \<^verbatim>\<open>"notDeepEqual"\<close> (\<open>None\<close>: the call returns).
\<close>

record host =
  toNumber :: "string \<Rightarrow> rat option"
  toStringOther :: "jv \<Rightarrow> string"
  momentOther :: "jv \<Rightarrow> int option"
  assertOther :: "jv \<Rightarrow> jv \<Rightarrow> jv \<Rightarrow> error option"

definition bindE :: "error + 'a \<Rightarrow> ('a \<Rightarrow> error + 'b) \<Rightarrow> error + 'b" where
  "bindE m f = (case m of Inl e \<Rightarrow> Inl e | Inr x \<Rightarrow> f x)"

definition nullish :: "jv \<Rightarrow> bool" where
  "nullish v = (v = JUndefined \<or> v = JNull)"

text \<open>\<^verbatim>\<open>ToBoolean\<close>, as used by \<^verbatim>\<open>!x\<close>, \<^verbatim>\<open>x || y\<close> and \<^verbatim>\<open>if (x)\<close>.\<close>

fun truthy :: "jv \<Rightarrow> bool" where
  "truthy JUndefined = False"
| "truthy JNull = False"
| "truthy (JBool b) = b"
| "truthy (JNum n) = (n \<noteq> 0)"
| "truthy (JStr s) = (s \<noteq> [])"
| "truthy (JArr es ps) = True"
| "truthy (JObj fs) = True"

fun isArray :: "jv \<Rightarrow> bool" where
  "isArray (JArr es ps) = True"
| "isArray v = False"

fun elems :: "jv \<Rightarrow> jv list" where
  "elems (JArr es ps) = es"
| "elems v = []"

text \<open>The own named properties of a value.\<close>

fun props :: "jv \<Rightarrow> (string \<times> jv) list" where
  "props (JObj fs) = fs"
| "props (JArr es ps) = ps"
| "props v = []"

definition lookup :: "(string \<times> jv) list \<Rightarrow> string \<Rightarrow> jv" where
  "lookup fs k = (case map_of fs k of None \<Rightarrow> JUndefined | Some v \<Rightarrow> v)"

text \<open>
  \<^verbatim>\<open>v[k]\<close> for a value that is neither null nor undefined. The property names the
  program reads (\<^verbatim>\<open>objectType\<close>, \<^verbatim>\<open>id\<close>, \<^verbatim>\<open>timestamp\<close>, the segments of the location lists,
  ...) are neither inherited from a prototype nor array indices, so the read is a look-up
  among the own named properties.
\<close>

definition readProp :: "jv \<Rightarrow> string \<Rightarrow> jv" where
  "readProp v k = lookup (props v) k"

text \<open>\<^verbatim>\<open>v.k\<close>: a TypeError on null and undefined.\<close>

definition get_prop :: "jv \<Rightarrow> string \<Rightarrow> error + jv" where
  "get_prop v k = (if nullish v then Inl TypeError else Inr (readProp v k))"

text \<open>
  \<^verbatim>\<open>v.k = x\<close>. The file is in strict mode (\<^verbatim>\<open>"use strict"\<close>, line 1), where an assignment
  to a property of a primitive is a TypeError, as it is on null and undefined. A new key
  goes last, an existing one keeps its place.
\<close>

fun set_prop :: "jv \<Rightarrow> string \<Rightarrow> jv \<Rightarrow> error + jv" where
  "set_prop (JObj fs) k x = Inr (JObj (AList.update k x fs))"
| "set_prop (JArr es ps) k x = Inr (JArr es (AList.update k x ps))"
| "set_prop v k x = Inl TypeError"

text \<open>\<^verbatim>\<open>delete v.k\<close>: a TypeError on null and undefined, nothing to do on a primitive.\<close>

fun del_prop :: "jv \<Rightarrow> string \<Rightarrow> error + jv" where
  "del_prop (JObj fs) k = Inr (JObj (AList.delete k fs))"
| "del_prop (JArr es ps) k = Inr (JArr es (AList.delete k ps))"
| "del_prop JUndefined k = Inl TypeError"
| "del_prop JNull k = Inl TypeError"
| "del_prop v k = Inr v"

text \<open>The decimal numeral of an array index, the property key \<^verbatim>\<open>o[i]\<close> reads on an object.\<close>

fun dec :: "nat \<Rightarrow> string" where
  "dec n = (if n < 10 then [''0123456789'' ! n]
            else dec (n div 10) @ [''0123456789'' ! (n mod 10)])"

text \<open>\<^verbatim>\<open>s[i]\<close> for a value \<open>s\<close> that is neither null nor undefined and an index \<open>i\<close>.\<close>

fun getIndex :: "jv \<Rightarrow> nat \<Rightarrow> jv" where
  "getIndex (JArr es ps) i = (if i < length es then es ! i else JUndefined)"
| "getIndex (JObj fs) i = lookup fs (dec i)"
| "getIndex (JStr s) i = (if i < length s then JStr [s ! i] else JUndefined)"
| "getIndex v i = JUndefined"

section \<open>The libraries\<close>

subsection \<open>selectn\<close>

text \<open>\<^verbatim>\<open>path.split(".")\<close>.\<close>

fun splitDots :: "string \<Rightarrow> string list" where
  "splitDots [] = [[]]"
| "splitDots (c # cs) =
     (if c = CHR ''.'' then [] # splitDots cs
      else (case splitDots cs of [] \<Rightarrow> [[c]] | p # ps \<Rightarrow> (c # p) # ps))"

text \<open>
  The accessor loop of selectn: \<^verbatim>\<open>if (ref != null) ref = ref[parts[idx]]\<close>, so that a null
  or undefined reference stays what it is.
\<close>

definition selectStep :: "jv \<Rightarrow> string \<Rightarrow> jv" where
  "selectStep ref part = (if nullish ref then ref else readProp ref part)"

definition selectParts :: "string list \<Rightarrow> jv \<Rightarrow> jv" where
  "selectParts parts obj = foldl selectStep obj parts"

text \<open>
  \<^verbatim>\<open>selectn(path, object)\<close> for a path without brackets. On a null or undefined object
  selectn reads the global object, which has none of the properties the location lists
  start with: the result is undefined.
\<close>

definition selectn :: "string \<Rightarrow> jv \<Rightarrow> jv" where
  "selectn path obj =
     (if nullish obj then JUndefined else selectParts (splitDots path) obj)"

subsection \<open>assert.deepEqual\<close>

text \<open>
  \<^verbatim>\<open>a == b\<close> on primitives (null and undefined included): null and undefined equal each
  other and nothing else, two strings are compared as strings, and in every other pair
  booleans and strings are converted to numbers.
\<close>

fun asNumber :: "host \<Rightarrow> jv \<Rightarrow> rat option" where
  "asNumber h (JBool b) = Some (if b then 1 else 0)"
| "asNumber h (JNum n) = Some n"
| "asNumber h (JStr s) = toNumber h s"
| "asNumber h v = None"

fun isStr :: "jv \<Rightarrow> bool" where
  "isStr (JStr s) = True"
| "isStr v = False"

definition looseEq :: "host \<Rightarrow> jv \<Rightarrow> jv \<Rightarrow> bool" where
  "looseEq h a b =
     (if nullish a \<or> nullish b then nullish a \<and> nullish b
      else if isStr a \<and> isStr b then a = b
      else asNumber h a \<noteq> None \<and> asNumber h a = asNumber h b)"

text \<open>
  \<^verbatim>\<open>require("assert")\<close> is Node's legacy assertion mode, whose \<^verbatim>\<open>deepEqual\<close> is
  documented as follows: primitive values are compared with \<^verbatim>\<open>==\<close>; the type tags of
  objects must be the same (an array is never equal to a plain object); only own
  enumerable properties are considered, unordered, and both sides must have the same
  number of them; arrays must have the same length and equal elements index by index.
  Early releases of Node differ from this on an array against a plain object and on null
  against undefined; no example below has either pair.
\<close>

fun deepEqual :: "host \<Rightarrow> jv \<Rightarrow> jv \<Rightarrow> bool"
  and deepEqualElems :: "host \<Rightarrow> jv list \<Rightarrow> jv list \<Rightarrow> bool"
  and deepEqualProps :: "host \<Rightarrow> (string \<times> jv) list \<Rightarrow> (string \<times> jv) list \<Rightarrow> bool"
where
  "deepEqual h (JObj fa) b =
     (case b of JObj fb \<Rightarrow> length fa = length fb \<and> deepEqualProps h fa fb | _ \<Rightarrow> False)"
| "deepEqual h (JArr ea pa) b =
     (case b of
        JArr eb pb \<Rightarrow>
          length ea = length eb \<and> length pa = length pb \<and> deepEqualProps h pa pb
          \<and> deepEqualElems h ea eb
      | _ \<Rightarrow> False)"
| "deepEqual h a b =
     (case b of JObj fb \<Rightarrow> False | JArr eb pb \<Rightarrow> False | _ \<Rightarrow> looseEq h a b)"
| "deepEqualElems h [] bs = True"
| "deepEqualElems h (a # as) bs =
     (case bs of [] \<Rightarrow> False | b # bs' \<Rightarrow> deepEqual h a b \<and> deepEqualElems h as bs')"
| "deepEqualProps h [] fb = True"
| "deepEqualProps h ((k, v) # r) fb =
     (case map_of fb k of None \<Rightarrow> False | Some w \<Rightarrow> deepEqual h v w \<and> deepEqualProps h r fb)"

subsection \<open>moment\<close>

text \<open>
  \<^verbatim>\<open>moment(s, moment.ISO_8601)\<close> reads a string in one of the ISO-8601 forms. The form
  modelled is the one xAPI timestamps have without a fraction of a second: the calendar
  date and the time of day in the extended format, \<^verbatim>\<open>YYYY-MM-DDTHH:MM:SS\<close>, followed by
  the zone designator \<^verbatim>\<open>Z\<close> or \<^verbatim>\<open>+HH:MM\<close> or \<^verbatim>\<open>-HH:MM\<close>. The month, the day of the month
  (leap years counted), the hour (below 24), the minute and the second (below 60) must be
  in range, as moment requires of a valid date. Every other string is left to the host:
  the other forms, a fraction of a second, a time without zone (read in the zone of the
  machine), a year before 0100, and the two-digit offset \<^verbatim>\<open>+HH\<close> that line 165 is written
  for.
\<close>

definition digitValue :: "char \<Rightarrow> int option" where
  "digitValue c = map_of (zip ''0123456789'' [0, 1, 2, 3, 4, 5, 6, 7, 8, 9]) c"

text \<open>The number a string of digits denotes, after the digits that gave \<open>n\<close>.\<close>

fun digitsValue :: "string \<Rightarrow> int \<Rightarrow> int option" where
  "digitsValue [] n = Some n"
| "digitsValue (c # cs) n =
     (case digitValue c of None \<Rightarrow> None | Some d \<Rightarrow> digitsValue cs (10 * n + d))"

definition leapYear :: "int \<Rightarrow> bool" where
  "leapYear y = (y mod 4 = 0 \<and> (y mod 100 \<noteq> 0 \<or> y mod 400 = 0))"

definition monthLengths :: "int \<Rightarrow> int list" where
  "monthLengths y =
     [31, if leapYear y then 29 else 28, 31, 30, 31, 30, 31, 31, 30, 31, 30, 31]"

text \<open>The leap years among the years 1 to \<open>y - 1\<close>.\<close>

definition leapsBefore :: "int \<Rightarrow> int" where
  "leapsBefore y = (y - 1) div 4 - (y - 1) div 100 + (y - 1) div 400"

text \<open>The days from 1970-01-01 to the day \<open>d\<close> of the month \<open>m\<close> of the year \<open>y\<close>.\<close>

definition dayNumber :: "int \<Rightarrow> int \<Rightarrow> int \<Rightarrow> int" where
  "dayNumber y m d =
     365 * (y - 1970) + (leapsBefore y - leapsBefore 1970)
     + sum_list (take (nat (m - 1)) (monthLengths y)) + d - 1"

text \<open>
  The date and the time of day, \<^verbatim>\<open>YYYY-MM-DDTHH:MM:SS\<close>: the seconds from
  1970-01-01T00:00:00 to it.
\<close>

definition isoLocal :: "string \<Rightarrow> int option" where
  "isoLocal s =
     (if length s = 19 \<and> s ! 4 = CHR ''-'' \<and> s ! 7 = CHR ''-'' \<and> s ! 10 = CHR ''T''
         \<and> s ! 13 = CHR '':'' \<and> s ! 16 = CHR '':''
      then (case (digitsValue (take 4 s) 0, digitsValue (take 2 (drop 5 s)) 0,
                  digitsValue (take 2 (drop 8 s)) 0, digitsValue (take 2 (drop 11 s)) 0,
                  digitsValue (take 2 (drop 14 s)) 0, digitsValue (take 2 (drop 17 s)) 0) of
              (Some y, Some m, Some d, Some hh, Some mi, Some ss) \<Rightarrow>
                if 100 \<le> y \<and> 1 \<le> m \<and> m \<le> 12 \<and> 1 \<le> d
                   \<and> d \<le> monthLengths y ! nat (m - 1)
                   \<and> hh < 24 \<and> mi < 60 \<and> ss < 60
                then Some (((dayNumber y m d * 24 + hh) * 60 + mi) * 60 + ss)
                else None
            | _ \<Rightarrow> None)
      else None)"

text \<open>The zone designator: the minutes the local time is ahead of UTC.\<close>

definition isoZone :: "string \<Rightarrow> int option" where
  "isoZone z =
     (if z = ''Z'' then Some 0
      else if length z = 6 \<and> (z ! 0 = CHR ''+'' \<or> z ! 0 = CHR ''-'') \<and> z ! 3 = CHR '':''
      then (case (digitsValue (take 2 (drop 1 z)) 0, digitsValue (drop 4 z) 0) of
              (Some hh, Some mi) \<Rightarrow>
                if hh < 24 \<and> mi < 60
                then Some ((if z ! 0 = CHR ''-'' then - 1 else 1) * (60 * hh + mi))
                else None
            | _ \<Rightarrow> None)
      else None)"

text \<open>The instant of a timestamp of the form modelled, in milliseconds since the epoch.\<close>

definition parseISO :: "string \<Rightarrow> int option" where
  "parseISO s =
     (case (isoLocal (take 19 s), isoZone (drop 19 s)) of
        (Some l, Some z) \<Rightarrow> Some ((l - 60 * z) * 1000)
      | _ \<Rightarrow> None)"

text \<open>\<^verbatim>\<open>moment(v, moment.ISO_8601).valueOf()\<close>, \<open>None\<close> for an invalid moment.\<close>

definition momentValue :: "host \<Rightarrow> jv \<Rightarrow> int option" where
  "momentValue h v =
     (case v of
        JStr s \<Rightarrow> (case parseISO s of Some i \<Rightarrow> Some i | None \<Rightarrow> momentOther h v)
      | _ \<Rightarrow> momentOther h v)"

text \<open>
  \<^verbatim>\<open>moment(x, moment.ISO_8601).isSame(moment(y, moment.ISO_8601))\<close>: without a unit,
  \<^verbatim>\<open>isSame\<close> is true when both moments are valid and have the same \<^verbatim>\<open>valueOf()\<close>.
\<close>

definition isSame :: "host \<Rightarrow> jv \<Rightarrow> jv \<Rightarrow> bool" where
  "isSame h x y = (momentValue h x \<noteq> None \<and> momentValue h x = momentValue h y)"

section \<open>The program\<close>

subsection \<open>Mutation through a reference\<close>

text \<open>
  \<^verbatim>\<open>expectedSubObj\<close> is a reference into the expected tree, found by selectn along
  \<open>parts\<close>. A mutation \<open>f\<close> of the object it refers to is the update of the tree at that
  path. The path exists whenever the program mutates (selectn has just returned the
  object from it); a tree without the path is returned as it is.
\<close>

fun updateAt :: "string list \<Rightarrow> (jv \<Rightarrow> error + jv) \<Rightarrow> jv \<Rightarrow> error + jv" where
  "updateAt [] f v = f v"
| "updateAt (p # ps) f v =
     (case map_of (props v) p of
        None \<Rightarrow> Inr v
      | Some c \<Rightarrow> bindE (updateAt ps f c) (\<lambda>c'. set_prop v p c'))"

text \<open>The same for the element \<^verbatim>\<open>sub[i]\<close> of the object a reference points to.\<close>

definition updateIndex :: "jv \<Rightarrow> nat \<Rightarrow> (jv \<Rightarrow> error + jv) \<Rightarrow> error + jv" where
  "updateIndex sub i f =
     bindE (f (getIndex sub i)) (\<lambda>el.
       case sub of
         JArr es ps \<Rightarrow> Inr (JArr (es[i := el]) ps)
       | JObj fs \<Rightarrow> Inr (JObj (AList.update (dec i) el fs))
       | _ \<Rightarrow> Inr sub)"

subsection \<open>correctObjectTypes (lines 30--100)\<close>

definition objectTypeLocations :: "string list" where
  "objectTypeLocations =
     [''actor'', ''object'', ''context.instructor'', ''context.team'', ''context.statement'']"

definition objectTypeLocationsMultiple :: "string list" where
  "objectTypeLocationsMultiple =
     [''actor.member'', ''context.instructor.member'', ''context.team.member'',
      ''context.contextActivities.category'', ''context.contextActivities.parent'',
      ''context.contextActivities.grouping'', ''context.contextActivities.other'']"

text \<open>
  The callback of the first \<^verbatim>\<open>forEach\<close> (lines 56--71). It returns the expected tree
  after the callback; the actual tree is only read.
\<close>

definition correctSingle :: "jv \<Rightarrow> string \<Rightarrow> jv \<Rightarrow> error + jv" where
  "correctSingle actual location expected =
     (let actualSubObj = selectn location actual;
          expectedSubObj = selectn location expected
      in if \<not> truthy expectedSubObj then Inr expected
         else bindE (get_prop actualSubObj ''objectType'') (\<lambda>t.
           if t = JUndefined then Inr expected
           else bindE (get_prop expectedSubObj ''objectType'') (\<lambda>u.
             if u = JUndefined
             then updateAt (splitDots location) (\<lambda>sub. set_prop sub ''objectType'' t) expected
             else Inr expected)))"

text \<open>
  The inner \<^verbatim>\<open>actualSubObj.forEach(function (v, i) ...)\<close> (lines 87--97), over the
  elements that are left, \<open>i\<close> being the index of the first of them.
\<close>

fun correctElems :: "string \<Rightarrow> jv list \<Rightarrow> nat \<Rightarrow> jv \<Rightarrow> error + jv" where
  "correctElems location [] i expected = Inr expected"
| "correctElems location (v # vs) i expected =
     bindE (get_prop v ''objectType'') (\<lambda>t.
       if t = JUndefined then correctElems location vs (Suc i) expected
       else bindE (get_prop (getIndex (selectn location expected) i) ''objectType'') (\<lambda>u.
         if u = JUndefined
         then bindE
                (updateAt (splitDots location)
                   (\<lambda>sub. updateIndex sub i (\<lambda>el. set_prop el ''objectType'' t)) expected)
                (correctElems location vs (Suc i))
         else correctElems location vs (Suc i) expected))"

text \<open>The callback of the second \<^verbatim>\<open>forEach\<close> (lines 75--98).\<close>

definition correctMultiple :: "jv \<Rightarrow> string \<Rightarrow> jv \<Rightarrow> error + jv" where
  "correctMultiple actual location expected =
     (let actualSubObj = selectn location actual;
          expectedSubObj = selectn location expected
      in if \<not> truthy expectedSubObj \<or> \<not> isArray actualSubObj then Inr expected
         else correctElems location (elems actualSubObj) 0 expected)"

text \<open>\<^verbatim>\<open>locations.forEach(callback)\<close>: a throw ends the loop.\<close>

fun forEachE :: "('a \<Rightarrow> jv \<Rightarrow> error + jv) \<Rightarrow> 'a list \<Rightarrow> jv \<Rightarrow> error + jv" where
  "forEachE f [] expected = Inr expected"
| "forEachE f (x # xs) expected = bindE (f x expected) (forEachE f xs)"

definition correctObjectTypes :: "jv \<Rightarrow> jv \<Rightarrow> error + jv" where
  "correctObjectTypes actual expected =
     bindE (forEachE (correctSingle actual) objectTypeLocations expected)
       (forEachE (correctMultiple actual) objectTypeLocationsMultiple)"

subsection \<open>compareStatements (lines 107--174)\<close>

text \<open>
  Lines 112--113 on the configuration object: \<^verbatim>\<open>cfg.assertion = cfg.assertion || "deepEqual"\<close>
  and \<^verbatim>\<open>cfg.meaningOnly = cfg.meaningOnly || false\<close>.
\<close>

definition defaultCfg :: "jv \<Rightarrow> error + jv" where
  "defaultCfg cfg =
     bindE (get_prop cfg ''assertion'') (\<lambda>a.
     bindE (set_prop cfg ''assertion'' (if truthy a then a else JStr ''deepEqual'')) (\<lambda>cfg1.
     bindE (get_prop cfg1 ''meaningOnly'') (\<lambda>m.
       set_prop cfg1 ''meaningOnly'' (if truthy m then m else JBool False))))"

text \<open>
  Lines 118--136: the id and the version of the expected tree, the fields the LRS sets.
  The result is the pair of the actual and the expected tree.
\<close>

definition adjustStatement :: "jv \<Rightarrow> jv \<Rightarrow> jv \<Rightarrow> jv \<Rightarrow> error + (jv \<times> jv)" where
  "adjustStatement actual expected cfg context =
     bindE (get_prop expected ''id'') (\<lambda>i.
     bindE (if i = JUndefined
            then bindE (get_prop context ''scenarioResource'') (\<lambda>res.
                 bindE (get_prop res ''id'') (\<lambda>sid. set_prop expected ''id'' sid))
            else Inr expected) (\<lambda>e1.
     bindE (set_prop e1 ''version'' (JStr ''1.0.0'')) (\<lambda>e2.
     bindE (del_prop actual ''stored'') (\<lambda>a1.
     bindE (del_prop a1 ''authority'') (\<lambda>a2.
     bindE (get_prop cfg ''meaningOnly'') (\<lambda>m.
       if truthy m
       then bindE (del_prop e2 ''version'') (\<lambda>e3.
            bindE (del_prop e3 ''stored'') (\<lambda>e4.
            bindE (del_prop e4 ''authority'') (\<lambda>e5. Inr (a2, e5))))
       else Inr (a2, e2)))))))"

text \<open>
  Lines 141--150. The second call mutates the object \<^verbatim>\<open>expected.object\<close> refers to: when
  that object has changed, it is the new value of the property.
\<close>

definition correctBoth :: "jv \<Rightarrow> jv \<Rightarrow> error + jv" where
  "correctBoth actual expected =
     bindE (correctObjectTypes actual expected) (\<lambda>e1.
     bindE (get_prop actual ''object'') (\<lambda>ao.
     bindE (get_prop ao ''objectType'') (\<lambda>t.
       if t = JStr ''SubStatement''
       then bindE (get_prop e1 ''object'') (\<lambda>eo.
            bindE (correctObjectTypes ao eo) (\<lambda>eo'.
              if eo' = eo then Inr e1 else set_prop e1 ''object'' eo'))
       else Inr e1)))"

text \<open>\<^verbatim>\<open>/[-+]\d\d$/.test(s)\<close> on a string.\<close>

definition isDigit :: "char \<Rightarrow> bool" where
  "isDigit c = (c \<in> set ''0123456789'')"

definition endsWithOffset :: "string \<Rightarrow> bool" where
  "endsWithOffset s =
     (case rev s of
        d2 # d1 # sg # r \<Rightarrow> (sg = CHR ''-'' \<or> sg = CHR ''+'') \<and> isDigit d1 \<and> isDigit d2
      | _ \<Rightarrow> False)"

definition toStr :: "host \<Rightarrow> jv \<Rightarrow> string" where
  "toStr h v = (case v of JStr s \<Rightarrow> s | _ \<Rightarrow> toStringOther h v)"

text \<open>Lines 157--171.\<close>

definition checkTimestamp :: "host \<Rightarrow> jv \<Rightarrow> jv \<Rightarrow> error + (jv \<times> jv)" where
  "checkTimestamp h actual expected =
     bindE (get_prop expected ''timestamp'') (\<lambda>ts.
       if ts \<noteq> JUndefined
       then bindE (if endsWithOffset (toStr h ts)
                   then set_prop expected ''timestamp'' (JStr (toStr h ts @ '':00''))
                   else Inr expected) (\<lambda>e1.
            bindE (get_prop e1 ''timestamp'') (\<lambda>ts1.
            bindE (get_prop actual ''timestamp'') (\<lambda>ats.
              if isSame h ts1 ats
              then bindE (del_prop e1 ''timestamp'') (\<lambda>e2.
                   bindE (del_prop actual ''timestamp'') (\<lambda>a1. Inr (a1, e2)))
              else Inl AssertionError)))
       else bindE (del_prop actual ''timestamp'') (\<lambda>a1. Inr (a1, expected)))"

text \<open>Line 173: \<^verbatim>\<open>assert[cfg.assertion](actual, expected)\<close>.\<close>

definition assertBy :: "host \<Rightarrow> jv \<Rightarrow> jv \<Rightarrow> jv \<Rightarrow> error option" where
  "assertBy h name actual expected =
     (if name = JStr ''deepEqual''
      then (if deepEqual h actual expected then None else Some AssertionError)
      else if name = JStr ''notDeepEqual''
      then (if deepEqual h actual expected then Some AssertionError else None)
      else assertOther h name actual expected)"

text \<open>Lines 118--171: the two trees as line 173 compares them.\<close>

definition normalize :: "host \<Rightarrow> jv \<Rightarrow> jv \<Rightarrow> jv \<Rightarrow> jv \<Rightarrow> error + (jv \<times> jv)" where
  "normalize h actual expected cfg context =
     bindE (adjustStatement actual expected cfg context) (\<lambda>(a1, e1).
     bindE (correctBoth a1 e1) (\<lambda>e2.
       checkTimestamp h a1 e2))"

text \<open>
  The whole function. The result is what the call does (\<open>Inl\<close>: it throws; \<open>Inr\<close>: it
  returns, leaving the two trees as given) and the configuration object as the caller
  sees it after the call, thrown or not. With a falsy \<^verbatim>\<open>cfg\<close> line 111 makes a fresh
  object the caller never sees.
\<close>

definition compareStatements ::
  "host \<Rightarrow> jv \<Rightarrow> jv \<Rightarrow> jv \<Rightarrow> jv \<Rightarrow> (error + (jv \<times> jv)) \<times> jv" where
  "compareStatements h actual expected cfg context =
     (case defaultCfg (if truthy cfg then cfg else JObj []) of
        Inl e \<Rightarrow> (Inl e, cfg)
      | Inr cfg1 \<Rightarrow>
          (bindE (normalize h actual expected cfg1 context) (\<lambda>(a, e).
             case assertBy h (readProp cfg1 ''assertion'') a e of
               Some err \<Rightarrow> Inl err
             | None \<Rightarrow> Inr (a, e)),
           if truthy cfg then cfg1 else cfg))"

subsection \<open>The two assertions (lines 176--184)\<close>

definition assertStatementMatch ::
  "host \<Rightarrow> jv \<Rightarrow> jv \<Rightarrow> jv \<Rightarrow> jv \<Rightarrow> (error + (jv \<times> jv)) \<times> jv" where
  "assertStatementMatch h actual expected cfg context =
     (case set_prop cfg ''assertion'' (JStr ''deepEqual'') of
        Inl e \<Rightarrow> (Inl e, cfg)
      | Inr cfg1 \<Rightarrow> compareStatements h actual expected cfg1 context)"

definition assertStatementNoMatch ::
  "host \<Rightarrow> jv \<Rightarrow> jv \<Rightarrow> jv \<Rightarrow> jv \<Rightarrow> (error + (jv \<times> jv)) \<times> jv" where
  "assertStatementNoMatch h actual expected cfg context =
     (case set_prop cfg ''assertion'' (JStr ''notDeepEqual'') of
        Inl e \<Rightarrow> (Inl e, cfg)
      | Inr cfg1 \<Rightarrow> compareStatements h actual expected cfg1 context)"

section \<open>Notions used in the statements\<close>

text \<open>A result that is not an assertion failure: the call returns or throws a TypeError.\<close>

definition typeErrorOnly :: "error + 'a \<Rightarrow> bool" where
  "typeErrorOnly m = (m \<noteq> Inl AssertionError)"

text \<open>A value that holds properties: an object or an array.\<close>

fun isRef :: "jv \<Rightarrow> bool" where
  "isRef (JObj fs) = True"
| "isRef (JArr es ps) = True"
| "isRef v = False"

text \<open>
  Exact structural equality in the words of the specification (section 4.5): the same
  keys, the same values recursively, sequences of the same length in the same order. A
  leaf equals only the same leaf, of the same type. This is the notion the specification
  gives, to be compared with \<open>deepEqual\<close>, which is what the program calls.
\<close>

fun structEq :: "jv \<Rightarrow> jv \<Rightarrow> bool"
  and structEqElems :: "jv list \<Rightarrow> jv list \<Rightarrow> bool"
  and structEqProps :: "(string \<times> jv) list \<Rightarrow> (string \<times> jv) list \<Rightarrow> bool"
where
  "structEq (JObj fa) b =
     (case b of JObj fb \<Rightarrow> length fa = length fb \<and> structEqProps fa fb | _ \<Rightarrow> False)"
| "structEq (JArr ea pa) b =
     (case b of
        JArr eb pb \<Rightarrow>
          length ea = length eb \<and> length pa = length pb \<and> structEqProps pa pb
          \<and> structEqElems ea eb
      | _ \<Rightarrow> False)"
| "structEq a b = (a = b)"
| "structEqElems [] bs = True"
| "structEqElems (a # as) bs =
     (case bs of [] \<Rightarrow> False | b # bs' \<Rightarrow> structEq a b \<and> structEqElems as bs')"
| "structEqProps [] fb = True"
| "structEqProps ((k, v) # r) fb =
     (case map_of fb k of None \<Rightarrow> False | Some w \<Rightarrow> structEq v w \<and> structEqProps r fb)"

text \<open>
  The representation invariant of a tree: the keys of an object are distinct, at every
  level (\<^verbatim>\<open>JSON.parse\<close> keeps one value for a key).
\<close>

fun wf :: "jv \<Rightarrow> bool"
  and wfElems :: "jv list \<Rightarrow> bool"
  and wfProps :: "(string \<times> jv) list \<Rightarrow> bool"
where
  "wf (JObj fs) = (distinct (map fst fs) \<and> wfProps fs)"
| "wf (JArr es ps) = (distinct (map fst ps) \<and> wfProps ps \<and> wfElems es)"
| "wf v = True"
| "wfElems [] = True"
| "wfElems (v # vs) = (wf v \<and> wfElems vs)"
| "wfProps [] = True"
| "wfProps ((k, v) # r) = (wf v \<and> wfProps r)"

text \<open>
  A host for the examples. None of them compares a string with a number or a boolean,
  reads a timestamp that is not a string of the form modelled, or reaches another member
  of \<^verbatim>\<open>assert\<close>.
\<close>

definition sampleHost :: host where
  "sampleHost =
     \<lparr> toNumber = (\<lambda>s. None), toStringOther = (\<lambda>v. []), momentOther = (\<lambda>v. None),
       assertOther = (\<lambda>n a e. Some TypeError) \<rparr>"

text \<open>The scenario context of the examples: \<^verbatim>\<open>{ scenarioResource: { id: "i" } }\<close>.\<close>

definition sampleContext :: jv where
  "sampleContext = JObj [(''scenarioResource'', JObj [(''id'', JStr ''i'')])]"

text \<open>
  The trees of the examples: the concrete scenario of the specification (section 8), the
  actual tree with the id and the version an LRS returns, and the two trees as line 173
  sees them.
\<close>

definition sampleActual :: jv where
  "sampleActual =
     JObj [(''id'', JStr ''i''),
           (''actor'', JObj [(''mbox'', JStr ''mailto:a@b.com''), (''objectType'', JStr ''Agent'')]),
           (''object'', JObj [(''id'', JStr ''x''), (''objectType'', JStr ''Activity'')]),
           (''timestamp'', JStr ''2020-01-01T00:00:00+01:00''),
           (''stored'', JStr ''2020-01-01T00:00:05+01:00''),
           (''authority'', JObj [(''mbox'', JStr ''mailto:lrs@b.com'')]),
           (''version'', JStr ''1.0.0'')]"

definition sampleExpected :: jv where
  "sampleExpected =
     JObj [(''actor'', JObj [(''mbox'', JStr ''mailto:a@b.com'')]),
           (''object'', JObj [(''id'', JStr ''x'')]),
           (''timestamp'', JStr ''2020-01-01T00:00:00+01'')]"

definition sampleCfg :: jv where
  "sampleCfg = JObj [(''meaningOnly'', JBool False)]"

definition sampleActualN :: jv where
  "sampleActualN =
     JObj [(''id'', JStr ''i''),
           (''actor'', JObj [(''mbox'', JStr ''mailto:a@b.com''), (''objectType'', JStr ''Agent'')]),
           (''object'', JObj [(''id'', JStr ''x''), (''objectType'', JStr ''Activity'')]),
           (''version'', JStr ''1.0.0'')]"

definition sampleExpectedN :: jv where
  "sampleExpectedN =
     JObj [(''actor'', JObj [(''mbox'', JStr ''mailto:a@b.com''), (''objectType'', JStr ''Agent'')]),
           (''object'', JObj [(''id'', JStr ''x''), (''objectType'', JStr ''Activity'')]),
           (''id'', JStr ''i''),
           (''version'', JStr ''1.0.0'')]"

text \<open>The reconciler keeps the kind and the keys of the expected tree, and its properties
  other than \<^verbatim>\<open>actor\<close>, \<^verbatim>\<open>object\<close> and \<^verbatim>\<open>context\<close>.\<close>

definition sameTop :: "jv \<Rightarrow> jv \<Rightarrow> bool" where
  "sameTop v v' \<longleftrightarrow>
     map fst (props v') = map fst (props v) \<and> elems v' = elems v \<and> isArray v' = isArray v
     \<and> isRef v' = isRef v \<and> nullish v' = nullish v
     \<and> (\<forall>k. k \<notin> {''actor'', ''object'', ''context''} \<longrightarrow> map_of (props v') k = map_of (props v) k)"

definition distinctKeys :: "jv \<Rightarrow> bool" where
  "distinctKeys v = distinct (map fst (props v))"

definition sampleCfgMeaning :: jv where
  "sampleCfgMeaning = JObj [(''meaningOnly'', JBool True)]"




definition sampleRecord :: "(string \<times> jv) list" where
  "sampleRecord =
     [(''id'', JStr ''i''),
      (''actor'', JObj [(''mbox'', JStr ''mailto:a@b.com''), (''objectType'', JStr ''Agent'')]),
      (''object'', JObj [(''id'', JStr ''x'')]),
      (''timestamp'', JStr ''2020-01-01T00:00:00Z''),
      (''version'', JStr ''1.0.0'')]"

definition sampleSubActual :: jv where
  "sampleSubActual =
     JObj [(''id'', JStr ''i''), (''version'', JStr ''1.0.0''),
           (''actor'', JObj [(''mbox'', JStr ''mailto:a@b.com''), (''objectType'', JStr ''Agent'')]),
           (''object'', JObj [(''objectType'', JStr ''SubStatement''),
              (''actor'', JObj [(''mbox'', JStr ''mailto:c@d.com''), (''objectType'', JStr ''Agent'')]),
              (''object'', JObj [(''objectType'', JStr ''SubStatement''),
                 (''actor'', JObj [(''mbox'', JStr ''mailto:e@f.com''),
                                   (''objectType'', JStr ''Agent'')])])])]"

definition sampleSubExpected :: jv where
  "sampleSubExpected =
     JObj [(''id'', JStr ''i''),
           (''actor'', JObj [(''mbox'', JStr ''mailto:a@b.com'')]),
           (''object'', JObj [
              (''actor'', JObj [(''mbox'', JStr ''mailto:c@d.com'')]),
              (''object'', JObj [
                 (''actor'', JObj [(''mbox'', JStr ''mailto:e@f.com'')])])])]"

definition sampleSubExpected1 :: jv where
  "sampleSubExpected1 =
     JObj [(''id'', JStr ''i''),
           (''actor'', JObj [(''mbox'', JStr ''mailto:a@b.com''), (''objectType'', JStr ''Agent'')]),
           (''object'', JObj [
              (''actor'', JObj [(''mbox'', JStr ''mailto:c@d.com'')]),
              (''object'', JObj [
                 (''actor'', JObj [(''mbox'', JStr ''mailto:e@f.com'')])]),
              (''objectType'', JStr ''SubStatement'')])]"

definition sampleSubExpected2 :: jv where
  "sampleSubExpected2 =
     JObj [(''id'', JStr ''i''),
           (''actor'', JObj [(''mbox'', JStr ''mailto:a@b.com''), (''objectType'', JStr ''Agent'')]),
           (''object'', JObj [
              (''actor'', JObj [(''mbox'', JStr ''mailto:c@d.com''), (''objectType'', JStr ''Agent'')]),
              (''object'', JObj [
                 (''actor'', JObj [(''mbox'', JStr ''mailto:e@f.com'')]),
                 (''objectType'', JStr ''SubStatement'')]),
              (''objectType'', JStr ''SubStatement'')])]"

definition sampleSubExpectedN :: jv where
  "sampleSubExpectedN =
     JObj [(''id'', JStr ''i''),
           (''actor'', JObj [(''mbox'', JStr ''mailto:a@b.com''), (''objectType'', JStr ''Agent'')]),
           (''object'', JObj [
              (''actor'', JObj [(''mbox'', JStr ''mailto:c@d.com''), (''objectType'', JStr ''Agent'')]),
              (''object'', JObj [
                 (''actor'', JObj [(''mbox'', JStr ''mailto:e@f.com'')]),
                 (''objectType'', JStr ''SubStatement'')]),
              (''objectType'', JStr ''SubStatement'')]),
           (''version'', JStr ''1.0.0'')]"

text \<open>
  The element \<open>el\<close> of the expected sequence as lines 93--95 leave it, \<open>v\<close> being the element
  of the actual sequence at the same index.
\<close>

definition reconciled :: "jv \<Rightarrow> jv \<Rightarrow> jv" where
  "reconciled v el =
     (if readProp v ''objectType'' \<noteq> JUndefined \<and> readProp el ''objectType'' = JUndefined
      then (case set_prop el ''objectType'' (readProp v ''objectType'') of
              Inr el' \<Rightarrow> el' | Inl err \<Rightarrow> el)
      else el)"

text \<open>
  The value at a path is an object whose keys are \<open>ks\<close>, in this order, and whose
  \<^verbatim>\<open>objectType\<close> is \<open>t\<close>.
\<close>

definition discAt :: "string list \<Rightarrow> string list \<Rightarrow> jv \<Rightarrow> jv \<Rightarrow> bool" where
  "discAt ps ks t v =
     (case selectParts ps v of
        JObj f \<Rightarrow> map fst f = ks \<and> lookup f ''objectType'' = t
      | _ \<Rightarrow> False)"

definition sampleGroupActual :: jv where
  "sampleGroupActual =
     JObj [(''id'', JStr ''i''), (''version'', JStr ''1.0.0''),
           (''actor'', JObj [(''objectType'', JStr ''Group''),
              (''member'', JArr [JObj [(''mbox'', JStr ''mailto:a@b.com''),
                                        (''objectType'', JStr ''Agent'')],
                                 JObj [(''mbox'', JStr ''mailto:c@d.com'')]] [])]),
           (''object'', JObj [(''id'', JStr ''x'')])]"

definition sampleGroupExpected :: jv where
  "sampleGroupExpected =
     JObj [(''id'', JStr ''i''),
           (''actor'', JObj [
              (''member'', JArr [JObj [(''mbox'', JStr ''mailto:a@b.com'')],
                                 JObj [(''mbox'', JStr ''mailto:c@d.com''),
                                       (''objectType'', JStr ''Agent'')]] [])]),
           (''object'', JObj [(''id'', JStr ''x''), (''objectType'', JStr ''Activity'')])]"

definition sampleGroupReconciled :: jv where
  "sampleGroupReconciled =
     JObj [(''id'', JStr ''i''),
           (''actor'', JObj [
              (''member'', JArr [JObj [(''mbox'', JStr ''mailto:a@b.com''),
                                       (''objectType'', JStr ''Agent'')],
                                 JObj [(''mbox'', JStr ''mailto:c@d.com''),
                                       (''objectType'', JStr ''Agent'')]] []),
              (''objectType'', JStr ''Group'')]),
           (''object'', JObj [(''id'', JStr ''x''), (''objectType'', JStr ''Activity'')])]"




text \<open>
  A tree whose leaves are strings or null. On such trees \<^verbatim>\<open>==\<close> has no conversion to
  make.
\<close>

fun textual :: "jv \<Rightarrow> bool"
  and textualElems :: "jv list \<Rightarrow> bool"
  and textualProps :: "(string \<times> jv) list \<Rightarrow> bool"
where
  "textual (JObj fs) = textualProps fs"
| "textual (JArr es ps) = (textualProps ps \<and> textualElems es)"
| "textual (JStr s) = True"
| "textual JNull = True"
| "textual v = False"
| "textualElems [] = True"
| "textualElems (v # vs) = (textual v \<and> textualElems vs)"
| "textualProps [] = True"
| "textualProps ((k, v) # r) = (textual v \<and> textualProps r)"

text \<open>Two trees that differ only by the \<^verbatim>\<open>objectType\<close> of a member of the expected tree.\<close>

definition sampleMemberActual :: jv where
  "sampleMemberActual =
     JObj [(''id'', JStr ''i''), (''version'', JStr ''1.0.0''),
           (''actor'', JObj [(''member'', JArr [JObj [(''mbox'', JStr ''mailto:a@b.com'')]] [])]),
           (''object'', JObj [(''id'', JStr ''x'')])]"

definition sampleMemberExpected :: jv where
  "sampleMemberExpected =
     JObj [(''id'', JStr ''i''), (''version'', JStr ''1.0.0''),
           (''actor'', JObj [(''member'', JArr [JObj [(''mbox'', JStr ''mailto:a@b.com''),
                                                     (''objectType'', JStr ''Agent'')]] [])]),
           (''object'', JObj [(''id'', JStr ''x'')])]"

section \<open>Properties\<close>

declare dec.simps [simp del]

lemma bindE_Inl [simp]: "bindE (Inl e) f = Inl e"
  by (simp add: bindE_def)

lemma bindE_Inr [simp]: "bindE (Inr x) f = f x"
  by (simp add: bindE_def)

lemma bindE_eq_Inr: "bindE m f = Inr y \<longleftrightarrow> (\<exists>x. m = Inr x \<and> f x = Inr y)"
  by (cases m) simp_all

lemma bindE_eq_Inl: "bindE m f = Inl e \<longleftrightarrow> m = Inl e \<or> (\<exists>x. m = Inr x \<and> f x = Inl e)"
  by (cases m) simp_all

subsection \<open>Where an assertion failure can come from\<close>

lemma teo_Inr [simp]: "typeErrorOnly (Inr x)"
  by (simp add: typeErrorOnly_def)

lemma teo_TypeError [simp]: "typeErrorOnly (Inl TypeError)"
  by (simp add: typeErrorOnly_def)

lemma teo_bindE: "typeErrorOnly m \<Longrightarrow> (\<And>x. typeErrorOnly (f x)) \<Longrightarrow> typeErrorOnly (bindE m f)"
  by (cases m) (simp_all add: typeErrorOnly_def)

lemma teo_Inl: "typeErrorOnly (Inl e) \<Longrightarrow> e = TypeError"
  by (cases e) (simp_all add: typeErrorOnly_def)

lemma teo_get_prop [simp]: "typeErrorOnly (get_prop v k)"
  by (simp add: get_prop_def)

lemma teo_set_prop [simp]: "typeErrorOnly (set_prop v k x)"
  by (cases v) simp_all

lemma teo_del_prop [simp]: "typeErrorOnly (del_prop v k)"
  by (cases v) simp_all

lemma teo_updateAt: "(\<And>s. typeErrorOnly (g s)) \<Longrightarrow> typeErrorOnly (updateAt ps g v)"
  by (induction ps arbitrary: v) (auto intro!: teo_bindE split: option.splits)

lemma teo_updateIndex: "(\<And>s. typeErrorOnly (g s)) \<Longrightarrow> typeErrorOnly (updateIndex sub i g)"
  unfolding updateIndex_def by (auto intro!: teo_bindE split: jv.splits)

lemma teo_correctSingle: "typeErrorOnly (correctSingle a loc e)"
  unfolding correctSingle_def Let_def by (auto intro!: teo_bindE teo_updateAt)

lemma teo_correctElems: "typeErrorOnly (correctElems loc vs i e)"
  by (induction vs arbitrary: i e) (auto intro!: teo_bindE teo_updateAt teo_updateIndex)

lemma teo_correctMultiple: "typeErrorOnly (correctMultiple a loc e)"
  unfolding correctMultiple_def Let_def by (auto intro!: teo_correctElems)

lemma teo_forEachE: "(\<And>x e. typeErrorOnly (f x e)) \<Longrightarrow> typeErrorOnly (forEachE f xs e)"
  by (induction xs arbitrary: e) (auto intro!: teo_bindE)

lemma teo_correctObjectTypes: "typeErrorOnly (correctObjectTypes a e)"
  unfolding correctObjectTypes_def
  by (intro teo_bindE teo_forEachE teo_correctSingle teo_correctMultiple)

lemma teo_adjustStatement: "typeErrorOnly (adjustStatement a e cfg ctx)"
  unfolding adjustStatement_def by (auto intro!: teo_bindE)

lemma teo_defaultCfg: "typeErrorOnly (defaultCfg cfg)"
  unfolding defaultCfg_def by (auto intro!: teo_bindE)

subsection \<open>An actual tree without \<^verbatim>\<open>object\<close>\<close>

lemma correctBoth_no_object:
  assumes "nullish (readProp a ''object'')"
  shows "correctBoth a e = Inl TypeError"
proof (cases "correctObjectTypes a e")
  case (Inl err)
  with teo_correctObjectTypes [of a e] have "err = TypeError"
    by (auto dest: teo_Inl)
  with Inl show ?thesis by (simp add: correctBoth_def)
next
  case (Inr e1)
  with assms show ?thesis
    by (simp add: correctBoth_def get_prop_def)
qed

lemma readProp_del_prop:
  "del_prop v k = Inr v' \<Longrightarrow> k' \<noteq> k \<Longrightarrow> readProp v' k' = readProp v k'"
  by (cases v) (auto simp: readProp_def lookup_def delete_conv)

lemma adjustStatement_actual:
  assumes "adjustStatement a e cfg ctx = Inr (a1, e1)"
    and "k \<noteq> ''stored''" and "k \<noteq> ''authority''"
  shows "readProp a1 k = readProp a k"
proof -
  from assms(1) obtain a' where
    "del_prop a ''stored'' = Inr a'" and "del_prop a' ''authority'' = Inr a1"
    unfolding adjustStatement_def by (auto simp: bindE_eq_Inr split: if_splits)
  with assms(2,3) show ?thesis
    by (simp add: readProp_del_prop)
qed

lemma normalize_no_object:
  assumes "nullish (readProp a ''object'')"
  shows "normalize h a e cfg ctx = Inl TypeError"
proof (cases "adjustStatement a e cfg ctx")
  case (Inl err)
  with teo_adjustStatement [of a e cfg ctx] have "err = TypeError"
    by (auto dest: teo_Inl)
  with Inl show ?thesis by (simp add: normalize_def)
next
  case (Inr p)
  obtain a1 e1 where p: "p = (a1, e1)" by (cases p)
  with Inr assms have "nullish (readProp a1 ''object'')"
    by (simp add: adjustStatement_actual)
  then have "correctBoth a1 e1 = Inl TypeError"
    by (rule correctBoth_no_object)
  with Inr p show ?thesis by (simp add: normalize_def)
qed

lemma compareStatements_no_object:
  assumes "nullish (readProp a ''object'')"
  shows "fst (compareStatements h a e cfg ctx) = Inl TypeError"
proof (cases "defaultCfg (if truthy cfg then cfg else JObj [])")
  case (Inl err)
  with teo_defaultCfg [of "if truthy cfg then cfg else JObj []"] have "err = TypeError"
    by (auto dest: teo_Inl)
  with Inl show ?thesis by (simp add: compareStatements_def)
next
  case (Inr cfg1)
  with assms show ?thesis
    by (simp add: compareStatements_def normalize_no_object)
qed

lemma set_prop_error: "set_prop v k x = Inl err \<Longrightarrow> err = TypeError"
  using teo_set_prop [of v k x] by (auto dest: teo_Inl)

text \<open>
  C9. Whatever the configuration, the expected tree and the scenario context are, a call
  of \<^verbatim>\<open>compareStatements\<close>, and so of \<^verbatim>\<open>assertStatementMatch\<close> and of
  \<^verbatim>\<open>assertStatementNoMatch\<close>, on an actual tree whose \<^verbatim>\<open>object\<close> is absent (or null) throws
  a TypeError, never an assertion failure: nothing before line 148 raises an assertion
  failure, and line 148 reads \<^verbatim>\<open>actual.object.objectType\<close>.
\<close>

theorem no_object_is_TypeError:
  assumes "nullish (readProp actual ''object'')"
  shows "fst (compareStatements h actual expected cfg context) = Inl TypeError
    \<and> fst (assertStatementMatch h actual expected cfg context) = Inl TypeError
    \<and> fst (assertStatementNoMatch h actual expected cfg context) = Inl TypeError"
proof (intro conjI)
  show "fst (compareStatements h actual expected cfg context) = Inl TypeError"
    using assms by (rule compareStatements_no_object)
  show "fst (assertStatementMatch h actual expected cfg context) = Inl TypeError"
  proof (cases "set_prop cfg ''assertion'' (JStr ''deepEqual'')")
    case (Inl err)
    then show ?thesis
      by (simp add: assertStatementMatch_def set_prop_error)
  next
    case (Inr c)
    with assms show ?thesis
      by (simp add: assertStatementMatch_def compareStatements_no_object)
  qed
  show "fst (assertStatementNoMatch h actual expected cfg context) = Inl TypeError"
  proof (cases "set_prop cfg ''assertion'' (JStr ''notDeepEqual'')")
    case (Inl err)
    then show ?thesis
      by (simp add: assertStatementNoMatch_def set_prop_error)
  next
    case (Inr c)
    with assms show ?thesis
      by (simp add: assertStatementNoMatch_def compareStatements_no_object)
  qed
qed

theorem no_object_is_TypeError_witness:
  "nullish (readProp (JObj [(''id'', JStr ''i'')]) ''object'')
   \<and> fst (compareStatements sampleHost (JObj [(''id'', JStr ''i'')]) (JObj [])
        (JObj [(''meaningOnly'', JBool True)]) sampleContext) = Inl TypeError
   \<and> fst (assertStatementMatch sampleHost (JObj [(''id'', JStr ''i'')]) (JObj [])
        (JObj [(''meaningOnly'', JBool True)]) sampleContext) = Inl TypeError
   \<and> fst (assertStatementNoMatch sampleHost (JObj [(''id'', JStr ''i'')]) (JObj [])
        (JObj [(''meaningOnly'', JBool True)]) sampleContext) = Inl TypeError"
proof -
  have n: "nullish (readProp (JObj [(''id'', JStr ''i'')]) ''object'')"
    by (simp add: readProp_def lookup_def nullish_def)
  from n no_object_is_TypeError [OF n] show ?thesis
    by simp
qed

subsection \<open>The reconciler can throw\<close>

text \<open>
  C2. \<^verbatim>\<open>correctObjectTypes\<close> throws a TypeError when the expected tree has an \<^verbatim>\<open>actor\<close> and
  the actual tree has none (line 68 reads \<^verbatim>\<open>actualSubObj.objectType\<close> of undefined), and
  when the expected \<^verbatim>\<open>actor.member\<close> is shorter than the actual one, whose second member
  has an \<^verbatim>\<open>objectType\<close> (line 93 reads \<^verbatim>\<open>expectedSubObj[1].objectType\<close> of undefined).
\<close>

theorem correctObjectTypes_throws:
  "correctObjectTypes (JObj []) (JObj [(''actor'', JObj [])]) = Inl TypeError
   \<and> correctObjectTypes
       (JObj [(''actor'', JObj [(''member'',
          JArr [JObj [(''objectType'', JStr ''Agent'')],
                JObj [(''objectType'', JStr ''Agent'')]] [])])])
       (JObj [(''actor'', JObj [(''member'', JArr [JObj []] [])])]) = Inl TypeError"
  by code_simp

subsection \<open>The two assertions\<close>

lemma set_prop_isRef: "isRef v \<Longrightarrow> \<exists>v'. set_prop v k x = Inr v'"
  by (cases v) simp_all

lemma set_prop_Inr:
  "set_prop v k x = Inr v' \<Longrightarrow>
     isRef v \<and> isRef v' \<and> props v' = AList.update k x (props v) \<and> elems v' = elems v
     \<and> isArray v' = isArray v"
  by (cases v) auto

lemma set_prop_set_prop:
  "set_prop v k x = Inr v' \<Longrightarrow> set_prop v' k y = set_prop v k y"
  by (cases v) auto

lemma isRef_not_nullish: "isRef v \<Longrightarrow> \<not> nullish v"
  by (cases v) (simp_all add: nullish_def)

lemma isRef_truthy: "isRef v \<Longrightarrow> truthy v"
  by (cases v) simp_all

lemma readProp_set_prop:
  "set_prop v k x = Inr v' \<Longrightarrow> readProp v' k' = (if k' = k then x else readProp v k')"
  by (cases v) (auto simp: readProp_def lookup_def update_conv')

lemma adjustStatement_cfg:
  assumes "\<not> nullish cfg" and "\<not> nullish cfg'"
    and "truthy (readProp cfg ''meaningOnly'') = truthy (readProp cfg' ''meaningOnly'')"
  shows "adjustStatement a e cfg ctx = adjustStatement a e cfg' ctx"
  using assms unfolding adjustStatement_def by (simp add: get_prop_def)

lemma normalize_cfg:
  assumes "\<not> nullish cfg" and "\<not> nullish cfg'"
    and "truthy (readProp cfg ''meaningOnly'') = truthy (readProp cfg' ''meaningOnly'')"
  shows "normalize h a e cfg ctx = normalize h a e cfg' ctx"
  unfolding normalize_def using adjustStatement_cfg [OF assms] by simp

lemma defaultCfg_isRef:
  assumes "isRef cfg" and "truthy (readProp cfg ''assertion'')"
  shows "\<exists>cfg1. defaultCfg cfg = Inr cfg1 \<and> isRef cfg1
    \<and> readProp cfg1 ''assertion'' = readProp cfg ''assertion''
    \<and> truthy (readProp cfg1 ''meaningOnly'') = truthy (readProp cfg ''meaningOnly'')"
proof -
  let ?a = "readProp cfg ''assertion''"
  from assms(1) obtain c1 where c1: "set_prop cfg ''assertion'' ?a = Inr c1"
    using set_prop_isRef by blast
  then have r1: "isRef c1" by (simp add: set_prop_Inr)
  let ?m = "readProp c1 ''meaningOnly''"
  let ?m' = "if truthy ?m then ?m else JBool False"
  from r1 obtain c2 where c2: "set_prop c1 ''meaningOnly'' ?m' = Inr c2"
    using set_prop_isRef by blast
  have m: "?m = readProp cfg ''meaningOnly''"
    using c1 by (simp add: readProp_set_prop)
  have "defaultCfg cfg = Inr c2"
    using assms c1 c2 r1 by (simp add: defaultCfg_def get_prop_def isRef_not_nullish)
  moreover have "isRef c2" using c2 by (simp add: set_prop_Inr)
  moreover have "readProp c2 ''assertion'' = ?a"
    using c1 c2 by (simp add: readProp_set_prop)
  moreover have "truthy (readProp c2 ''meaningOnly'') = truthy (readProp cfg ''meaningOnly'')"
    using c2 m by (simp add: readProp_set_prop)
  ultimately show ?thesis by blast
qed

text \<open>What a call through one of the two assertions does, for a name of an assertion.\<close>

lemma compareStatements_named:
  assumes "isRef cfg" and "set_prop cfg ''assertion'' (JStr (c # cs)) = Inr cfg0"
  shows "fst (compareStatements h a e cfg0 ctx) =
      bindE (normalize h a e cfg ctx) (\<lambda>(a', e').
        case assertBy h (JStr (c # cs)) a' e' of Some err \<Rightarrow> Inl err | None \<Rightarrow> Inr (a', e'))"
    and "readProp (snd (compareStatements h a e cfg0 ctx)) ''assertion'' = JStr (c # cs)"
proof -
  have r0: "isRef cfg0" using assms(2) by (simp add: set_prop_Inr)
  have a0: "readProp cfg0 ''assertion'' = JStr (c # cs)"
    using assms(2) by (simp add: readProp_set_prop)
  have m0: "readProp cfg0 ''meaningOnly'' = readProp cfg ''meaningOnly''"
    using assms(2) by (simp add: readProp_set_prop)
  from defaultCfg_isRef [OF r0] a0 obtain cfg1 where
    d: "defaultCfg cfg0 = Inr cfg1" and r1: "isRef cfg1"
    and a1: "readProp cfg1 ''assertion'' = JStr (c # cs)"
    and m1: "truthy (readProp cfg1 ''meaningOnly'') = truthy (readProp cfg0 ''meaningOnly'')"
    by auto
  have n: "normalize h a e cfg1 ctx = normalize h a e cfg ctx"
    using r1 assms(1) m1 m0 by (intro normalize_cfg) (simp_all add: isRef_not_nullish)
  show "fst (compareStatements h a e cfg0 ctx) =
      bindE (normalize h a e cfg ctx) (\<lambda>(a', e').
        case assertBy h (JStr (c # cs)) a' e' of Some err \<Rightarrow> Inl err | None \<Rightarrow> Inr (a', e'))"
    using d r0 a1 n by (simp add: compareStatements_def isRef_truthy)
  show "readProp (snd (compareStatements h a e cfg0 ctx)) ''assertion'' = JStr (c # cs)"
    using d r0 a1 by (simp add: compareStatements_def isRef_truthy)
qed

lemma match_outcome:
  assumes "isRef cfg"
  shows "fst (assertStatementMatch h a e cfg ctx) =
      bindE (normalize h a e cfg ctx) (\<lambda>(a', e').
        if deepEqual h a' e' then Inr (a', e') else Inl AssertionError)"
proof -
  from assms obtain cfg0 where s: "set_prop cfg ''assertion'' (JStr ''deepEqual'') = Inr cfg0"
    using set_prop_isRef by blast
  have "(\<lambda>(a', e'). case assertBy h (JStr ''deepEqual'') a' e' of
            Some err \<Rightarrow> Inl err | None \<Rightarrow> Inr (a', e'))
      = (\<lambda>(a', e'). if deepEqual h a' e' then Inr (a', e') else Inl AssertionError)"
    by (auto simp: assertBy_def fun_eq_iff)
  with compareStatements_named(1) [OF assms, of "CHR ''d''" "''eepEqual''" cfg0 h a e ctx] s
  show ?thesis
    by (simp add: assertStatementMatch_def)
qed

lemma nomatch_outcome:
  assumes "isRef cfg"
  shows "fst (assertStatementNoMatch h a e cfg ctx) =
      bindE (normalize h a e cfg ctx) (\<lambda>(a', e').
        if deepEqual h a' e' then Inl AssertionError else Inr (a', e'))"
proof -
  from assms obtain cfg0 where s: "set_prop cfg ''assertion'' (JStr ''notDeepEqual'') = Inr cfg0"
    using set_prop_isRef by blast
  have "(\<lambda>(a', e'). case assertBy h (JStr ''notDeepEqual'') a' e' of
            Some err \<Rightarrow> Inl err | None \<Rightarrow> Inr (a', e'))
      = (\<lambda>(a', e'). if deepEqual h a' e' then Inl AssertionError else Inr (a', e'))"
    by (auto simp: assertBy_def fun_eq_iff)
  with compareStatements_named(1) [OF assms, of "CHR ''n''" "''otDeepEqual''" cfg0 h a e ctx] s
  show ?thesis
    by (simp add: assertStatementNoMatch_def)
qed

lemma not_isRef_set_prop: "\<not> isRef v \<Longrightarrow> set_prop v k x = Inl TypeError"
  by (cases v) simp_all

lemma looseEq_refl_prim: "\<not> isRef a \<Longrightarrow> looseEq h a a"
  by (cases a) (simp_all add: looseEq_def nullish_def)

lemma structEq_deepEqual_aux:
  "structEq a b \<Longrightarrow> deepEqual h a b"
  "structEqElems as bs \<Longrightarrow> deepEqualElems h as bs"
  "structEqProps fa fb \<Longrightarrow> deepEqualProps h fa fb"
proof (induction a b and as bs and fa fb rule: structEq_structEqElems_structEqProps.induct)
qed (auto split: jv.splits list.splits option.splits simp: looseEq_refl_prim)

text \<open>
  C1, as amended. For a configuration object and any two trees: when the normalization of
  lines 118--171 completes, \<^verbatim>\<open>assertStatementNoMatch\<close> throws exactly when
  \<^verbatim>\<open>assertStatementMatch\<close> returns, and returns exactly when it throws; when the
  normalization itself throws (a TypeError, or the assertion failure of the timestamp
  check), both calls throw that same error.
\<close>

theorem complement_when_normalized:
  assumes "isRef cfg"
  shows "(\<forall>t. normalize h a e cfg ctx = Inr t \<longrightarrow>
            (isl (fst (assertStatementNoMatch h a e cfg ctx))
              \<longleftrightarrow> \<not> isl (fst (assertStatementMatch h a e cfg ctx))))
       \<and> (\<forall>err. normalize h a e cfg ctx = Inl err \<longrightarrow>
            fst (assertStatementMatch h a e cfg ctx) = Inl err
            \<and> fst (assertStatementNoMatch h a e cfg ctx) = Inl err)"
  by (auto simp: match_outcome [OF assms] nomatch_outcome [OF assms])

theorem complement_when_normalized_witness:
  "isRef sampleCfg
   \<and> normalize sampleHost sampleActual sampleExpected sampleCfg sampleContext
       = Inr (sampleActualN, sampleExpectedN)
   \<and> (isl (fst (assertStatementNoMatch sampleHost sampleActual sampleExpected sampleCfg sampleContext))
       \<longleftrightarrow> \<not> isl (fst (assertStatementMatch sampleHost sampleActual sampleExpected sampleCfg
                  sampleContext)))"
proof -
  have r: "isRef sampleCfg"
    by (simp add: sampleCfg_def)
  have n: "normalize sampleHost sampleActual sampleExpected sampleCfg sampleContext
       = Inr (sampleActualN, sampleExpectedN)"
    by code_simp
  from complement_when_normalized [OF r, of sampleHost sampleActual sampleExpected sampleContext] n
  have "isl (fst (assertStatementNoMatch sampleHost sampleActual sampleExpected sampleCfg sampleContext))
       \<longleftrightarrow> \<not> isl (fst (assertStatementMatch sampleHost sampleActual sampleExpected sampleCfg
                  sampleContext))"
    by blast
  with r n show ?thesis by blast
qed

text \<open>
  The two are not complements on every input: with timestamps of different years both
  calls end in the assertion failure of line 168.
\<close>

theorem both_raise_on_timestamp_mismatch:
  "fst (assertStatementMatch sampleHost
      (JObj [(''id'', JStr ''i''), (''version'', JStr ''1.0.0''), (''object'', JObj []),
             (''timestamp'', JStr ''2020-01-01T00:00:00Z'')])
      (JObj [(''id'', JStr ''i''), (''object'', JObj []),
             (''timestamp'', JStr ''2021-01-01T00:00:00Z'')])
      (JObj [(''meaningOnly'', JBool False)]) sampleContext) = Inl AssertionError
  \<and> fst (assertStatementNoMatch sampleHost
      (JObj [(''id'', JStr ''i''), (''version'', JStr ''1.0.0''), (''object'', JObj []),
             (''timestamp'', JStr ''2020-01-01T00:00:00Z'')])
      (JObj [(''id'', JStr ''i''), (''object'', JObj []),
             (''timestamp'', JStr ''2021-01-01T00:00:00Z'')])
      (JObj [(''meaningOnly'', JBool False)]) sampleContext) = Inl AssertionError"
  by code_simp

subsection \<open>The configuration object\<close>

text \<open>
  C10. For a configuration object, whatever \<^verbatim>\<open>assertion\<close> the caller has put on it:
  after a call of \<^verbatim>\<open>assertStatementMatch\<close> its \<^verbatim>\<open>assertion\<close> is \<^verbatim>\<open>"deepEqual"\<close>, after a call
  of \<^verbatim>\<open>assertStatementNoMatch\<close> it is \<^verbatim>\<open>"notDeepEqual"\<close>, whether the call has thrown or
  not; a value the caller supplied changes nothing of either call; and the final
  comparison is \<open>deepEqual\<close> for the first and its negation for the second.
\<close>

theorem wrapper_sets_assertion:
  assumes "isRef cfg"
  shows "readProp (snd (assertStatementMatch h a e cfg ctx)) ''assertion'' = JStr ''deepEqual''
     \<and> readProp (snd (assertStatementNoMatch h a e cfg ctx)) ''assertion'' = JStr ''notDeepEqual''
     \<and> (\<forall>x cfg'. set_prop cfg ''assertion'' x = Inr cfg' \<longrightarrow>
          assertStatementMatch h a e cfg' ctx = assertStatementMatch h a e cfg ctx
          \<and> assertStatementNoMatch h a e cfg' ctx = assertStatementNoMatch h a e cfg ctx)
     \<and> fst (assertStatementMatch h a e cfg ctx) =
          bindE (normalize h a e cfg ctx) (\<lambda>(a', e').
            if deepEqual h a' e' then Inr (a', e') else Inl AssertionError)
     \<and> fst (assertStatementNoMatch h a e cfg ctx) =
          bindE (normalize h a e cfg ctx) (\<lambda>(a', e').
            if deepEqual h a' e' then Inl AssertionError else Inr (a', e'))"
proof (intro conjI allI impI)
  from assms obtain c1 where c1: "set_prop cfg ''assertion'' (JStr ''deepEqual'') = Inr c1"
    using set_prop_isRef by blast
  from compareStatements_named(2) [OF assms, of "CHR ''d''" "''eepEqual''" c1 h a e ctx] c1
  show "readProp (snd (assertStatementMatch h a e cfg ctx)) ''assertion'' = JStr ''deepEqual''"
    by (simp add: assertStatementMatch_def)
  from assms obtain c2 where c2: "set_prop cfg ''assertion'' (JStr ''notDeepEqual'') = Inr c2"
    using set_prop_isRef by blast
  from compareStatements_named(2) [OF assms, of "CHR ''n''" "''otDeepEqual''" c2 h a e ctx] c2
  show "readProp (snd (assertStatementNoMatch h a e cfg ctx)) ''assertion'' = JStr ''notDeepEqual''"
    by (simp add: assertStatementNoMatch_def)
next
  fix x cfg' assume "set_prop cfg ''assertion'' x = Inr cfg'"
  then have *: "\<And>y. set_prop cfg' ''assertion'' y = set_prop cfg ''assertion'' y"
    by (rule set_prop_set_prop)
  from assms obtain c1 where "set_prop cfg ''assertion'' (JStr ''deepEqual'') = Inr c1"
    using set_prop_isRef by blast
  with * show "assertStatementMatch h a e cfg' ctx = assertStatementMatch h a e cfg ctx"
    by (simp add: assertStatementMatch_def)
  from assms obtain c2 where "set_prop cfg ''assertion'' (JStr ''notDeepEqual'') = Inr c2"
    using set_prop_isRef by blast
  with * show "assertStatementNoMatch h a e cfg' ctx = assertStatementNoMatch h a e cfg ctx"
    by (simp add: assertStatementNoMatch_def)
next
  show "fst (assertStatementMatch h a e cfg ctx) =
          bindE (normalize h a e cfg ctx) (\<lambda>(a', e').
            if deepEqual h a' e' then Inr (a', e') else Inl AssertionError)"
    by (rule match_outcome [OF assms])
  show "fst (assertStatementNoMatch h a e cfg ctx) =
          bindE (normalize h a e cfg ctx) (\<lambda>(a', e').
            if deepEqual h a' e' then Inl AssertionError else Inr (a', e'))"
    by (rule nomatch_outcome [OF assms])
qed

theorem wrapper_sets_assertion_witness:
  "isRef (JObj [(''meaningOnly'', JBool False), (''assertion'', JStr ''notDeepEqual'')])
   \<and> readProp (snd (assertStatementMatch sampleHost sampleActual sampleExpected
        (JObj [(''meaningOnly'', JBool False), (''assertion'', JStr ''notDeepEqual'')])
        sampleContext)) ''assertion'' = JStr ''deepEqual''
   \<and> set_prop sampleCfg ''assertion'' (JStr ''notDeepEqual'')
        = Inr (JObj [(''meaningOnly'', JBool False), (''assertion'', JStr ''notDeepEqual'')])
   \<and> assertStatementMatch sampleHost sampleActual sampleExpected
        (JObj [(''meaningOnly'', JBool False), (''assertion'', JStr ''notDeepEqual'')])
        sampleContext
      = assertStatementMatch sampleHost sampleActual sampleExpected sampleCfg sampleContext"
proof -
  have r: "isRef (JObj [(''meaningOnly'', JBool False), (''assertion'', JStr ''notDeepEqual'')])"
    by simp
  have r': "isRef sampleCfg"
    by (simp add: sampleCfg_def)
  have s: "set_prop sampleCfg ''assertion'' (JStr ''notDeepEqual'')
        = Inr (JObj [(''meaningOnly'', JBool False), (''assertion'', JStr ''notDeepEqual'')])"
    by (simp add: sampleCfg_def)
  from wrapper_sets_assertion [OF r, of sampleHost sampleActual sampleExpected sampleContext]
  have 1: "readProp (snd (assertStatementMatch sampleHost sampleActual sampleExpected
        (JObj [(''meaningOnly'', JBool False), (''assertion'', JStr ''notDeepEqual'')])
        sampleContext)) ''assertion'' = JStr ''deepEqual''"
    by blast
  from wrapper_sets_assertion [OF r', of sampleHost sampleActual sampleExpected sampleContext] s
  have 2: "assertStatementMatch sampleHost sampleActual sampleExpected
        (JObj [(''meaningOnly'', JBool False), (''assertion'', JStr ''notDeepEqual'')])
        sampleContext
      = assertStatementMatch sampleHost sampleActual sampleExpected sampleCfg sampleContext"
    by blast
  from r 1 s 2 show ?thesis by blast
qed

subsection \<open>What the reconciler leaves alone\<close>

lemma selectParts_Nil [simp]: "selectParts [] v = v"
  by (simp add: selectParts_def)

lemma selectParts_Cons [simp]: "selectParts (p # ps) v = selectParts ps (selectStep v p)"
  by (simp add: selectParts_def)

lemma selectParts_nullish: "nullish v \<Longrightarrow> selectParts ps v = v"
  by (induction ps) (simp_all add: selectStep_def)

lemma updateAt_Cons_Inr:
  assumes "updateAt (p # ps) g v = Inr v'"
  shows "map fst (props v') = map fst (props v)"
    and "k \<noteq> p \<Longrightarrow> map_of (props v') k = map_of (props v) k"
    and "elems v' = elems v" and "isArray v' = isArray v" and "isRef v' = isRef v"
    and "nullish v' = nullish v"
proof -
  show "map fst (props v') = map fst (props v)"
  proof (cases "map_of (props v) p")
    case None with assms show ?thesis by simp
  next
    case (Some c)
    then have "p \<in> fst ` set (props v)"
      by (force dest: map_of_SomeD)
    moreover from assms Some obtain c' where "set_prop v p c' = Inr v'"
      by (auto simp: bindE_eq_Inr)
    then have "props v' = AList.update p c' (props v)"
      by (simp add: set_prop_Inr)
    ultimately show ?thesis
      by (simp add: update_keys)
  qed
  show "k \<noteq> p \<Longrightarrow> map_of (props v') k = map_of (props v) k"
    using assms by (auto simp: bindE_eq_Inr update_conv' dest!: set_prop_Inr split: option.splits)
  show "elems v' = elems v" "isArray v' = isArray v" "isRef v' = isRef v"
    using assms by (auto simp: bindE_eq_Inr dest!: set_prop_Inr split: option.splits)
  then show "nullish v' = nullish v"
    using assms by (cases v; cases v') (auto simp: nullish_def)
qed

text \<open>An invariant of the expected tree that every step of the reconciler keeps.\<close>

lemma correctSingle_invariant:
  assumes "correctSingle a loc e = Inr e'" and "P e"
    and "\<And>t v v'. updateAt (splitDots loc) (\<lambda>sub. set_prop sub ''objectType'' t) v = Inr v'
           \<Longrightarrow> P v \<Longrightarrow> P v'"
  shows "P e'"
  using assms unfolding correctSingle_def Let_def
  by (auto simp: bindE_eq_Inr split: if_splits)

lemma correctElems_invariant:
  assumes "correctElems loc vs i e = Inr e'" and "P e"
    and "\<And>t j v v'. updateAt (splitDots loc)
             (\<lambda>sub. updateIndex sub j (\<lambda>el. set_prop el ''objectType'' t)) v = Inr v'
           \<Longrightarrow> P v \<Longrightarrow> P v'"
  shows "P e'"
  using assms(1,2)
proof (induction vs arbitrary: i e)
  case Nil
  then show ?case by simp
next
  case (Cons v vs)
  from Cons.prems(1) show ?case
    by (auto simp: bindE_eq_Inr split: if_splits
        intro: Cons.IH Cons.prems(2) assms(3) [OF _ Cons.prems(2)])
qed

lemma correctMultiple_invariant:
  assumes "correctMultiple a loc e = Inr e'" and "P e"
    and "\<And>t j v v'. updateAt (splitDots loc)
             (\<lambda>sub. updateIndex sub j (\<lambda>el. set_prop el ''objectType'' t)) v = Inr v'
           \<Longrightarrow> P v \<Longrightarrow> P v'"
  shows "P e'"
  using assms unfolding correctMultiple_def Let_def
  by (auto split: if_splits intro: correctElems_invariant [where P = P])

lemma forEachE_invariant:
  assumes "forEachE f xs e = Inr e'" and "P e"
    and "\<And>x v v'. x \<in> set xs \<Longrightarrow> f x v = Inr v' \<Longrightarrow> P v \<Longrightarrow> P v'"
  shows "P e'"
  using assms
proof (induction xs arbitrary: e)
  case Nil
  then show ?case by simp
next
  case (Cons x xs)
  from Cons.prems(1) obtain e1 where 1: "f x e = Inr e1" and 2: "forEachE f xs e1 = Inr e'"
    by (auto simp: bindE_eq_Inr)
  from 1 Cons.prems(2) have "P e1"
    by (rule Cons.prems(3) [rotated]) simp
  with 2 show ?case
    by (rule Cons.IH) (auto intro: Cons.prems(3))
qed

lemma correctObjectTypes_invariant:
  assumes "correctObjectTypes a e = Inr e'" and "P e"
    and single: "\<And>loc t v v'. loc \<in> set objectTypeLocations \<Longrightarrow>
       updateAt (splitDots loc) (\<lambda>sub. set_prop sub ''objectType'' t) v = Inr v' \<Longrightarrow> P v \<Longrightarrow> P v'"
    and multiple: "\<And>loc t j v v'. loc \<in> set objectTypeLocationsMultiple \<Longrightarrow>
       updateAt (splitDots loc)
         (\<lambda>sub. updateIndex sub j (\<lambda>el. set_prop el ''objectType'' t)) v = Inr v' \<Longrightarrow> P v \<Longrightarrow> P v'"
  shows "P e'"
proof -
  from assms(1) obtain e1 where
    1: "forEachE (correctSingle a) objectTypeLocations e = Inr e1"
    and 2: "forEachE (correctMultiple a) objectTypeLocationsMultiple e1 = Inr e'"
    by (auto simp: correctObjectTypes_def bindE_eq_Inr)
  from 1 assms(2) have "P e1"
    by (rule forEachE_invariant) (erule correctSingle_invariant, assumption, erule single)
  with 2 show ?thesis
    by (rule forEachE_invariant) (erule correctMultiple_invariant, assumption, erule multiple)
qed

lemma splitDots_locations:
  "loc \<in> set objectTypeLocations \<or> loc \<in> set objectTypeLocationsMultiple \<Longrightarrow>
     \<exists>p ps. splitDots loc = p # ps \<and> p \<in> {''actor'', ''object'', ''context''}"
  by (auto simp: objectTypeLocations_def objectTypeLocationsMultiple_def)

lemma sameTop_refl [simp]: "sameTop v v"
  by (simp add: sameTop_def)

lemma sameTop_updateAt:
  assumes "updateAt (p # ps) g v = Inr v'" and "p \<in> {''actor'', ''object'', ''context''}"
    and "sameTop e v"
  shows "sameTop e v'"
  using assms(2,3) updateAt_Cons_Inr [OF assms(1)] unfolding sameTop_def
  by (metis (no_types, lifting))

lemma correctObjectTypes_sameTop:
  assumes "correctObjectTypes a e = Inr e'"
  shows "sameTop e e'"
proof (rule correctObjectTypes_invariant [OF assms, where P = "sameTop e"])
  show "sameTop e e" by simp
next
  fix loc t v v'
  assume "loc \<in> set objectTypeLocations"
    and "updateAt (splitDots loc) (\<lambda>sub. set_prop sub ''objectType'' t) v = Inr v'"
    and "sameTop e v"
  then show "sameTop e v'"
    using splitDots_locations [of loc] by (auto intro: sameTop_updateAt)
next
  fix loc t j v v'
  assume "loc \<in> set objectTypeLocationsMultiple"
    and "updateAt (splitDots loc)
         (\<lambda>sub. updateIndex sub j (\<lambda>el. set_prop el ''objectType'' t)) v = Inr v'"
    and "sameTop e v"
  then show "sameTop e v'"
    using splitDots_locations [of loc] by (auto intro: sameTop_updateAt)
qed

lemma props_not_isRef: "\<not> isRef v \<Longrightarrow> props v = []"
  by (cases v) simp_all

lemma updateAt_not_isRef: "\<not> isRef v \<Longrightarrow> updateAt (p # ps) g v = Inr v"
  by (simp add: props_not_isRef)

lemma correctObjectTypes_not_isRef:
  assumes "correctObjectTypes a e = Inr e'" and "\<not> isRef e"
  shows "e' = e"
proof (rule correctObjectTypes_invariant [OF assms(1), where P = "\<lambda>v. v = e"])
  show "e = e" by simp
next
  fix loc t v v'
  assume "loc \<in> set objectTypeLocations"
    and "updateAt (splitDots loc) (\<lambda>sub. set_prop sub ''objectType'' t) v = Inr v'"
    and "v = e"
  then show "v' = e"
    using splitDots_locations [of loc] assms(2) by (auto simp: props_not_isRef)
next
  fix loc t j v v'
  assume "loc \<in> set objectTypeLocationsMultiple"
    and "updateAt (splitDots loc)
         (\<lambda>sub. updateIndex sub j (\<lambda>el. set_prop el ''objectType'' t)) v = Inr v'"
    and "v = e"
  then show "v' = e"
    using splitDots_locations [of loc] assms(2) by (auto simp: props_not_isRef)
qed

lemma sameTop_trans: "sameTop a b \<Longrightarrow> sameTop b c \<Longrightarrow> sameTop a c"
  by (simp add: sameTop_def)

lemma sameTop_set_prop_object:
  assumes "set_prop v ''object'' x = Inr v'" and "map_of (props v) ''object'' = Some y"
  shows "sameTop v v'"
proof -
  from assms(2) have "''object'' \<in> fst ` set (props v)"
    by (force dest: map_of_SomeD)
  moreover from assms(1) have "props v' = AList.update ''object'' x (props v)"
    and "elems v' = elems v" and "isArray v' = isArray v" and "isRef v" and "isRef v'"
    by (simp_all add: set_prop_Inr)
  ultimately show ?thesis
    by (simp add: sameTop_def update_keys update_conv' isRef_not_nullish)
qed

lemma correctBoth_sameTop:
  assumes "correctBoth a e = Inr e'"
  shows "sameTop e e'"
proof -
  from assms obtain e1 where 1: "correctObjectTypes a e = Inr e1"
    by (auto simp: correctBoth_def bindE_eq_Inr)
  then have s1: "sameTop e e1" by (rule correctObjectTypes_sameTop)
  show ?thesis
  proof (cases "e' = e1")
    case True
    with s1 show ?thesis by simp
  next
    case False
    with assms 1 obtain ao eo' where
      2: "correctObjectTypes ao (readProp e1 ''object'') = Inr eo'"
      and 3: "eo' \<noteq> readProp e1 ''object''"
      and 4: "set_prop e1 ''object'' eo' = Inr e'"
      by (auto simp: correctBoth_def bindE_eq_Inr get_prop_def split: if_splits)
    from 2 3 have "isRef (readProp e1 ''object'')"
      using correctObjectTypes_not_isRef by blast
    then obtain y where "map_of (props e1) ''object'' = Some y"
      by (cases "map_of (props e1) ''object''") (auto simp: readProp_def lookup_def)
    with 4 have "sameTop e1 e'" by (rule sameTop_set_prop_object)
    with s1 show ?thesis by (rule sameTop_trans)
  qed
qed


lemma del_prop_Inr:
  "del_prop v k = Inr v' \<Longrightarrow>
     props v' = AList.delete k (props v) \<and> elems v' = elems v \<and> isArray v' = isArray v
     \<and> isRef v' = isRef v \<and> \<not> nullish v \<and> \<not> nullish v'"
  by (cases v) (auto simp: nullish_def)


lemma adjustStatement_expected:
  assumes "adjustStatement a e cfg ctx = Inr (a1, e1)"
  shows "isRef e" and "isRef e1" and "\<not> nullish a" and "\<not> nullish a1"
    and "k \<notin> {''id'', ''version'', ''stored'', ''authority''} \<Longrightarrow> readProp e1 k = readProp e k"
proof -
  show "isRef e"
    using assms unfolding adjustStatement_def
    by (auto simp: bindE_eq_Inr split: if_splits dest!: set_prop_Inr)
  show "isRef e1"
    using assms unfolding adjustStatement_def
    by (auto simp: bindE_eq_Inr split: if_splits dest!: set_prop_Inr del_prop_Inr)
  show "\<not> nullish a" and "\<not> nullish a1"
    using assms unfolding adjustStatement_def
    by (auto simp: bindE_eq_Inr split: if_splits dest!: del_prop_Inr)
  assume "k \<notin> {''id'', ''version'', ''stored'', ''authority''}"
  with assms show "readProp e1 k = readProp e k"
    unfolding adjustStatement_def
    by (auto simp: bindE_eq_Inr readProp_set_prop readProp_del_prop split: if_splits)
qed

lemma sameTop_isRef: "sameTop v v' \<Longrightarrow> isRef v' = isRef v"
  by (simp add: sameTop_def)



subsection \<open>The timestamp\<close>











subsection \<open>The fields the LRS sets\<close>

lemma adjustStatement_steps:
  assumes "adjustStatement a e cfg ctx = Inr (a1, e1)"
  obtains e2 e3 a2 m where
    "e2 = e \<or> (\<exists>x. set_prop e ''id'' x = Inr e2)"
    and "set_prop e2 ''version'' (JStr ''1.0.0'') = Inr e3"
    and "del_prop a ''stored'' = Inr a2" and "del_prop a2 ''authority'' = Inr a1"
    and "get_prop cfg ''meaningOnly'' = Inr m"
    and "(if truthy m
          then bindE (del_prop e3 ''version'') (\<lambda>e4.
               bindE (del_prop e4 ''stored'') (\<lambda>e5.
               bindE (del_prop e5 ''authority'') (\<lambda>e6. Inr (a1, e6))))
          else Inr (a1, e3)) = Inr (a1, e1)"
proof -
  from assms obtain i e2 e3 a2 m where
    1: "(if i = JUndefined
            then bindE (get_prop ctx ''scenarioResource'') (\<lambda>res.
                 bindE (get_prop res ''id'') (\<lambda>sid. set_prop e ''id'' sid))
            else Inr e) = Inr e2"
    and 2: "set_prop e2 ''version'' (JStr ''1.0.0'') = Inr e3"
    and 3: "del_prop a ''stored'' = Inr a2"
    and 4: "\<exists>a2'. del_prop a2 ''authority'' = Inr a2' \<and> get_prop cfg ''meaningOnly'' = Inr m \<and> (if truthy m
          then bindE (del_prop e3 ''version'') (\<lambda>e4.
               bindE (del_prop e4 ''stored'') (\<lambda>e5.
               bindE (del_prop e5 ''authority'') (\<lambda>e6. Inr (a2', e6))))
          else Inr (a2', e3)) = Inr (a1, e1)"
    unfolding adjustStatement_def bindE_eq_Inr by blast
  from 4 obtain a2' where 5: "del_prop a2 ''authority'' = Inr a2'"
    and 6: "get_prop cfg ''meaningOnly'' = Inr m"
    and 7: "(if truthy m
          then bindE (del_prop e3 ''version'') (\<lambda>e4.
               bindE (del_prop e4 ''stored'') (\<lambda>e5.
               bindE (del_prop e5 ''authority'') (\<lambda>e6. Inr (a2', e6))))
          else Inr (a2', e3)) = Inr (a1, e1)"
    by blast
  from 7 have "a2' = a1"
    by (auto simp: bindE_eq_Inr split: if_splits)
  moreover from 1 have "e2 = e \<or> (\<exists>x. set_prop e ''id'' x = Inr e2)"
    by (auto simp: bindE_eq_Inr split: if_splits)
  ultimately show ?thesis
    using 2 3 5 6 7 that by blast
qed

lemma adjustStatement_props:
  assumes "adjustStatement a e cfg ctx = Inr (a1, e1)"
  shows "props a1 = AList.delete ''authority'' (AList.delete ''stored'' (props a))"
    and "\<exists>fs. (fs = props e \<or> (\<exists>x. fs = AList.update ''id'' x (props e))) \<and>
           props e1 = (if truthy (readProp cfg ''meaningOnly'')
                       then AList.delete ''authority'' (AList.delete ''stored''
                              (AList.delete ''version'' (AList.update ''version'' (JStr ''1.0.0'') fs)))
                       else AList.update ''version'' (JStr ''1.0.0'') fs)"
proof -
  from assms obtain e2 e3 a2 m where
    e2: "e2 = e \<or> (\<exists>x. set_prop e ''id'' x = Inr e2)"
    and e3: "set_prop e2 ''version'' (JStr ''1.0.0'') = Inr e3"
    and a2: "del_prop a ''stored'' = Inr a2" and a1: "del_prop a2 ''authority'' = Inr a1"
    and m: "get_prop cfg ''meaningOnly'' = Inr m"
    and r: "(if truthy m
          then bindE (del_prop e3 ''version'') (\<lambda>e4.
               bindE (del_prop e4 ''stored'') (\<lambda>e5.
               bindE (del_prop e5 ''authority'') (\<lambda>e6. Inr (a1, e6))))
          else Inr (a1, e3)) = Inr (a1, e1)"
    by (rule adjustStatement_steps)
  from a2 a1 show "props a1 = AList.delete ''authority'' (AList.delete ''stored'' (props a))"
    by (simp add: del_prop_Inr)
  from m have m': "m = readProp cfg ''meaningOnly''"
    by (auto simp: get_prop_def split: if_splits)
  let ?fs = "props e2"
  from e2 have "?fs = props e \<or> (\<exists>x. ?fs = AList.update ''id'' x (props e))"
    by (auto simp: set_prop_Inr)
  moreover from e3 have p3: "props e3 = AList.update ''version'' (JStr ''1.0.0'') ?fs"
    by (simp add: set_prop_Inr)
  have "props e1 = (if truthy m
                       then AList.delete ''authority'' (AList.delete ''stored''
                              (AList.delete ''version'' (props e3)))
                       else props e3)"
  proof (cases "truthy m")
    case True
    with r obtain e4 e5 where "del_prop e3 ''version'' = Inr e4" "del_prop e4 ''stored'' = Inr e5"
      "del_prop e5 ''authority'' = Inr e1"
      by (auto simp: bindE_eq_Inr)
    with True show ?thesis by (simp add: del_prop_Inr)
  next
    case False
    with r show ?thesis by simp
  qed
  ultimately show "\<exists>fs. (fs = props e \<or> (\<exists>x. fs = AList.update ''id'' x (props e))) \<and>
           props e1 = (if truthy (readProp cfg ''meaningOnly'')
                       then AList.delete ''authority'' (AList.delete ''stored''
                              (AList.delete ''version'' (AList.update ''version'' (JStr ''1.0.0'') fs)))
                       else AList.update ''version'' (JStr ''1.0.0'') fs)"
    using p3 m' by auto
qed

lemma adjustStatement_distinct:
  assumes "adjustStatement a e cfg ctx = Inr (a1, e1)"
  shows "distinctKeys a \<Longrightarrow> distinctKeys a1" and "distinctKeys e \<Longrightarrow> distinctKeys e1"
  using adjustStatement_props [OF assms]
  by (auto simp: distinctKeys_def distinct_delete distinct_update)

lemma checkTimestamp_props:
  assumes "checkTimestamp h a e = Inr (a', e')"
  shows "props a' = AList.delete ''timestamp'' (props a)"
    and "props e' = AList.delete ''timestamp'' (props e)
         \<or> props e' = props e \<and> readProp e ''timestamp'' = JUndefined"
    and "isRef e' = isRef e"
proof -
  show "props a' = AList.delete ''timestamp'' (props a)"
    using assms unfolding checkTimestamp_def
    by (auto simp: bindE_eq_Inr split: if_splits dest!: del_prop_Inr)
  show "props e' = AList.delete ''timestamp'' (props e)
         \<or> props e' = props e \<and> readProp e ''timestamp'' = JUndefined"
    using assms unfolding checkTimestamp_def
    by (auto simp: bindE_eq_Inr get_prop_def delete_update_same
        split: if_splits dest!: del_prop_Inr set_prop_Inr)
  show "isRef e' = isRef e"
    using assms unfolding checkTimestamp_def
    by (auto simp: bindE_eq_Inr get_prop_def
        split: if_splits dest!: del_prop_Inr set_prop_Inr)
qed

lemma sameTop_distinct: "sameTop v v' \<Longrightarrow> distinctKeys v' = distinctKeys v"
  by (simp add: sameTop_def distinctKeys_def)

lemma sameTop_map_of:
  "sameTop v v' \<Longrightarrow> k \<notin> {''actor'', ''object'', ''context''} \<Longrightarrow>
     map_of (props v') k = map_of (props v) k"
  by (simp add: sameTop_def)

text \<open>The two trees of line 173, from the two trees of the call.\<close>

lemma normalize_Inr:
  assumes "normalize h a e cfg ctx = Inr (a', e')"
  obtains a1 e1 e2 where "adjustStatement a e cfg ctx = Inr (a1, e1)"
    and "correctBoth a1 e1 = Inr e2" and "checkTimestamp h a1 e2 = Inr (a', e')"
  using assms unfolding normalize_def
  by (auto simp: bindE_eq_Inr)

lemma normalize_actual_keys:
  assumes "normalize h a e cfg ctx = Inr (a', e')"
  shows "props a' = AList.delete ''timestamp''
           (AList.delete ''authority'' (AList.delete ''stored'' (props a)))"
proof -
  from assms obtain a1 e1 e2 where "adjustStatement a e cfg ctx = Inr (a1, e1)"
    and "checkTimestamp h a1 e2 = Inr (a', e')"
    by (rule normalize_Inr)
  then show ?thesis
    by (simp add: adjustStatement_props(1) checkTimestamp_props(1))
qed

lemma normalize_distinct:
  assumes "normalize h a e cfg ctx = Inr (a', e')"
  shows "distinctKeys a \<Longrightarrow> distinctKeys a'" and "distinctKeys e \<Longrightarrow> distinctKeys e'"
proof -
  from assms obtain a1 e1 e2 where 1: "adjustStatement a e cfg ctx = Inr (a1, e1)"
    and 2: "correctBoth a1 e1 = Inr e2" and 3: "checkTimestamp h a1 e2 = Inr (a', e')"
    by (rule normalize_Inr)
  show "distinctKeys a \<Longrightarrow> distinctKeys a'"
    using normalize_actual_keys [OF assms] by (simp add: distinctKeys_def distinct_delete)
  assume "distinctKeys e"
  then have "distinctKeys e1" using 1 by (simp add: adjustStatement_distinct)
  then have "distinctKeys e2" using correctBoth_sameTop [OF 2] by (simp add: sameTop_distinct)
  then show "distinctKeys e'"
    using checkTimestamp_props(2) [OF 3] by (auto simp: distinctKeys_def distinct_delete)
qed

text \<open>What the expected tree of line 173 has of the fields the LRS sets.\<close>

lemma normalize_expected_key:
  assumes "normalize h a e cfg ctx = Inr (a', e')"
    and "k \<in> {''stored'', ''authority''}"
  shows "map_of (props e') k =
    (if truthy (readProp cfg ''meaningOnly'') then None else map_of (props e) k)"
proof -
  from assms obtain a1 e1 e2 where 1: "adjustStatement a e cfg ctx = Inr (a1, e1)"
    and 2: "correctBoth a1 e1 = Inr e2" and 3: "checkTimestamp h a1 e2 = Inr (a', e')"
    by (auto elim: normalize_Inr)
  have "map_of (props e1) k =
    (if truthy (readProp cfg ''meaningOnly'') then None else map_of (props e) k)"
    using adjustStatement_props(2) [OF 1] assms(2)
    by (auto simp: delete_conv' update_conv')
  moreover have "map_of (props e2) k = map_of (props e1) k"
    using correctBoth_sameTop [OF 2] assms(2) by (auto simp: sameTop_map_of)
  moreover have "map_of (props e') k = map_of (props e2) k"
    using checkTimestamp_props(2) [OF 3] assms(2) by (auto simp: delete_conv')
  ultimately show ?thesis by simp
qed

lemma normalize_expected_version:
  assumes "normalize h a e cfg ctx = Inr (a', e')"
  shows "map_of (props e') ''version'' =
    (if truthy (readProp cfg ''meaningOnly'') then None else Some (JStr ''1.0.0''))"
proof -
  from assms obtain a1 e1 e2 where 1: "adjustStatement a e cfg ctx = Inr (a1, e1)"
    and 2: "correctBoth a1 e1 = Inr e2" and 3: "checkTimestamp h a1 e2 = Inr (a', e')"
    by (auto elim: normalize_Inr)
  have "map_of (props e1) ''version'' =
    (if truthy (readProp cfg ''meaningOnly'') then None else Some (JStr ''1.0.0''))"
    using adjustStatement_props(2) [OF 1]
    by (auto simp: delete_conv' update_conv')
  moreover have "map_of (props e2) ''version'' = map_of (props e1) ''version''"
    using correctBoth_sameTop [OF 2] by (auto simp: sameTop_map_of)
  moreover have "map_of (props e') ''version'' = map_of (props e2) ''version''"
    using checkTimestamp_props(2) [OF 3] by (auto simp: delete_conv')
  ultimately show ?thesis by simp
qed

lemma normalize_isRef:
  assumes "normalize h a e cfg ctx = Inr (a', e')"
  shows "isRef e'"
proof -
  from assms obtain a1 e1 e2 where 1: "adjustStatement a e cfg ctx = Inr (a1, e1)"
    and 2: "correctBoth a1 e1 = Inr e2" and 3: "checkTimestamp h a1 e2 = Inr (a', e')"
    by (auto elim: normalize_Inr)
  from 1 have "isRef e1" by (rule adjustStatement_expected(2))
  then have "isRef e2" using correctBoth_sameTop [OF 2] by (simp add: sameTop_isRef)
  then show ?thesis using checkTimestamp_props(3) [OF 3] by simp
qed

subsection \<open>Keys and deep equality\<close>

lemma map_of_Some_key: "map_of fs k = Some v \<Longrightarrow> k \<in> fst ` set fs"
  by (force dest: map_of_SomeD)

lemma deepEqualProps_map_of:
  "deepEqualProps h fa fb \<Longrightarrow> map_of fa p = Some ca \<Longrightarrow>
     \<exists>cb. map_of fb p = Some cb \<and> deepEqual h ca cb"
  by (induction fa) (auto split: option.splits if_splits)

lemma deepEqualProps_keys:
  "deepEqualProps h fa fb \<Longrightarrow> fst ` set fa \<subseteq> fst ` set fb"
proof (induction fa)
  case Nil
  then show ?case by simp
next
  case (Cons x fa)
  obtain k v where x: "x = (k, v)" by (cases x)
  with Cons.prems obtain w where "map_of fb k = Some w" and "deepEqualProps h fa fb"
    by (auto split: option.splits)
  with Cons.IH x show ?case
    by (simp add: map_of_Some_key)
qed

lemma deepEqual_isRef_keys:
  assumes "deepEqual h a b" and "isRef b"
  shows "length (props a) = length (props b)" and "fst ` set (props a) \<subseteq> fst ` set (props b)"
proof -
  from assms obtain "isRef a" and "isArray a = isArray b"
    by (cases a; cases b) auto
  with assms show "length (props a) = length (props b)"
    by (cases a; cases b) auto
  from assms show "fst ` set (props a) \<subseteq> fst ` set (props b)"
    by (cases a; cases b) (auto dest!: deepEqualProps_keys)
qed

lemma deepEqual_same_keys:
  assumes "deepEqual h a b" and "isRef b" and "distinctKeys a" and "distinctKeys b"
  shows "fst ` set (props a) = fst ` set (props b)"
proof -
  have "card (fst ` set (props a)) = length (props a)"
    using assms(3) unfolding distinctKeys_def by (metis distinct_card length_map set_map)
  moreover have "card (fst ` set (props b)) = length (props b)"
    using assms(4) unfolding distinctKeys_def by (metis distinct_card length_map set_map)
  ultimately have "card (fst ` set (props a)) = card (fst ` set (props b))"
    using deepEqual_isRef_keys(1) [OF assms(1,2)] by simp
  with deepEqual_isRef_keys(2) [OF assms(1,2)] show ?thesis
    by (simp add: card_subset_eq)
qed

lemma wf_distinctKeys: "wf v \<Longrightarrow> distinctKeys v"
  by (cases v) (simp_all add: distinctKeys_def)

lemma adjustStatement_meaningOnly:
  assumes "\<not> nullish cfg" and "truthy (readProp cfg ''meaningOnly'')"
  shows "adjustStatement (JObj fa) (JObj fe) cfg ctx =
    (if lookup (AList.delete ''authority'' (AList.delete ''stored'' (AList.delete ''version'' fe))) ''id''
          = JUndefined
     then bindE (get_prop ctx ''scenarioResource'') (\<lambda>res.
          bindE (get_prop res ''id'') (\<lambda>sid.
            Inr (JObj (AList.delete ''authority'' (AList.delete ''stored'' fa)),
                 JObj (AList.update ''id'' sid (AList.delete ''authority''
                        (AList.delete ''stored'' (AList.delete ''version'' fe)))))))
     else Inr (JObj (AList.delete ''authority'' (AList.delete ''stored'' fa)),
               JObj (AList.delete ''authority'' (AList.delete ''stored''
                      (AList.delete ''version'' fe)))))"
proof -
  have i: "lookup (AList.delete ''authority'' (AList.delete ''stored'' (AList.delete ''version'' fe))) ''id''
    = lookup fe ''id''"
    by (simp add: lookup_def)
  show ?thesis
  proof (cases "lookup fe ''id'' = JUndefined")
    case False
    with assms show ?thesis
      unfolding adjustStatement_def i
      by (simp add: get_prop_def readProp_def nullish_def delete_update_same)
  next
    case True
    show ?thesis
    proof (cases "get_prop ctx ''scenarioResource''")
      case (Inl err)
      with True assms show ?thesis
        unfolding adjustStatement_def i
        by (simp add: get_prop_def readProp_def nullish_def)
    next
      case res: (Inr res)
      show ?thesis
      proof (cases "get_prop res ''id''")
        case (Inl err)
        with res True assms show ?thesis
          unfolding adjustStatement_def i
          by (simp add: get_prop_def [of "JObj fe"] get_prop_def [of cfg] readProp_def nullish_def)
      next
        case (Inr sid)
        with res True assms show ?thesis
          unfolding adjustStatement_def i
          by (simp add: get_prop_def [of "JObj fe"] get_prop_def [of cfg] readProp_def nullish_def
              delete_update_same delete_update)
      qed
    qed
  qed
qed

lemma normalize_meaningOnly:
  assumes "\<not> nullish cfg" and "truthy (readProp cfg ''meaningOnly'')"
    and "AList.delete ''authority'' (AList.delete ''stored'' fa2)
         = AList.delete ''authority'' (AList.delete ''stored'' fa)"
    and "AList.delete ''authority'' (AList.delete ''stored'' (AList.delete ''version'' fe2))
         = AList.delete ''authority'' (AList.delete ''stored'' (AList.delete ''version'' fe))"
  shows "normalize h (JObj fa2) (JObj fe2) cfg ctx = normalize h (JObj fa) (JObj fe) cfg ctx"
  unfolding normalize_def adjustStatement_meaningOnly [OF assms(1,2)] assms(3,4) ..

lemma not_deepEqual_extra_key:
  assumes "isRef e'" and "distinctKeys a'" and "distinctKeys e'"
    and "map_of (props a') k = None" and "map_of (props e') k \<noteq> None"
  shows "\<not> deepEqual h a' e'"
proof
  assume "deepEqual h a' e'"
  then have "fst ` set (props a') = fst ` set (props e')"
    using assms(1-3) by (rule deepEqual_same_keys)
  moreover from assms(4) have "k \<notin> fst ` set (props a')"
    by (simp add: map_of_eq_None_iff)
  moreover from assms(5) have "k \<in> fst ` set (props e')"
    by (simp add: map_of_eq_None_iff)
  ultimately show False by simp
qed

lemma not_deepEqual_missing_key:
  assumes "map_of (props a') k \<noteq> None" and "map_of (props e') k = None"
  shows "\<not> deepEqual h a' e'"
proof
  assume d: "deepEqual h a' e'"
  from assms(1) obtain c where c: "map_of (props a') k = Some c" by auto
  then have "isRef a'" by (cases a') auto
  with d have "deepEqualProps h (props a') (props e')"
    by (cases a'; cases e') auto
  from deepEqualProps_map_of [OF this c] assms(2) show False by simp
qed

text \<open>
  C7, as amended. For a configuration object: in the two trees of line 173 the actual tree
  has neither \<^verbatim>\<open>stored\<close> nor \<^verbatim>\<open>authority\<close>, and has kept its version and every other
  property but its timestamp; the expected tree has lost \<^verbatim>\<open>stored\<close>, \<^verbatim>\<open>authority\<close> and its
  version in meaning-only mode, and in full mode has kept the first two as they were, with
  the version \<^verbatim>\<open>"1.0.0"\<close>. So in meaning-only mode the result of \<^verbatim>\<open>assertStatementMatch\<close>
  does not depend on the \<^verbatim>\<open>stored\<close> and \<^verbatim>\<open>authority\<close> of either tree nor on the version of
  the expected tree; in full mode a well-formed expected tree that has a \<^verbatim>\<open>stored\<close> or an
  \<^verbatim>\<open>authority\<close> never matches; and, the version of the actual tree being never removed,
  in meaning-only mode an actual tree that has a version never matches.
\<close>

theorem store_fields:
  assumes "isRef cfg"
  shows "(\<forall>a' e'. normalize h a e cfg ctx = Inr (a', e') \<longrightarrow>
            map_of (props a') ''stored'' = None \<and> map_of (props a') ''authority'' = None
          \<and> map_of (props a') ''version'' = map_of (props a) ''version''
          \<and> props a' = AList.delete ''timestamp''
               (AList.delete ''authority'' (AList.delete ''stored'' (props a)))
          \<and> map_of (props e') ''stored'' =
              (if truthy (readProp cfg ''meaningOnly'') then None else map_of (props e) ''stored'')
          \<and> map_of (props e') ''authority'' =
              (if truthy (readProp cfg ''meaningOnly'') then None else map_of (props e) ''authority'')
          \<and> map_of (props e') ''version'' =
              (if truthy (readProp cfg ''meaningOnly'') then None else Some (JStr ''1.0.0'')))
     \<and> (\<forall>fa fe fa2 fe2. truthy (readProp cfg ''meaningOnly'') \<and> a = JObj fa \<and> e = JObj fe
          \<and> AList.delete ''authority'' (AList.delete ''stored'' fa2)
              = AList.delete ''authority'' (AList.delete ''stored'' fa)
          \<and> AList.delete ''authority'' (AList.delete ''stored'' (AList.delete ''version'' fe2))
              = AList.delete ''authority'' (AList.delete ''stored'' (AList.delete ''version'' fe))
          \<longrightarrow> fst (assertStatementMatch h (JObj fa2) (JObj fe2) cfg ctx)
              = fst (assertStatementMatch h a e cfg ctx))
     \<and> (\<not> truthy (readProp cfg ''meaningOnly'') \<and> wf a \<and> wf e
          \<and> (map_of (props e) ''stored'' \<noteq> None \<or> map_of (props e) ''authority'' \<noteq> None)
          \<longrightarrow> isl (fst (assertStatementMatch h a e cfg ctx)))
     \<and> (truthy (readProp cfg ''meaningOnly'') \<and> map_of (props a) ''version'' \<noteq> None
          \<longrightarrow> isl (fst (assertStatementMatch h a e cfg ctx)))"
proof (intro conjI allI impI)
  fix a' e' assume n: "normalize h a e cfg ctx = Inr (a', e')"
  show "map_of (props a') ''stored'' = None" "map_of (props a') ''authority'' = None"
    "map_of (props a') ''version'' = map_of (props a) ''version''"
    by (simp_all add: normalize_actual_keys [OF n] delete_conv')
  show "props a' = AList.delete ''timestamp''
               (AList.delete ''authority'' (AList.delete ''stored'' (props a)))"
    using n by (rule normalize_actual_keys)
  show "map_of (props e') ''stored'' =
      (if truthy (readProp cfg ''meaningOnly'') then None else map_of (props e) ''stored'')"
    using n by (rule normalize_expected_key) simp
  show "map_of (props e') ''authority'' =
      (if truthy (readProp cfg ''meaningOnly'') then None else map_of (props e) ''authority'')"
    using n by (rule normalize_expected_key) simp
  show "map_of (props e') ''version'' =
      (if truthy (readProp cfg ''meaningOnly'') then None else Some (JStr ''1.0.0''))"
    using n by (rule normalize_expected_version)
next
  fix fa fe fa2 fe2
  assume "truthy (readProp cfg ''meaningOnly'') \<and> a = JObj fa \<and> e = JObj fe
          \<and> AList.delete ''authority'' (AList.delete ''stored'' fa2)
              = AList.delete ''authority'' (AList.delete ''stored'' fa)
          \<and> AList.delete ''authority'' (AList.delete ''stored'' (AList.delete ''version'' fe2))
              = AList.delete ''authority'' (AList.delete ''stored'' (AList.delete ''version'' fe))"
  then show "fst (assertStatementMatch h (JObj fa2) (JObj fe2) cfg ctx)
              = fst (assertStatementMatch h a e cfg ctx)"
    using normalize_meaningOnly [of cfg fa2 fa fe2 fe h ctx] assms
    by (simp add: match_outcome isRef_not_nullish)
next
  assume *: "\<not> truthy (readProp cfg ''meaningOnly'') \<and> wf a \<and> wf e
          \<and> (map_of (props e) ''stored'' \<noteq> None \<or> map_of (props e) ''authority'' \<noteq> None)"
  then obtain k where k: "k \<in> {''stored'', ''authority''}" and ke: "map_of (props e) k \<noteq> None"
    by auto
  show "isl (fst (assertStatementMatch h a e cfg ctx))"
  proof (cases "normalize h a e cfg ctx")
    case (Inl err)
    then show ?thesis by (simp add: match_outcome [OF assms])
  next
    case (Inr p)
    obtain a' e' where p: "p = (a', e')" by (cases p)
    with Inr have n: "normalize h a e cfg ctx = Inr (a', e')" by simp
    have "map_of (props a') k = None"
      using k by (auto simp: normalize_actual_keys [OF n] delete_conv')
    moreover have "map_of (props e') k \<noteq> None"
      using normalize_expected_key [OF n k] * ke by simp
    moreover have "distinctKeys a'" "distinctKeys e'"
      using normalize_distinct [OF n] * by (simp_all add: wf_distinctKeys)
    moreover have "isRef e'" using n by (rule normalize_isRef)
    ultimately have "\<not> deepEqual h a' e'"
      by (intro not_deepEqual_extra_key)
    with n show ?thesis by (simp add: match_outcome [OF assms])
  qed
next
  assume *: "truthy (readProp cfg ''meaningOnly'') \<and> map_of (props a) ''version'' \<noteq> None"
  show "isl (fst (assertStatementMatch h a e cfg ctx))"
  proof (cases "normalize h a e cfg ctx")
    case (Inl err)
    then show ?thesis by (simp add: match_outcome [OF assms])
  next
    case (Inr p)
    obtain a' e' where p: "p = (a', e')" by (cases p)
    with Inr have n: "normalize h a e cfg ctx = Inr (a', e')" by simp
    have "map_of (props a') ''version'' \<noteq> None"
      using * by (simp add: normalize_actual_keys [OF n] delete_conv')
    moreover have "map_of (props e') ''version'' = None"
      using normalize_expected_version [OF n] * by simp
    ultimately have "\<not> deepEqual h a' e'"
      by (rule not_deepEqual_missing_key)
    with n show ?thesis by (simp add: match_outcome [OF assms])
  qed
qed

text \<open>
  The version does not behave as the other two: in meaning-only mode an actual tree with
  a version does not match, since only the expected tree loses its version; in full mode a
  different version of the expected tree is overwritten and the trees match.
\<close>

theorem version_differs_meaningOnly:
  "fst (assertStatementMatch sampleHost
      (JObj [(''id'', JStr ''i''), (''version'', JStr ''1.0.0''), (''object'', JObj [])])
      (JObj [(''id'', JStr ''i''), (''version'', JStr ''1.0.1''), (''object'', JObj [])])
      sampleCfgMeaning sampleContext) = Inl AssertionError
   \<and> fst (assertStatementMatch sampleHost
      (JObj [(''id'', JStr ''i''), (''version'', JStr ''1.0.0''), (''object'', JObj [])])
      (JObj [(''id'', JStr ''i''), (''version'', JStr ''0.9.5''), (''object'', JObj [])])
      sampleCfg sampleContext)
     = Inr (JObj [(''id'', JStr ''i''), (''version'', JStr ''1.0.0''), (''object'', JObj [])],
            JObj [(''id'', JStr ''i''), (''version'', JStr ''1.0.0''), (''object'', JObj [])])"
  by code_simp


theorem store_fields_witness:
  "isRef sampleCfgMeaning \<and> truthy (readProp sampleCfgMeaning ''meaningOnly'')
   \<and> AList.delete ''authority'' (AList.delete ''stored''
        [(''id'', JStr ''i''), (''object'', JObj []), (''stored'', JStr ''s2''),
         (''authority'', JObj [])])
      = AList.delete ''authority'' (AList.delete ''stored''
        [(''id'', JStr ''i''), (''object'', JObj []), (''stored'', JStr ''s1'')])
   \<and> AList.delete ''authority'' (AList.delete ''stored'' (AList.delete ''version''
        [(''id'', JStr ''i''), (''object'', JObj []), (''version'', JStr ''1.0.1'')]))
      = AList.delete ''authority'' (AList.delete ''stored'' (AList.delete ''version''
        [(''id'', JStr ''i''), (''object'', JObj []), (''stored'', JStr ''s3'')]))
   \<and> fst (assertStatementMatch sampleHost
        (JObj [(''id'', JStr ''i''), (''object'', JObj []), (''stored'', JStr ''s2''),
               (''authority'', JObj [])])
        (JObj [(''id'', JStr ''i''), (''object'', JObj []), (''version'', JStr ''1.0.1'')])
        sampleCfgMeaning sampleContext)
      = fst (assertStatementMatch sampleHost
        (JObj [(''id'', JStr ''i''), (''object'', JObj []), (''stored'', JStr ''s1'')])
        (JObj [(''id'', JStr ''i''), (''object'', JObj []), (''stored'', JStr ''s3'')])
        sampleCfgMeaning sampleContext)
   \<and> isRef sampleCfg \<and> \<not> truthy (readProp sampleCfg ''meaningOnly'')
   \<and> wf (JObj [(''id'', JStr ''i''), (''object'', JObj []), (''stored'', JStr ''s1'')])
   \<and> wf (JObj [(''id'', JStr ''i''), (''object'', JObj []), (''stored'', JStr ''s3'')])
   \<and> map_of (props (JObj [(''id'', JStr ''i''), (''object'', JObj []), (''stored'', JStr ''s3'')]))
        ''stored'' \<noteq> None
   \<and> isl (fst (assertStatementMatch sampleHost
        (JObj [(''id'', JStr ''i''), (''object'', JObj []), (''stored'', JStr ''s1'')])
        (JObj [(''id'', JStr ''i''), (''object'', JObj []), (''stored'', JStr ''s3'')])
        sampleCfg sampleContext))
   \<and> map_of (props (JObj [(''id'', JStr ''i''), (''version'', JStr ''1.0.0''),
        (''object'', JObj [])])) ''version'' \<noteq> None
   \<and> normalize sampleHost
        (JObj [(''id'', JStr ''i''), (''version'', JStr ''1.0.0''), (''object'', JObj [])])
        (JObj [(''id'', JStr ''i''), (''version'', JStr ''1.0.0''), (''object'', JObj [])])
        sampleCfgMeaning sampleContext
      = Inr (JObj [(''id'', JStr ''i''), (''version'', JStr ''1.0.0''), (''object'', JObj [])],
             JObj [(''id'', JStr ''i''), (''object'', JObj [])])
   \<and> isl (fst (assertStatementMatch sampleHost
        (JObj [(''id'', JStr ''i''), (''version'', JStr ''1.0.0''), (''object'', JObj [])])
        (JObj [(''id'', JStr ''i''), (''version'', JStr ''1.0.0''), (''object'', JObj [])])
        sampleCfgMeaning sampleContext))"
proof -
  have r: "isRef sampleCfgMeaning" and m: "truthy (readProp sampleCfgMeaning ''meaningOnly'')"
    by code_simp+
  have d1: "AList.delete ''authority'' (AList.delete ''stored''
        [(''id'', JStr ''i''), (''object'', JObj []), (''stored'', JStr ''s2''),
         (''authority'', JObj [])])
      = AList.delete ''authority'' (AList.delete ''stored''
        [(''id'', JStr ''i''), (''object'', JObj []), (''stored'', JStr ''s1'')])"
    by code_simp
  have d2: "AList.delete ''authority'' (AList.delete ''stored'' (AList.delete ''version''
        [(''id'', JStr ''i''), (''object'', JObj []), (''version'', JStr ''1.0.1'')]))
      = AList.delete ''authority'' (AList.delete ''stored'' (AList.delete ''version''
        [(''id'', JStr ''i''), (''object'', JObj []), (''stored'', JStr ''s3'')]))"
    by code_simp
  have r': "isRef sampleCfg" and m': "\<not> truthy (readProp sampleCfg ''meaningOnly'')"
    by code_simp+
  have w1: "wf (JObj [(''id'', JStr ''i''), (''object'', JObj []), (''stored'', JStr ''s1'')])"
    and w2: "wf (JObj [(''id'', JStr ''i''), (''object'', JObj []), (''stored'', JStr ''s3'')])"
    and s: "map_of (props (JObj [(''id'', JStr ''i''), (''object'', JObj []),
               (''stored'', JStr ''s3'')])) ''stored'' \<noteq> None"
    by code_simp+
  have v: "map_of (props (JObj [(''id'', JStr ''i''), (''version'', JStr ''1.0.0''),
        (''object'', JObj [])])) ''version'' \<noteq> None"
    by code_simp
  have n: "normalize sampleHost
        (JObj [(''id'', JStr ''i''), (''version'', JStr ''1.0.0''), (''object'', JObj [])])
        (JObj [(''id'', JStr ''i''), (''version'', JStr ''1.0.0''), (''object'', JObj [])])
        sampleCfgMeaning sampleContext
      = Inr (JObj [(''id'', JStr ''i''), (''version'', JStr ''1.0.0''), (''object'', JObj [])],
             JObj [(''id'', JStr ''i''), (''object'', JObj [])])"
    by code_simp
  from store_fields [OF r, of sampleHost
      "JObj [(''id'', JStr ''i''), (''object'', JObj []), (''stored'', JStr ''s1'')]"
      "JObj [(''id'', JStr ''i''), (''object'', JObj []), (''stored'', JStr ''s3'')]"
      sampleContext] m d1 d2
  have 1: "fst (assertStatementMatch sampleHost
        (JObj [(''id'', JStr ''i''), (''object'', JObj []), (''stored'', JStr ''s2''),
               (''authority'', JObj [])])
        (JObj [(''id'', JStr ''i''), (''object'', JObj []), (''version'', JStr ''1.0.1'')])
        sampleCfgMeaning sampleContext)
      = fst (assertStatementMatch sampleHost
        (JObj [(''id'', JStr ''i''), (''object'', JObj []), (''stored'', JStr ''s1'')])
        (JObj [(''id'', JStr ''i''), (''object'', JObj []), (''stored'', JStr ''s3'')])
        sampleCfgMeaning sampleContext)"
    by blast
  from store_fields [OF r', of sampleHost
      "JObj [(''id'', JStr ''i''), (''object'', JObj []), (''stored'', JStr ''s1'')]"
      "JObj [(''id'', JStr ''i''), (''object'', JObj []), (''stored'', JStr ''s3'')]"
      sampleContext] m' w1 w2 s
  have 2: "isl (fst (assertStatementMatch sampleHost
        (JObj [(''id'', JStr ''i''), (''object'', JObj []), (''stored'', JStr ''s1'')])
        (JObj [(''id'', JStr ''i''), (''object'', JObj []), (''stored'', JStr ''s3'')])
        sampleCfg sampleContext))"
    by blast
  from store_fields [OF r, of sampleHost
      "JObj [(''id'', JStr ''i''), (''version'', JStr ''1.0.0''), (''object'', JObj [])]"
      "JObj [(''id'', JStr ''i''), (''version'', JStr ''1.0.0''), (''object'', JObj [])]"
      sampleContext] m v
  have 3: "isl (fst (assertStatementMatch sampleHost
        (JObj [(''id'', JStr ''i''), (''version'', JStr ''1.0.0''), (''object'', JObj [])])
        (JObj [(''id'', JStr ''i''), (''version'', JStr ''1.0.0''), (''object'', JObj [])])
        sampleCfgMeaning sampleContext))"
    by blast
  from r m d1 d2 1 r' m' w1 w2 s 2 v n 3 show ?thesis
    by blast
qed

subsection \<open>What the final assertion compares\<close>

lemma looseEq_sym: "looseEq h x y \<longleftrightarrow> looseEq h y x"
  by (cases "asNumber h x"; cases "asNumber h y") (auto simp: looseEq_def)

lemma looseEq_table:
  "looseEq h (JStr s) (JStr t) \<longleftrightarrow> s = t"
  "looseEq h (JNum m) (JNum n) \<longleftrightarrow> m = n"
  "looseEq h (JBool b) (JBool c) \<longleftrightarrow> b = c"
  "looseEq h (JBool b) (JNum n) \<longleftrightarrow> n = (if b then 1 else 0)"
  "looseEq h (JNum n) (JStr s) \<longleftrightarrow> toNumber h s = Some n"
  "looseEq h (JBool b) (JStr s) \<longleftrightarrow> toNumber h s = Some (if b then 1 else 0)"
  "looseEq h JNull x \<longleftrightarrow> nullish x"
  "looseEq h JUndefined x \<longleftrightarrow> nullish x"
  by (auto simp: looseEq_def nullish_def)

lemma deepEqual_leaves: "\<not> isRef x \<Longrightarrow> \<not> isRef y \<Longrightarrow> deepEqual h x y \<longleftrightarrow> looseEq h x y"
  by (cases x; cases y) simp_all

lemma deepEqual_kinds: "isRef x \<noteq> isRef y \<or> isArray x \<noteq> isArray y \<Longrightarrow> \<not> deepEqual h x y"
  by (cases x; cases y) simp_all

lemma deepEqualElems_iff:
  "length as = length bs \<Longrightarrow>
     deepEqualElems h as bs \<longleftrightarrow> (\<forall>i < length as. deepEqual h (as ! i) (bs ! i))"
proof (induction as bs rule: list_induct2)
  case Nil
  then show ?case by simp
next
  case (Cons x xs y ys)
  then show ?case
    by (auto simp: less_Suc_eq_0_disj)
qed

lemma deepEqual_JArr_iff:
  "deepEqual h (JArr ea pa) (JArr eb pb) \<longleftrightarrow>
     length ea = length eb \<and> (\<forall>i < length ea. deepEqual h (ea ! i) (eb ! i))
     \<and> deepEqual h (JObj pa) (JObj pb)"
  by (auto simp: deepEqualElems_iff)

lemma deepEqualProps_intro:
  "(\<And>k v. (k, v) \<in> set fa \<Longrightarrow> \<exists>w. map_of fb k = Some w \<and> deepEqual h v w) \<Longrightarrow>
     deepEqualProps h fa fb"
proof (induction fa)
  case Nil
  then show ?case by simp
next
  case (Cons x fa)
  obtain k v where x: "x = (k, v)" by (cases x)
  from Cons.prems [of k v] x obtain w where "map_of fb k = Some w" and "deepEqual h v w"
    by auto
  moreover have "deepEqualProps h fa fb"
    by (rule Cons.IH) (simp add: Cons.prems)
  ultimately show ?case using x by simp
qed

lemma lookup_map_of: "map_of fs k = Some v \<Longrightarrow> lookup fs k = v"
  by (simp add: lookup_def)

lemma deepEqual_JObj_iff:
  assumes "distinct (map fst fa)" and "distinct (map fst fb)"
  shows "deepEqual h (JObj fa) (JObj fb) \<longleftrightarrow>
     fst ` set fa = fst ` set fb
     \<and> (\<forall>k \<in> fst ` set fa. deepEqual h (lookup fa k) (lookup fb k))"
proof
  assume d: "deepEqual h (JObj fa) (JObj fb)"
  then have p: "deepEqualProps h fa fb" by simp
  from d assms have "fst ` set (props (JObj fa)) = fst ` set (props (JObj fb))"
    by (intro deepEqual_same_keys [of h]) (simp_all add: distinctKeys_def)
  then have keys: "fst ` set fa = fst ` set fb" by simp
  have "deepEqual h (lookup fa k) (lookup fb k)" if "k \<in> fst ` set fa" for k
  proof -
    from that obtain v where v: "map_of fa k = Some v"
      by (cases "map_of fa k") (auto simp: map_of_eq_None_iff)
    from deepEqualProps_map_of [OF p v] obtain w where "map_of fb k = Some w"
      and "deepEqual h v w" by blast
    with v show ?thesis by (simp add: lookup_def)
  qed
  with keys show "fst ` set fa = fst ` set fb
     \<and> (\<forall>k \<in> fst ` set fa. deepEqual h (lookup fa k) (lookup fb k))"
    by blast
next
  assume *: "fst ` set fa = fst ` set fb
     \<and> (\<forall>k \<in> fst ` set fa. deepEqual h (lookup fa k) (lookup fb k))"
  have "card (fst ` set fa) = length fa"
    using assms(1) by (metis distinct_card length_map set_map)
  moreover have "card (fst ` set fb) = length fb"
    using assms(2) by (metis distinct_card length_map set_map)
  ultimately have l: "length fa = length fb" using * by simp
  have "deepEqualProps h fa fb"
  proof (rule deepEqualProps_intro)
    fix k v assume kv: "(k, v) \<in> set fa"
    with assms(1) have v: "map_of fa k = Some v" by simp
    from kv have k: "k \<in> fst ` set fa" by force
    with * have "k \<in> fst ` set fb" by simp
    then obtain w where w: "map_of fb k = Some w"
      by (cases "map_of fb k") (auto simp: map_of_eq_None_iff)
    from * k have "deepEqual h (lookup fa k) (lookup fb k)" by blast
    with v w show "\<exists>w. map_of fb k = Some w \<and> deepEqual h v w"
      by (simp add: lookup_def)
  qed
  with l show "deepEqual h (JObj fa) (JObj fb)" by simp
qed

lemma textualProps_map_of: "textualProps fs \<Longrightarrow> map_of fs k = Some v \<Longrightarrow> textual v"
  by (induction fs) (auto split: if_splits)

lemma textual_leaf: "textual a \<Longrightarrow> \<not> isRef a \<Longrightarrow> (\<exists>s. a = JStr s) \<or> a = JNull"
  by (cases a) simp_all

lemma deepEqual_textual_aux:
  "textual a \<Longrightarrow> textual b \<Longrightarrow> deepEqual h a b = structEq a b"
  "textualElems as \<Longrightarrow> textualElems bs \<Longrightarrow> deepEqualElems h as bs = structEqElems as bs"
  "textualProps fa \<Longrightarrow> textualProps fb \<Longrightarrow> deepEqualProps h fa fb = structEqProps fa fb"
proof (induction a b and as bs and fa fb rule: structEq_structEqElems_structEqProps.induct)
  case (7 k v r fb)
  show ?case
  proof (cases "map_of fb k")
    case None
    then show ?thesis by simp
  next
    case (Some w)
    with 7 have "textual w" by (auto dest: textualProps_map_of)
    with 7 Some show ?thesis by simp
  qed
qed (auto split: jv.splits list.splits simp: looseEq_def nullish_def)

text \<open>
  C3, as amended. For a configuration object: when the normalization completes with the
  trees \<open>a'\<close> and \<open>e'\<close>, \<^verbatim>\<open>assertStatementMatch\<close> throws an assertion failure if and only if
  the two are not deep-equal in the sense of \<^verbatim>\<open>assert.deepEqual\<close>, and returns otherwise;
  when the normalization throws, the call throws that error. Deep equality is: two objects
  (with distinct keys) have the same keys and deep-equal values under each key; two
  arrays have the same length and deep-equal elements index by index (and deep-equal
  named properties); an object, an array and a leaf are never deep-equal to one another;
  two leaves are deep-equal when \<^verbatim>\<open>==\<close> holds of them: two strings, two numbers or two
  booleans when they are the same, a boolean and a number when the number is 1 for true
  and 0 for false, a string and a number or a boolean when the string converts to that
  number, null and undefined with each other and with nothing else. Exactly structurally
  equal trees are deep-equal; and on trees whose leaves are strings or null, deep
  equality is exact structural equality.
\<close>

theorem match_raises_iff_not_deepEqual:
  assumes "isRef cfg"
  shows "(\<forall>a' e'. normalize h a e cfg ctx = Inr (a', e') \<longrightarrow>
            (fst (assertStatementMatch h a e cfg ctx) = Inl AssertionError
               \<longleftrightarrow> \<not> deepEqual h a' e')
            \<and> (fst (assertStatementMatch h a e cfg ctx) = Inr (a', e') \<longleftrightarrow> deepEqual h a' e')
            \<and> (structEq a' e' \<longrightarrow> deepEqual h a' e')
            \<and> (textual a' \<and> textual e' \<longrightarrow> (deepEqual h a' e' \<longleftrightarrow> structEq a' e')))
       \<and> (\<forall>err. normalize h a e cfg ctx = Inl err \<longrightarrow>
            fst (assertStatementMatch h a e cfg ctx) = Inl err)
       \<and> (\<forall>fa fb. distinct (map fst fa) \<and> distinct (map fst fb) \<longrightarrow>
            (deepEqual h (JObj fa) (JObj fb) \<longleftrightarrow>
               fst ` set fa = fst ` set fb
               \<and> (\<forall>k \<in> fst ` set fa. deepEqual h (lookup fa k) (lookup fb k))))
       \<and> (\<forall>ea pa eb pb. deepEqual h (JArr ea pa) (JArr eb pb) \<longleftrightarrow>
            length ea = length eb \<and> (\<forall>i < length ea. deepEqual h (ea ! i) (eb ! i))
            \<and> deepEqual h (JObj pa) (JObj pb))
       \<and> (\<forall>x y. isRef x \<noteq> isRef y \<or> isArray x \<noteq> isArray y \<longrightarrow> \<not> deepEqual h x y)
       \<and> (\<forall>x y. \<not> isRef x \<and> \<not> isRef y \<longrightarrow> (deepEqual h x y \<longleftrightarrow> looseEq h x y))
       \<and> (\<forall>x y. looseEq h x y \<longleftrightarrow> looseEq h y x)
       \<and> (\<forall>s t. looseEq h (JStr s) (JStr t) \<longleftrightarrow> s = t)
       \<and> (\<forall>m n. looseEq h (JNum m) (JNum n) \<longleftrightarrow> m = n)
       \<and> (\<forall>b c. looseEq h (JBool b) (JBool c) \<longleftrightarrow> b = c)
       \<and> (\<forall>b n. looseEq h (JBool b) (JNum n) \<longleftrightarrow> n = (if b then 1 else 0))
       \<and> (\<forall>n s. looseEq h (JNum n) (JStr s) \<longleftrightarrow> toNumber h s = Some n)
       \<and> (\<forall>b s. looseEq h (JBool b) (JStr s) \<longleftrightarrow> toNumber h s = Some (if b then 1 else 0))
       \<and> (\<forall>x. looseEq h JNull x \<longleftrightarrow> nullish x)
       \<and> (\<forall>x. looseEq h JUndefined x \<longleftrightarrow> nullish x)"
proof (intro conjI allI impI)
  fix a' e' assume n: "normalize h a e cfg ctx = Inr (a', e')"
  show "fst (assertStatementMatch h a e cfg ctx) = Inl AssertionError \<longleftrightarrow> \<not> deepEqual h a' e'"
    using n by (simp add: match_outcome [OF assms])
  show "fst (assertStatementMatch h a e cfg ctx) = Inr (a', e') \<longleftrightarrow> deepEqual h a' e'"
    using n by (simp add: match_outcome [OF assms])
  show "deepEqual h a' e'" if "structEq a' e'"
    using that by (rule structEq_deepEqual_aux(1))
  show "deepEqual h a' e' \<longleftrightarrow> structEq a' e'" if "textual a' \<and> textual e'"
    using that by (simp add: deepEqual_textual_aux(1))
next
  fix err assume "normalize h a e cfg ctx = Inl err"
  then show "fst (assertStatementMatch h a e cfg ctx) = Inl err"
    by (simp add: match_outcome [OF assms])
next
  fix fa fb :: "(string \<times> jv) list"
  assume "distinct (map fst fa) \<and> distinct (map fst fb)"
  then show "deepEqual h (JObj fa) (JObj fb) \<longleftrightarrow>
               fst ` set fa = fst ` set fb
               \<and> (\<forall>k \<in> fst ` set fa. deepEqual h (lookup fa k) (lookup fb k))"
    by (intro deepEqual_JObj_iff) simp_all
next
  fix ea pa eb pb
  show "deepEqual h (JArr ea pa) (JArr eb pb) \<longleftrightarrow>
            length ea = length eb \<and> (\<forall>i < length ea. deepEqual h (ea ! i) (eb ! i))
            \<and> deepEqual h (JObj pa) (JObj pb)"
    by (rule deepEqual_JArr_iff)
next
  fix x y assume "isRef x \<noteq> isRef y \<or> isArray x \<noteq> isArray y"
  then show "\<not> deepEqual h x y" by (rule deepEqual_kinds)
next
  fix x y assume "\<not> isRef x \<and> \<not> isRef y"
  then show "deepEqual h x y \<longleftrightarrow> looseEq h x y"
    by (intro deepEqual_leaves) simp_all
next
  fix x y show "looseEq h x y \<longleftrightarrow> looseEq h y x" by (rule looseEq_sym)
qed (rule looseEq_table)+

theorem match_raises_iff_not_deepEqual_witness:
  "isRef sampleCfg
   \<and> normalize sampleHost sampleActual sampleExpected sampleCfg sampleContext
       = Inr (sampleActualN, sampleExpectedN)
   \<and> structEq sampleActualN sampleExpectedN
   \<and> deepEqual sampleHost sampleActualN sampleExpectedN
   \<and> fst (assertStatementMatch sampleHost sampleActual sampleExpected sampleCfg sampleContext)
       = Inr (sampleActualN, sampleExpectedN)
   \<and> normalize sampleHost sampleActual
        (JObj (AList.update ''object'' (JObj [(''id'', JStr ''y'')]) (props sampleExpected)))
        sampleCfg sampleContext
       = Inr (sampleActualN,
              JObj (AList.update ''object''
                (JObj [(''id'', JStr ''y''), (''objectType'', JStr ''Activity'')])
                (props sampleExpectedN)))
   \<and> textual sampleActualN
   \<and> textual (JObj (AList.update ''object''
                (JObj [(''id'', JStr ''y''), (''objectType'', JStr ''Activity'')])
                (props sampleExpectedN)))
   \<and> \<not> looseEq sampleHost (JStr ''x'') (JStr ''y'')
   \<and> fst (assertStatementMatch sampleHost sampleActual
        (JObj (AList.update ''object'' (JObj [(''id'', JStr ''y'')]) (props sampleExpected)))
        sampleCfg sampleContext) = Inl AssertionError"
proof -
  let ?e = "JObj (AList.update ''object'' (JObj [(''id'', JStr ''y'')]) (props sampleExpected))"
  let ?eN = "JObj (AList.update ''object''
                (JObj [(''id'', JStr ''y''), (''objectType'', JStr ''Activity'')])
                (props sampleExpectedN))"
  have r: "isRef sampleCfg"
    by (simp add: sampleCfg_def)
  have n: "normalize sampleHost sampleActual sampleExpected sampleCfg sampleContext
       = Inr (sampleActualN, sampleExpectedN)"
    by code_simp
  have s: "structEq sampleActualN sampleExpectedN"
    by code_simp
  note m = match_raises_iff_not_deepEqual
    [OF r, of sampleHost sampleActual sampleExpected sampleContext]
  from m [THEN conjunct1, rule_format, OF n] s
  have 1: "deepEqual sampleHost sampleActualN sampleExpectedN
    \<and> fst (assertStatementMatch sampleHost sampleActual sampleExpected sampleCfg sampleContext)
       = Inr (sampleActualN, sampleExpectedN)"
    by blast
  have n2: "normalize sampleHost sampleActual ?e sampleCfg sampleContext
       = Inr (sampleActualN, ?eN)"
    by code_simp
  have t: "textual sampleActualN" "textual ?eN"
    by code_simp+
  have ns: "\<not> structEq sampleActualN ?eN"
    by code_simp
  note m2 = match_raises_iff_not_deepEqual [OF r, of sampleHost sampleActual ?e sampleContext]
  from m2 [THEN conjunct1, rule_format, OF n2] t ns
  have 2: "fst (assertStatementMatch sampleHost sampleActual ?e sampleCfg sampleContext)
      = Inl AssertionError"
    by blast
  have "looseEq sampleHost (JStr ''x'') (JStr ''y'') \<longleftrightarrow> ''x'' = ''y''"
    by (rule m [THEN conjunct2, THEN conjunct2, THEN conjunct2, THEN conjunct2,
          THEN conjunct2, THEN conjunct2, THEN conjunct2, THEN conjunct1, rule_format])
  then have 3: "\<not> looseEq sampleHost (JStr ''x'') (JStr ''y'')"
    by simp
  from r n s 1 n2 t 3 2 show ?thesis
    by blast
qed

text \<open>
  The converse fails: \<^verbatim>\<open>true\<close> and \<^verbatim>\<open>1\<close> are leaves of different types, and the call
  returns. Leaves are compared all the same: with \<^verbatim>\<open>2\<close> for \<^verbatim>\<open>1\<close> the call throws.
\<close>

theorem loosely_equal_leaves_match:
  "fst (assertStatementMatch sampleHost
      (JObj [(''id'', JStr ''i''), (''version'', JStr ''1.0.0''), (''object'', JObj []),
             (''x'', JBool True)])
      (JObj [(''id'', JStr ''i''), (''object'', JObj []), (''x'', JNum 1)])
      (JObj [(''meaningOnly'', JBool False)]) sampleContext)
    = Inr (JObj [(''id'', JStr ''i''), (''version'', JStr ''1.0.0''), (''object'', JObj []),
                 (''x'', JBool True)],
           JObj [(''id'', JStr ''i''), (''object'', JObj []), (''x'', JNum 1),
                 (''version'', JStr ''1.0.0'')])
   \<and> \<not> structEq
        (JObj [(''id'', JStr ''i''), (''version'', JStr ''1.0.0''), (''object'', JObj []),
               (''x'', JBool True)])
        (JObj [(''id'', JStr ''i''), (''object'', JObj []), (''x'', JNum 1),
               (''version'', JStr ''1.0.0'')])
   \<and> fst (assertStatementMatch sampleHost
      (JObj [(''id'', JStr ''i''), (''version'', JStr ''1.0.0''), (''object'', JObj []),
             (''x'', JBool True)])
      (JObj [(''id'', JStr ''i''), (''object'', JObj []), (''x'', JNum 2)])
      (JObj [(''meaningOnly'', JBool False)]) sampleContext) = Inl AssertionError"
  by code_simp

subsection \<open>A tree against its copy\<close>

lemma truthy_not_nullish: "truthy v \<Longrightarrow> \<not> nullish v"
  by (cases v) (simp_all add: nullish_def)

lemma correctSingle_same: "correctSingle x loc x = Inr x"
  by (simp add: correctSingle_def Let_def get_prop_def truthy_not_nullish)

lemma correctElems_same:
  assumes "\<forall>j < length vs. getIndex (selectn loc x) (i + j) = vs ! j"
  shows "correctElems loc vs i x = Inr x \<or> correctElems loc vs i x = Inl TypeError"
  using assms
proof (induction vs arbitrary: i)
  case Nil
  then show ?case by simp
next
  case (Cons v vs)
  from Cons.prems have hd: "getIndex (selectn loc x) i = v"
    by force
  from Cons.prems have "\<forall>j < length vs. getIndex (selectn loc x) (Suc i + j) = vs ! j"
    by force
  then have IH: "correctElems loc vs (Suc i) x = Inr x \<or> correctElems loc vs (Suc i) x = Inl TypeError"
    by (rule Cons.IH)
  show ?case
  proof (cases "nullish v")
    case True
    then show ?thesis by (simp add: get_prop_def)
  next
    case False
    with hd IH show ?thesis by (simp add: get_prop_def)
  qed
qed

lemma correctMultiple_same:
  "correctMultiple x loc x = Inr x \<or> correctMultiple x loc x = Inl TypeError"
proof (cases "selectn loc x")
  case (JArr es ps)
  then have "\<forall>j < length (elems (selectn loc x)). getIndex (selectn loc x) (0 + j) = elems (selectn loc x) ! j"
    by simp
  then show ?thesis
    unfolding correctMultiple_def Let_def using correctElems_same by auto
qed (simp_all add: correctMultiple_def)

lemma forEachE_same:
  assumes "\<And>loc. f loc x = Inr x \<or> f loc x = Inl TypeError"
  shows "forEachE f locs x = Inr x \<or> forEachE f locs x = Inl TypeError"
proof (induction locs)
  case Nil
  then show ?case by simp
next
  case (Cons loc locs)
  with assms [of loc] show ?case by auto
qed

lemma forEachE_id: "(\<And>loc. f loc x = Inr x) \<Longrightarrow> forEachE f locs x = Inr x"
  by (induction locs) simp_all

lemma correctObjectTypes_same:
  "correctObjectTypes x x = Inr x \<or> correctObjectTypes x x = Inl TypeError"
proof -
  have "forEachE (correctSingle x) objectTypeLocations x = Inr x"
    by (rule forEachE_id) (rule correctSingle_same)
  then show ?thesis
    unfolding correctObjectTypes_def
    using forEachE_same [of "correctMultiple x" x objectTypeLocationsMultiple] correctMultiple_same
    by simp
qed

lemma correctBoth_same:
  "correctBoth x x = Inr x \<or> correctBoth x x = Inl TypeError"
proof -
  consider "correctObjectTypes x x = Inr x" | "correctObjectTypes x x = Inl TypeError"
    using correctObjectTypes_same by blast
  then show ?thesis
  proof cases
    case 1
    show ?thesis
    proof (cases "get_prop x ''object''")
      case (Inl err)
      with 1 show ?thesis by (auto simp: correctBoth_def get_prop_def split: if_splits)
    next
      case (Inr ao)
      show ?thesis
      proof (cases "get_prop ao ''objectType''")
        case (Inl err)
        with 1 Inr show ?thesis by (auto simp: correctBoth_def get_prop_def split: if_splits)
      next
        case t: (Inr t)
        consider "correctObjectTypes ao ao = Inr ao" | "correctObjectTypes ao ao = Inl TypeError"
          using correctObjectTypes_same by blast
        then show ?thesis
          using 1 Inr t by cases (simp_all add: correctBoth_def)
      qed
    qed
  next
    case 2
    then show ?thesis by (simp add: correctBoth_def)
  qed
qed

lemma deepEqualProps_refl_aux:
  assumes "distinct (map fst fb)" and "set fa \<subseteq> set fb"
    and "\<forall>(k, v) \<in> set fa. deepEqual h v v"
  shows "deepEqualProps h fa fb"
  using assms(2,3)
proof (induction fa)
  case Nil
  then show ?case by simp
next
  case (Cons x fa)
  obtain k v where x: "x = (k, v)" by (cases x)
  with Cons.prems(1) assms(1) have "map_of fb k = Some v"
    by simp
  with Cons x show ?case by simp
qed

lemma deepEqual_refl_aux:
  "wf v \<Longrightarrow> deepEqual h v v"
  "wfElems vs \<Longrightarrow> deepEqualElems h vs vs"
  "wfProps fs \<Longrightarrow> \<forall>(k, v) \<in> set fs. deepEqual h v v"
proof (induction v and vs and fs rule: wf_wfElems_wfProps.induct)
qed (auto simp: looseEq_refl_prim deepEqualProps_refl_aux)

lemma wfProps_delete: "wfProps fs \<Longrightarrow> wfProps (AList.delete k fs)"
  by (induction fs) auto

lemma wf_delete: "wf (JObj fs) \<Longrightarrow> wf (JObj (AList.delete k fs))"
  by (simp add: wfProps_delete distinct_delete)

lemma adjustStatement_copy:
  assumes "\<not> nullish cfg" and "\<not> truthy (readProp cfg ''meaningOnly'')"
    and "lookup fr ''id'' \<noteq> JUndefined"
    and "map_of fr ''version'' = Some (JStr ''1.0.0'')"
    and "map_of fr ''stored'' = None" and "map_of fr ''authority'' = None"
  shows "adjustStatement (JObj fr) (JObj fr) cfg ctx = Inr (JObj fr, JObj fr)"
proof -
  from assms(5,6) have "''stored'' \<notin> fst ` set fr" and "''authority'' \<notin> fst ` set fr"
    by (simp_all add: map_of_eq_None_iff)
  with assms(1-4) show ?thesis
    unfolding adjustStatement_def
    by (simp add: get_prop_def readProp_def nullish_def update_triv)
qed

lemma checkTimestamp_copy:
  assumes "\<forall>ts. map_of fr ''timestamp'' = Some ts \<longrightarrow> ts \<noteq> JUndefined
      \<and> isSame h (if endsWithOffset (toStr h ts) then JStr (toStr h ts @ '':00'') else ts) ts"
  shows "checkTimestamp h (JObj fr) (JObj fr) =
    Inr (JObj (AList.delete ''timestamp'' fr), JObj (AList.delete ''timestamp'' fr))"
proof (cases "map_of fr ''timestamp''")
  case None
  then have "''timestamp'' \<notin> fst ` set fr"
    by (simp add: map_of_eq_None_iff)
  with None show ?thesis
    by (simp add: checkTimestamp_def get_prop_def readProp_def lookup_def nullish_def)
next
  case (Some ts)
  with assms have "ts \<noteq> JUndefined"
    and "isSame h (if endsWithOffset (toStr h ts) then JStr (toStr h ts @ '':00'') else ts) ts"
    by simp_all
  with Some show ?thesis
    by (cases "endsWithOffset (toStr h ts)")
      (simp_all add: checkTimestamp_def get_prop_def readProp_def lookup_def nullish_def
        update_conv' delete_update_same)
qed

text \<open>
  C4, as amended. In full mode, for a configuration object and a well-formed record \<open>r\<close>
  that has an id, has the version \<^verbatim>\<open>"1.0.0"\<close>, has neither \<^verbatim>\<open>stored\<close> nor \<^verbatim>\<open>authority\<close>, and
  whose timestamp, when it has one, moment finds to be the same instant as itself:
  \<^verbatim>\<open>assertStatementMatch\<close> on \<open>r\<close> and a copy of \<open>r\<close> never throws an assertion failure. It
  returns, with both trees without their timestamp, unless the normalization throws a
  TypeError (as it does when \<open>r\<close> has no \<^verbatim>\<open>object\<close>).
\<close>

theorem copy_matches:
  assumes "isRef cfg" and "\<not> truthy (readProp cfg ''meaningOnly'')"
    and "wf (JObj fr)"
    and "lookup fr ''id'' \<noteq> JUndefined"
    and "map_of fr ''version'' = Some (JStr ''1.0.0'')"
    and "map_of fr ''stored'' = None" and "map_of fr ''authority'' = None"
    and "\<forall>ts. map_of fr ''timestamp'' = Some ts \<longrightarrow> ts \<noteq> JUndefined
      \<and> isSame h (if endsWithOffset (toStr h ts) then JStr (toStr h ts @ '':00'') else ts) ts"
  shows "fst (assertStatementMatch h (JObj fr) (JObj fr) cfg ctx)
      = Inr (JObj (AList.delete ''timestamp'' fr), JObj (AList.delete ''timestamp'' fr))
    \<or> fst (assertStatementMatch h (JObj fr) (JObj fr) cfg ctx) = Inl TypeError"
proof -
  have adj: "adjustStatement (JObj fr) (JObj fr) cfg ctx = Inr (JObj fr, JObj fr)"
    using assms(1,2,4-7) by (intro adjustStatement_copy) (simp_all add: isRef_not_nullish)
  have ct: "checkTimestamp h (JObj fr) (JObj fr) =
    Inr (JObj (AList.delete ''timestamp'' fr), JObj (AList.delete ''timestamp'' fr))"
    using assms(8) by (rule checkTimestamp_copy)
  have dq: "deepEqual h (JObj (AList.delete ''timestamp'' fr)) (JObj (AList.delete ''timestamp'' fr))"
    using assms(3) by (intro deepEqual_refl_aux(1) wf_delete)
  consider "correctBoth (JObj fr) (JObj fr) = Inr (JObj fr)"
    | "correctBoth (JObj fr) (JObj fr) = Inl TypeError"
    using correctBoth_same by blast
  then show ?thesis
  proof cases
    case 1
    with adj ct dq show ?thesis
      by (simp add: match_outcome [OF assms(1)] normalize_def)
  next
    case 2
    with adj show ?thesis
      by (simp add: match_outcome [OF assms(1)] normalize_def)
  qed
qed

theorem copy_matches_witness:
  "isRef sampleCfg \<and> \<not> truthy (readProp sampleCfg ''meaningOnly'')
   \<and> wf (JObj sampleRecord)
   \<and> lookup sampleRecord ''id'' \<noteq> JUndefined
   \<and> map_of sampleRecord ''version'' = Some (JStr ''1.0.0'')
   \<and> map_of sampleRecord ''stored'' = None \<and> map_of sampleRecord ''authority'' = None
   \<and> map_of sampleRecord ''timestamp'' = Some (JStr ''2020-01-01T00:00:00Z'')
   \<and> isSame sampleHost (JStr ''2020-01-01T00:00:00Z'') (JStr ''2020-01-01T00:00:00Z'')
   \<and> fst (assertStatementMatch sampleHost (JObj sampleRecord) (JObj sampleRecord) sampleCfg
        sampleContext)
      = Inr (JObj (AList.delete ''timestamp'' sampleRecord),
             JObj (AList.delete ''timestamp'' sampleRecord))"
proof -
  have 1: "isRef sampleCfg" and 2: "\<not> truthy (readProp sampleCfg ''meaningOnly'')"
    and 3: "wf (JObj sampleRecord)" and 4: "lookup sampleRecord ''id'' \<noteq> JUndefined"
    and 5: "map_of sampleRecord ''version'' = Some (JStr ''1.0.0'')"
    and 6: "map_of sampleRecord ''stored'' = None"
    and 7: "map_of sampleRecord ''authority'' = None"
    and t: "map_of sampleRecord ''timestamp'' = Some (JStr ''2020-01-01T00:00:00Z'')"
    and s: "isSame sampleHost (JStr ''2020-01-01T00:00:00Z'') (JStr ''2020-01-01T00:00:00Z'')"
    and o: "\<not> endsWithOffset ''2020-01-01T00:00:00Z''"
    by code_simp+
  have 8: "\<forall>ts. map_of sampleRecord ''timestamp'' = Some ts \<longrightarrow> ts \<noteq> JUndefined
      \<and> isSame sampleHost
          (if endsWithOffset (toStr sampleHost ts) then JStr (toStr sampleHost ts @ '':00'') else ts)
          ts"
    using t s o by (simp add: toStr_def)
  have n: "fst (assertStatementMatch sampleHost (JObj sampleRecord) (JObj sampleRecord) sampleCfg
        sampleContext) \<noteq> Inl TypeError"
    by code_simp
  from copy_matches [OF 1 2 3 4 5 6 7 8, of sampleContext] n
  have "fst (assertStatementMatch sampleHost (JObj sampleRecord) (JObj sampleRecord) sampleCfg
        sampleContext)
      = Inr (JObj (AList.delete ''timestamp'' sampleRecord),
             JObj (AList.delete ''timestamp'' sampleRecord))"
    by blast
  with 1 2 3 4 5 6 7 t s show ?thesis
    by blast
qed

text \<open>
  Without these conditions a record does not match its own copy: one with a \<^verbatim>\<open>stored\<close>
  field (line 129 removes it from the actual tree only), one without a version (line 122
  adds it to the expected tree only), one without an id (line 119 adds it to the expected
  tree only).
\<close>

theorem copy_with_stored_fails:
  "fst (assertStatementMatch sampleHost
      (JObj [(''id'', JStr ''i''), (''version'', JStr ''1.0.0''), (''object'', JObj []),
             (''stored'', JStr ''2020-01-01T00:00:05Z'')])
      (JObj [(''id'', JStr ''i''), (''version'', JStr ''1.0.0''), (''object'', JObj []),
             (''stored'', JStr ''2020-01-01T00:00:05Z'')])
      sampleCfg sampleContext) = Inl AssertionError
   \<and> fst (assertStatementMatch sampleHost
      (JObj [(''id'', JStr ''i''), (''object'', JObj [])])
      (JObj [(''id'', JStr ''i''), (''object'', JObj [])])
      sampleCfg sampleContext) = Inl AssertionError
   \<and> fst (assertStatementMatch sampleHost
      (JObj [(''version'', JStr ''1.0.0''), (''object'', JObj [])])
      (JObj [(''version'', JStr ''1.0.0''), (''object'', JObj [])])
      sampleCfg sampleContext) = Inl AssertionError"
  by code_simp

subsection \<open>How deep the reconciler goes\<close>

lemma nullish_props: "nullish v \<Longrightarrow> props v = []"
  by (auto simp: nullish_def)

lemma selectStep_updateAt_other:
  assumes "updateAt (p # ps) g v = Inr v'" and "q \<noteq> p"
  shows "selectStep v' q = selectStep v q"
proof (cases "nullish v")
  case True
  with assms(1) show ?thesis by (simp add: nullish_props)
next
  case False
  with updateAt_Cons_Inr(2,6) [OF assms(1)] assms(2) show ?thesis
    by (simp add: selectStep_def readProp_def lookup_def)
qed

lemma updateAt_single_cases:
  assumes "updateAt [q] g v = Inr v'"
  obtains "v' = v" | c c' where "map_of (props v) q = Some c" and "g c = Inr c'"
    and "set_prop v q c' = Inr v'"
  using assms by (auto simp: bindE_eq_Inr split: option.splits)

lemma selectStep_set_prop:
  "set_prop v q c' = Inr v' \<Longrightarrow> selectStep v' q = c'"
  by (auto simp: selectStep_def readProp_set_prop isRef_not_nullish dest: set_prop_Inr)

lemma selectStep_map_of:
  "map_of (props v) q = Some c \<Longrightarrow> selectStep v q = c"
  by (cases v) (auto simp: selectStep_def readProp_def lookup_def nullish_def)

lemma updateAt_discriminator_readProp:
  assumes "updateAt [q] (\<lambda>s. set_prop s ''objectType'' t) v = Inr v'" and "k \<noteq> ''objectType''"
  shows "readProp (selectStep v' q) k = readProp (selectStep v q) k"
  using assms(1)
proof (cases rule: updateAt_single_cases)
  case 1
  then show ?thesis by simp
next
  case (2 c c')
  then show ?thesis
    using assms(2) by (simp add: selectStep_set_prop selectStep_map_of readProp_set_prop)
qed

lemma updateAt_discriminator_selectStep:
  assumes "updateAt [q] (\<lambda>s. set_prop s ''objectType'' t) v = Inr v'" and "r \<noteq> ''objectType''"
  shows "selectStep (selectStep v' q) r = selectStep (selectStep v q) r"
  using assms(1)
proof (cases rule: updateAt_single_cases)
  case 1
  then show ?thesis by simp
next
  case (2 c c')
  then have "isRef c" and "isRef c'"
    by (simp_all add: set_prop_Inr)
  with 2 show ?thesis
    using assms(2)
    by (simp add: selectStep_set_prop selectStep_map_of selectStep_def [of c] selectStep_def [of c']
        readProp_set_prop isRef_not_nullish)
qed

lemma readProp_selectn:
  "readProp (selectn path v) k = readProp (selectParts (splitDots path) v) k"
  by (simp add: selectn_def selectParts_nullish readProp_def nullish_props)

text \<open>The first call of the reconciler keeps the children of the object of the object.\<close>

lemma correctObjectTypes_object_object:
  assumes "correctObjectTypes a e = Inr e'"
  shows "selectStep (selectStep e' ''object'') ''object'' = selectStep (selectStep e ''object'') ''object''"
proof (rule correctObjectTypes_invariant [OF assms,
      where P = "\<lambda>v. selectStep (selectStep v ''object'') ''object''
                    = selectStep (selectStep e ''object'') ''object''"])
  show "selectStep (selectStep e ''object'') ''object'' = selectStep (selectStep e ''object'') ''object''"
    by simp
next
  fix loc t v v'
  assume "loc \<in> set objectTypeLocations"
    and "updateAt (splitDots loc) (\<lambda>sub. set_prop sub ''objectType'' t) v = Inr v'"
    and "selectStep (selectStep v ''object'') ''object'' = selectStep (selectStep e ''object'') ''object''"
  then show "selectStep (selectStep v' ''object'') ''object''
      = selectStep (selectStep e ''object'') ''object''"
    unfolding objectTypeLocations_def
    by (auto simp: selectStep_updateAt_other updateAt_discriminator_selectStep
        simp del: updateAt.simps)
next
  fix loc t j v v'
  assume "loc \<in> set objectTypeLocationsMultiple"
    and "updateAt (splitDots loc)
         (\<lambda>sub. updateIndex sub j (\<lambda>el. set_prop el ''objectType'' t)) v = Inr v'"
    and "selectStep (selectStep v ''object'') ''object'' = selectStep (selectStep e ''object'') ''object''"
  then show "selectStep (selectStep v' ''object'') ''object''
      = selectStep (selectStep e ''object'') ''object''"
    unfolding objectTypeLocationsMultiple_def
    by (auto simp: selectStep_updateAt_other simp del: updateAt.simps)
qed

text \<open>A call of the reconciler changes at most the discriminator of the object.\<close>

lemma correctObjectTypes_object:
  assumes "correctObjectTypes a e = Inr e'" and "k \<noteq> ''objectType''"
  shows "readProp (selectStep e' ''object'') k = readProp (selectStep e ''object'') k"
proof (rule correctObjectTypes_invariant [OF assms(1),
      where P = "\<lambda>v. readProp (selectStep v ''object'') k = readProp (selectStep e ''object'') k"])
  show "readProp (selectStep e ''object'') k = readProp (selectStep e ''object'') k"
    by simp
next
  fix loc t v v'
  assume "loc \<in> set objectTypeLocations"
    and "updateAt (splitDots loc) (\<lambda>sub. set_prop sub ''objectType'' t) v = Inr v'"
    and "readProp (selectStep v ''object'') k = readProp (selectStep e ''object'') k"
  then show "readProp (selectStep v' ''object'') k = readProp (selectStep e ''object'') k"
    unfolding objectTypeLocations_def using assms(2)
    by (auto simp: selectStep_updateAt_other updateAt_discriminator_readProp
        simp del: updateAt.simps)
next
  fix loc t j v v'
  assume "loc \<in> set objectTypeLocationsMultiple"
    and "updateAt (splitDots loc)
         (\<lambda>sub. updateIndex sub j (\<lambda>el. set_prop el ''objectType'' t)) v = Inr v'"
    and "readProp (selectStep v ''object'') k = readProp (selectStep e ''object'') k"
  then show "readProp (selectStep v' ''object'') k = readProp (selectStep e ''object'') k"
    unfolding objectTypeLocationsMultiple_def
    by (auto simp: selectStep_updateAt_other simp del: updateAt.simps)
qed

text \<open>Lines 141--150, taken apart.\<close>

lemma correctBoth_cases:
  assumes "correctBoth a e = Inr e'"
  obtains (once) "readProp (readProp a ''object'') ''objectType'' \<noteq> JStr ''SubStatement''"
      and "correctObjectTypes a e = Inr e'"
  | (twice) e1 where "readProp (readProp a ''object'') ''objectType'' = JStr ''SubStatement''"
      and "correctObjectTypes a e = Inr e1"
      and "correctObjectTypes (readProp a ''object'') (readProp e1 ''object'')
            = Inr (readProp e' ''object'')"
      and "\<forall>k. k \<noteq> ''object'' \<longrightarrow> map_of (props e') k = map_of (props e1) k"
proof -
  from assms obtain e1 ao t where 1: "correctObjectTypes a e = Inr e1"
    and 2: "get_prop a ''object'' = Inr ao" and 3: "get_prop ao ''objectType'' = Inr t"
    and 4: "(if t = JStr ''SubStatement''
       then bindE (get_prop e1 ''object'') (\<lambda>eo.
            bindE (correctObjectTypes ao eo) (\<lambda>eo'.
              if eo' = eo then Inr e1 else set_prop e1 ''object'' eo'))
       else Inr e1) = Inr e'"
    unfolding correctBoth_def bindE_eq_Inr by blast
  from 2 3 have t: "t = readProp (readProp a ''object'') ''objectType''" and ao: "ao = readProp a ''object''"
    by (auto simp: get_prop_def split: if_splits)
  show ?thesis
  proof (cases "t = JStr ''SubStatement''")
    case False
    with 1 4 t show ?thesis by (intro once) simp_all
  next
    case True
    with 4 obtain eo eo' where 5: "get_prop e1 ''object'' = Inr eo"
      and 6: "correctObjectTypes ao eo = Inr eo'"
      and 7: "(if eo' = eo then Inr e1 else set_prop e1 ''object'' eo') = Inr e'"
      by (auto simp: bindE_eq_Inr)
    from 5 have eo: "eo = readProp e1 ''object''" and n1: "\<not> nullish e1"
      by (auto simp: get_prop_def split: if_splits)
    show ?thesis
    proof (cases "eo' = eo")
      case same: True
      with 7 have "e' = e1" by simp
      with True 1 6 t ao eo same show ?thesis
        by (intro twice [of e1]) simp_all
    next
      case False
      with 7 have s: "set_prop e1 ''object'' eo' = Inr e'" by simp
      then have "readProp e' ''object'' = eo'"
        by (simp add: readProp_set_prop)
      moreover from s have "\<forall>k. k \<noteq> ''object'' \<longrightarrow> map_of (props e') k = map_of (props e1) k"
        by (auto simp: update_conv' dest!: set_prop_Inr)
      ultimately show ?thesis
        using True 1 6 t ao eo by (intro twice [of e1]) simp_all
    qed
  qed
qed

lemma selectStep_isRef: "isRef v \<Longrightarrow> selectStep v k = readProp v k"
  by (simp add: selectStep_def isRef_not_nullish)

lemma correctBoth_object_object:
  assumes "correctBoth a e = Inr e'" and "k \<noteq> ''objectType''" and "isRef e"
  shows "readProp (selectStep (readProp e' ''object'') ''object'') k
       = readProp (selectStep (readProp e ''object'') ''object'') k"
  using assms(1)
proof (cases rule: correctBoth_cases)
  case once
  from once(2) have "sameTop e e'" by (rule correctObjectTypes_sameTop)
  with assms(3) have "isRef e'" by (simp add: sameTop_isRef)
  with correctObjectTypes_object_object [OF once(2)] assms(3) show ?thesis
    by (simp add: selectStep_isRef)
next
  case (twice e1)
  from twice(2) have "sameTop e e1" by (rule correctObjectTypes_sameTop)
  with assms(3) have "isRef e1" by (simp add: sameTop_isRef)
  with correctObjectTypes_object_object [OF twice(2)] assms(3)
  have "selectStep (readProp e1 ''object'') ''object'' = selectStep (readProp e ''object'') ''object''"
    by (simp add: selectStep_isRef)
  with correctObjectTypes_object [OF twice(3) assms(2)] show ?thesis
    by simp
qed

lemma correctBoth_object_once:
  assumes "correctBoth a e = Inr e'" and "k \<noteq> ''objectType''"
    and "readProp (readProp a ''object'') ''objectType'' \<noteq> JStr ''SubStatement''"
  shows "readProp (selectStep e' ''object'') k = readProp (selectStep e ''object'') k"
  using assms(1)
proof (cases rule: correctBoth_cases)
  case once
  from once(2) assms(2) show ?thesis by (rule correctObjectTypes_object)
next
  case (twice e1)
  with assms(3) show ?thesis by simp
qed

lemma checkTimestamp_readProp:
  assumes "checkTimestamp h a e = Inr (a', e')" and "k \<noteq> ''timestamp''"
  shows "readProp e' k = readProp e k"
  using checkTimestamp_props(2) [OF assms(1)] assms(2)
  by (auto simp: readProp_def lookup_def)

lemma normalize_object:
  assumes "normalize h a e cfg ctx = Inr (a', e')"
  obtains a1 e1 e2 where "adjustStatement a e cfg ctx = Inr (a1, e1)"
    and "correctBoth a1 e1 = Inr e2" and "isRef e1" and "isRef e2"
    and "readProp e1 ''object'' = readProp e ''object''"
    and "readProp e' ''object'' = readProp e2 ''object''"
    and "readProp a1 ''object'' = readProp a ''object''"
proof -
  from assms obtain a1 e1 e2 where 1: "adjustStatement a e cfg ctx = Inr (a1, e1)"
    and 2: "correctBoth a1 e1 = Inr e2" and 3: "checkTimestamp h a1 e2 = Inr (a', e')"
    by (rule normalize_Inr)
  from 1 have r1: "isRef e1" by (rule adjustStatement_expected(2))
  with correctBoth_sameTop [OF 2] have r2: "isRef e2" by (simp add: sameTop_isRef)
  from 1 have "readProp e1 ''object'' = readProp e ''object''"
    by (rule adjustStatement_expected(5)) simp
  moreover from 3 have "readProp e' ''object'' = readProp e2 ''object''"
    by (rule checkTimestamp_readProp) simp
  moreover from 1 have "readProp a1 ''object'' = readProp a ''object''"
    by (rule adjustStatement_actual) simp_all
  ultimately show ?thesis
    using 1 2 r1 r2 that by blast
qed

lemma select_object_object:
  "readProp (selectn ''object.object'' v) k
   = readProp (selectStep (readProp v ''object'') ''object'') k"
proof (cases "nullish v")
  case True
  then show ?thesis
    by (simp add: selectn_def readProp_def nullish_props selectStep_def lookup_def)
next
  case False
  then show ?thesis
    by (simp add: selectn_def selectStep_def [of v])
qed

text \<open>
  C8. Lines 141--150 call the reconciler once on the two trees and, exactly when the
  \<^verbatim>\<open>objectType\<close> of the object of the actual tree is \<^verbatim>\<open>"SubStatement"\<close>, once more on the two
  objects, the result being the object of the expected tree. Without that discriminator,
  whatever the object of the expected tree holds besides its own \<^verbatim>\<open>objectType\<close> is, at
  line 173, what it was. And in every case the object of the object of the expected tree
  keeps whatever it holds besides its own \<^verbatim>\<open>objectType\<close>: its actor, its object and its
  context are not reconciled, whatever its discriminator is.
\<close>

theorem reconciliation_depth:
  "(\<forall>e'. correctBoth a e = Inr e' \<longrightarrow>
      (if readProp (readProp a ''object'') ''objectType'' = JStr ''SubStatement''
       then \<exists>e1. correctObjectTypes a e = Inr e1
              \<and> correctObjectTypes (readProp a ''object'') (readProp e1 ''object'')
                  = Inr (readProp e' ''object'')
              \<and> (\<forall>k. k \<noteq> ''object'' \<longrightarrow> map_of (props e') k = map_of (props e1) k)
       else correctObjectTypes a e = Inr e'))
   \<and> (\<forall>a' e' k. normalize h a e cfg ctx = Inr (a', e') \<and> k \<noteq> ''objectType''
         \<and> readProp (readProp a ''object'') ''objectType'' \<noteq> JStr ''SubStatement'' \<longrightarrow>
        readProp (readProp e' ''object'') k = readProp (readProp e ''object'') k)
   \<and> (\<forall>a' e' k. normalize h a e cfg ctx = Inr (a', e') \<and> k \<noteq> ''objectType'' \<longrightarrow>
        readProp (selectn ''object.object'' e') k = readProp (selectn ''object.object'' e) k)"
proof (intro conjI allI impI)
  fix e' assume "correctBoth a e = Inr e'"
  then show "if readProp (readProp a ''object'') ''objectType'' = JStr ''SubStatement''
       then \<exists>e1. correctObjectTypes a e = Inr e1
              \<and> correctObjectTypes (readProp a ''object'') (readProp e1 ''object'')
                  = Inr (readProp e' ''object'')
              \<and> (\<forall>k. k \<noteq> ''object'' \<longrightarrow> map_of (props e') k = map_of (props e1) k)
       else correctObjectTypes a e = Inr e'"
    by (cases rule: correctBoth_cases) auto
next
  fix a' e' k
  assume *: "normalize h a e cfg ctx = Inr (a', e') \<and> k \<noteq> ''objectType''
         \<and> readProp (readProp a ''object'') ''objectType'' \<noteq> JStr ''SubStatement''"
  then obtain a1 e1 e2 where cb: "correctBoth a1 e1 = Inr e2" and "isRef e1" and "isRef e2"
    and "readProp e1 ''object'' = readProp e ''object''"
    and "readProp e' ''object'' = readProp e2 ''object''"
    and "readProp a1 ''object'' = readProp a ''object''"
    by (auto elim: normalize_object)
  with correctBoth_object_once [OF cb, of k] *
  show "readProp (readProp e' ''object'') k = readProp (readProp e ''object'') k"
    by (simp add: selectStep_isRef)
next
  fix a' e' k
  assume *: "normalize h a e cfg ctx = Inr (a', e') \<and> k \<noteq> ''objectType''"
  then obtain a1 e1 e2 where cb: "correctBoth a1 e1 = Inr e2" and r: "isRef e1"
    and "readProp e1 ''object'' = readProp e ''object''"
    and "readProp e' ''object'' = readProp e2 ''object''"
    by (auto elim: normalize_object)
  with correctBoth_object_object [OF cb _ r, of k] *
  show "readProp (selectn ''object.object'' e') k = readProp (selectn ''object.object'' e) k"
    by (simp add: select_object_object)
qed

theorem reconciliation_depth_witness:
  "correctBoth sampleSubActual sampleSubExpected = Inr sampleSubExpected2
   \<and> readProp (readProp sampleSubActual ''object'') ''objectType'' = JStr ''SubStatement''
   \<and> correctObjectTypes sampleSubActual sampleSubExpected = Inr sampleSubExpected1
   \<and> correctObjectTypes (readProp sampleSubActual ''object'')
        (readProp sampleSubExpected1 ''object'') = Inr (readProp sampleSubExpected2 ''object'')
   \<and> normalize sampleHost sampleSubActual sampleSubExpected sampleCfg sampleContext
        = Inr (sampleSubActual, sampleSubExpectedN)
   \<and> readProp (selectn ''object.object'' sampleSubExpectedN) ''actor''
        = readProp (selectn ''object.object'' sampleSubExpected) ''actor''
   \<and> readProp (selectn ''object.object'' sampleSubExpected) ''actor''
        = JObj [(''mbox'', JStr ''mailto:e@f.com'')]"
proof -
  have cb: "correctBoth sampleSubActual sampleSubExpected = Inr sampleSubExpected2"
    by code_simp
  have st: "readProp (readProp sampleSubActual ''object'') ''objectType'' = JStr ''SubStatement''"
    by code_simp
  have c1: "correctObjectTypes sampleSubActual sampleSubExpected = Inr sampleSubExpected1"
    by code_simp
  have n: "normalize sampleHost sampleSubActual sampleSubExpected sampleCfg sampleContext
        = Inr (sampleSubActual, sampleSubExpectedN)"
    by code_simp
  have v: "readProp (selectn ''object.object'' sampleSubExpected) ''actor''
        = JObj [(''mbox'', JStr ''mailto:e@f.com'')]"
    by code_simp
  note d = reconciliation_depth [of sampleSubActual sampleSubExpected sampleHost sampleCfg
      sampleContext]
  from d cb st c1
  have 1: "correctObjectTypes (readProp sampleSubActual ''object'')
        (readProp sampleSubExpected1 ''object'') = Inr (readProp sampleSubExpected2 ''object'')"
    by auto
  from d n
  have 2: "readProp (selectn ''object.object'' sampleSubExpectedN) ''actor''
        = readProp (selectn ''object.object'' sampleSubExpected) ''actor''"
    by auto
  from cb st c1 1 n 2 v show ?thesis
    by blast
qed

subsection \<open>What the reconciler copies\<close>

lemma splitDots_not_Nil [simp]: "splitDots s \<noteq> []"
  by (induction s) (auto split: list.splits)

lemma isRef_selectParts_Cons:
  assumes "isRef (selectParts (p # ps) v)"
  shows "\<not> nullish v" and "map_of (props v) p = Some (selectStep v p)"
    and "isRef v"
proof -
  show n: "\<not> nullish v"
  proof
    assume "nullish v"
    then have "selectParts (p # ps) v = v"
      by (rule selectParts_nullish)
    with assms \<open>nullish v\<close> show False
      by (simp add: isRef_not_nullish)
  qed
  show "map_of (props v) p = Some (selectStep v p)"
  proof (cases "map_of (props v) p")
    case None
    with n have "selectStep v p = JUndefined"
      by (simp add: selectStep_def readProp_def lookup_def)
    then have "selectParts (p # ps) v = JUndefined"
      by (simp add: selectParts_nullish nullish_def)
    with assms show ?thesis by simp
  next
    case (Some c)
    then show ?thesis by (simp add: selectStep_map_of)
  qed
  then show "isRef v"
    by (cases v) auto
qed

text \<open>A mutation through a reference that selectn has found is seen by selectn.\<close>

lemma updateAt_selectParts:
  assumes "isRef (selectParts ps v)" and "updateAt ps g v = Inr v'"
  shows "g (selectParts ps v) = Inr (selectParts ps v')"
  using assms
proof (induction ps arbitrary: v v')
  case Nil
  then show ?case by simp
next
  case (Cons p ps)
  from Cons.prems(1) have m: "map_of (props v) p = Some (selectStep v p)"
    by (rule isRef_selectParts_Cons)
  with Cons.prems(2) obtain c' where c': "updateAt ps g (selectStep v p) = Inr c'"
    and s: "set_prop v p c' = Inr v'"
    by (auto simp: bindE_eq_Inr)
  from Cons.prems(1) have "isRef (selectParts ps (selectStep v p))" by simp
  from Cons.IH [OF this c'] s show ?case
    by (simp add: selectStep_set_prop)
qed

lemma updateAt_selectParts_ex:
  assumes "isRef (selectParts ps v)" and "g (selectParts ps v) = Inr s'"
  shows "\<exists>v'. updateAt ps g v = Inr v' \<and> selectParts ps v' = s'"
  using assms
proof (induction ps arbitrary: v)
  case Nil
  then show ?case by simp
next
  case (Cons p ps)
  from Cons.prems(1) have m: "map_of (props v) p = Some (selectStep v p)" and r: "isRef v"
    by (rule isRef_selectParts_Cons)+
  from Cons.prems have "\<exists>c'. updateAt ps g (selectStep v p) = Inr c' \<and> selectParts ps c' = s'"
    by (intro Cons.IH) simp_all
  then obtain c' where c': "updateAt ps g (selectStep v p) = Inr c'" and s: "selectParts ps c' = s'"
    by blast
  from r obtain v' where v': "set_prop v p c' = Inr v'"
    using set_prop_isRef by blast
  with m c' s show ?case
    by (simp add: selectStep_set_prop)
qed

lemma selectn_isRef:
  "isRef (selectn loc v) \<Longrightarrow> \<not> nullish v \<and> selectn loc v = selectParts (splitDots loc) v"
  by (auto simp: selectn_def split: if_splits)

lemma updateAt_splitDots_nullish:
  assumes "updateAt (splitDots loc) g v = Inr v'"
  shows "nullish v' = nullish v"
proof -
  obtain p ps where "splitDots loc = p # ps"
    by (cases "splitDots loc") simp_all
  with assms show ?thesis
    by (simp add: updateAt_Cons_Inr(6) del: updateAt.simps)
qed

lemma updateAt_selectn:
  assumes "isRef (selectn loc v)" and "updateAt (splitDots loc) g v = Inr v'"
  shows "g (selectn loc v) = Inr (selectn loc v')"
proof -
  from selectn_isRef [OF assms(1)]
  have n: "\<not> nullish v" and s: "selectn loc v = selectParts (splitDots loc) v"
    by simp_all
  from assms(2) n have "\<not> nullish v'"
    by (simp add: updateAt_splitDots_nullish)
  then have "selectn loc v' = selectParts (splitDots loc) v'"
    by (simp add: selectn_def)
  with updateAt_selectParts [of "splitDots loc" v g v'] assms s show ?thesis
    by simp
qed

text \<open>The single-valued rule (lines 68--69), both ways.\<close>

lemma correctSingle_copies:
  assumes "\<not> nullish (selectn loc a)" and "readProp (selectn loc a) ''objectType'' = t"
    and "t \<noteq> JUndefined" and "selectn loc e = JObj fe" and "lookup fe ''objectType'' = JUndefined"
  shows "\<exists>e'. correctSingle a loc e = Inr e'
    \<and> selectn loc e' = JObj (AList.update ''objectType'' t fe)"
proof -
  from assms(4) have r: "isRef (selectn loc e)" by simp
  from selectn_isRef [OF r]
  have n: "\<not> nullish e" and s: "selectn loc e = selectParts (splitDots loc) e"
    by simp_all
  from s assms(4) have sp: "selectParts (splitDots loc) e = JObj fe"
    by simp
  have "\<exists>e'. updateAt (splitDots loc) (\<lambda>sub. set_prop sub ''objectType'' t) e = Inr e'
      \<and> selectParts (splitDots loc) e' = JObj (AList.update ''objectType'' t fe)"
    by (rule updateAt_selectParts_ex) (simp_all add: sp)
  then obtain e' where u: "updateAt (splitDots loc) (\<lambda>sub. set_prop sub ''objectType'' t) e = Inr e'"
    and s': "selectParts (splitDots loc) e' = JObj (AList.update ''objectType'' t fe)"
    by blast
  from u n have "\<not> nullish e'" by (simp add: updateAt_splitDots_nullish)
  with s' have "selectn loc e' = JObj (AList.update ''objectType'' t fe)"
    by (simp add: selectn_def)
  moreover have "correctSingle a loc e = Inr e'"
    using assms u by (simp add: correctSingle_def get_prop_def readProp_def nullish_def)
  ultimately show ?thesis by blast
qed

lemma correctSingle_converse:
  assumes "\<not> nullish (selectn loc a)" and "readProp (selectn loc a) ''objectType'' = JUndefined"
  shows "correctSingle a loc e = Inr e"
  using assms by (simp add: correctSingle_def Let_def get_prop_def)

text \<open>The collection rule (lines 87--97) on an expected sequence, element by element.\<close>

lemma updateIndex_JArr:
  "updateIndex (JArr ee pe) j f = Inr s' \<longleftrightarrow>
     (\<exists>el. f (getIndex (JArr ee pe) j) = Inr el \<and> s' = JArr (ee[j := el]) pe)"
  by (auto simp: updateIndex_def bindE_eq_Inr)

lemma correctElems_JArr:
  assumes "correctElems loc vs j e = Inr e'" and "selectn loc e = JArr ee pe"
  shows "\<exists>ee'. selectn loc e' = JArr ee' pe \<and> length ee' = length ee
    \<and> (\<forall>i < length ee. ee' ! i =
          (if j \<le> i \<and> i < j + length vs then reconciled (vs ! (i - j)) (ee ! i) else ee ! i))"
  using assms
proof (induction vs arbitrary: j e ee)
  case Nil
  then show ?case by auto
next
  case (Cons v vs)
  from Cons.prems(1) obtain t where t: "get_prop v ''objectType'' = Inr t"
    by (auto simp: bindE_eq_Inr)
  then have tv: "t = readProp v ''objectType''"
    by (auto simp: get_prop_def split: if_splits)
  have shift: "\<And>i. Suc j \<le> i \<Longrightarrow> (v # vs) ! (i - j) = vs ! (i - Suc j)"
    by (simp add: Suc_diff_le)
  show ?case
  proof (cases "t = JUndefined")
    case True
    with Cons.prems(1) t have "correctElems loc vs (Suc j) e = Inr e'"
      by simp
    from Cons.IH [OF this Cons.prems(2)] obtain ee' where
      1: "selectn loc e' = JArr ee' pe" and 2: "length ee' = length ee"
      and 3: "\<forall>i < length ee. ee' ! i =
          (if Suc j \<le> i \<and> i < Suc j + length vs then reconciled (vs ! (i - Suc j)) (ee ! i)
           else ee ! i)"
      by blast
    have "\<forall>i < length ee. ee' ! i =
          (if j \<le> i \<and> i < j + length (v # vs) then reconciled ((v # vs) ! (i - j)) (ee ! i)
           else ee ! i)"
    proof (intro allI impI)
      fix i assume i: "i < length ee"
      show "ee' ! i =
          (if j \<le> i \<and> i < j + length (v # vs) then reconciled ((v # vs) ! (i - j)) (ee ! i)
           else ee ! i)"
      proof (cases "i = j")
        case same: True
        with 3 i True tv show ?thesis by (simp add: reconciled_def)
      next
        case False
        with 3 i shift [of i] show ?thesis by (cases "Suc j \<le> i") auto
      qed
    qed
    with 1 2 show ?thesis by blast
  next
    case False
    with Cons.prems(1) t obtain u where
      u: "get_prop (getIndex (selectn loc e) j) ''objectType'' = Inr u"
      by (auto simp: bindE_eq_Inr)
    then have uv: "u = readProp (getIndex (JArr ee pe) j) ''objectType''"
      and nn: "\<not> nullish (getIndex (JArr ee pe) j)"
      using Cons.prems(2) by (auto simp: get_prop_def split: if_splits)
    from nn have jl: "j < length ee"
      by (auto simp: nullish_def split: if_splits)
    show ?thesis
    proof (cases "u = JUndefined")
      case notU: False
      with Cons.prems(1) t u False have "correctElems loc vs (Suc j) e = Inr e'"
        by simp
      from Cons.IH [OF this Cons.prems(2)] obtain ee' where
        1: "selectn loc e' = JArr ee' pe" and 2: "length ee' = length ee"
        and 3: "\<forall>i < length ee. ee' ! i =
          (if Suc j \<le> i \<and> i < Suc j + length vs then reconciled (vs ! (i - Suc j)) (ee ! i)
           else ee ! i)"
        by blast
      have "\<forall>i < length ee. ee' ! i =
          (if j \<le> i \<and> i < j + length (v # vs) then reconciled ((v # vs) ! (i - j)) (ee ! i)
           else ee ! i)"
      proof (intro allI impI)
        fix i assume i: "i < length ee"
        show "ee' ! i =
          (if j \<le> i \<and> i < j + length (v # vs) then reconciled ((v # vs) ! (i - j)) (ee ! i)
           else ee ! i)"
        proof (cases "i = j")
          case same: True
          with 3 i notU uv jl show ?thesis by (simp add: reconciled_def)
        next
          case False
          with 3 i shift [of i] show ?thesis by (cases "Suc j \<le> i") auto
        qed
      qed
      with 1 2 show ?thesis by blast
    next
      case isU: True
      with Cons.prems(1) t u False obtain e1 where
        e1: "updateAt (splitDots loc)
               (\<lambda>sub. updateIndex sub j (\<lambda>el. set_prop el ''objectType'' t)) e = Inr e1"
        and rest: "correctElems loc vs (Suc j) e1 = Inr e'"
        by (auto simp: bindE_eq_Inr)
      have "isRef (selectn loc e)" using Cons.prems(2) by simp
      from updateAt_selectn [OF this e1] Cons.prems(2)
      have "updateIndex (JArr ee pe) j (\<lambda>el. set_prop el ''objectType'' t) = Inr (selectn loc e1)"
        by simp
      then obtain el where el: "set_prop (ee ! j) ''objectType'' t = Inr el"
        and s1: "selectn loc e1 = JArr (ee[j := el]) pe"
        using jl by (auto simp: updateIndex_JArr)
      from Cons.IH [OF rest s1] obtain ee' where
        1: "selectn loc e' = JArr ee' pe" and 2: "length ee' = length ee"
        and 3: "\<forall>i < length ee. ee' ! i =
          (if Suc j \<le> i \<and> i < Suc j + length vs
           then reconciled (vs ! (i - Suc j)) (ee[j := el] ! i)
           else ee[j := el] ! i)"
        by auto
      have "\<forall>i < length ee. ee' ! i =
          (if j \<le> i \<and> i < j + length (v # vs) then reconciled ((v # vs) ! (i - j)) (ee ! i)
           else ee ! i)"
      proof (intro allI impI)
        fix i assume i: "i < length ee"
        show "ee' ! i =
          (if j \<le> i \<and> i < j + length (v # vs) then reconciled ((v # vs) ! (i - j)) (ee ! i)
           else ee ! i)"
        proof (cases "i = j")
          case same: True
          with 3 i isU uv jl el False tv show ?thesis by (simp add: reconciled_def)
        next
          case False
          with 3 i shift [of i] show ?thesis by (cases "Suc j \<le> i") auto
        qed
      qed
      with 1 2 show ?thesis by blast
    qed
  qed
qed

lemma correctMultiple_JArr:
  assumes "correctMultiple a loc e = Inr e'" and "selectn loc a = JArr ea pa"
    and "selectn loc e = JArr ee pe"
  shows "\<exists>ee'. selectn loc e' = JArr ee' pe \<and> length ee' = length ee
    \<and> (\<forall>i < length ee. ee' ! i = (if i < length ea then reconciled (ea ! i) (ee ! i) else ee ! i))"
proof -
  from assms have "correctElems loc ea 0 e = Inr e'"
    by (simp add: correctMultiple_def)
  from correctElems_JArr [OF this assms(3)] obtain ee' where
    "selectn loc e' = JArr ee' pe" and "length ee' = length ee"
    and "\<forall>i < length ee. ee' ! i =
          (if 0 \<le> i \<and> i < 0 + length ea then reconciled (ea ! (i - 0)) (ee ! i) else ee ! i)"
    by blast
  then show ?thesis
    by (intro exI [of _ ee']) simp
qed

lemma reconciled_copies:
  assumes "lookup fv ''objectType'' = t" and "t \<noteq> JUndefined"
    and "lookup fe ''objectType'' = JUndefined"
  shows "reconciled (JObj fv) (JObj fe) = JObj (AList.update ''objectType'' t fe)"
  using assms by (simp add: reconciled_def readProp_def)

lemma reconciled_converse:
  assumes "readProp v ''objectType'' = JUndefined"
  shows "reconciled v el = el"
  using assms by (simp add: reconciled_def)

subsection \<open>A discriminator stays where it is\<close>

lemma discAt_Nil:
  "discAt [] ks t v \<longleftrightarrow> (\<exists>f. v = JObj f \<and> map fst f = ks \<and> lookup f ''objectType'' = t)"
  by (cases v) (simp_all add: discAt_def)

lemma discAt_Cons: "discAt (p # ps) ks t v = discAt ps ks t (selectStep v p)"
  by (simp add: discAt_def)

lemma discAt_root:
  assumes "discAt [] ks t v" and "isRef v'" and "\<not> isArray v'"
    and "map fst (props v') = map fst (props v)"
    and "map_of (props v') ''objectType'' = map_of (props v) ''objectType''"
  shows "discAt [] ks t v'"
proof -
  from assms(1) obtain f where f: "v = JObj f" "map fst f = ks" "lookup f ''objectType'' = t"
    unfolding discAt_Nil by blast
  from assms(2,3) obtain f' where f': "v' = JObj f'"
    by (cases v') simp_all
  from assms(4,5) f f' have "map fst f' = ks" and "lookup f' ''objectType'' = t"
    by (simp_all add: lookup_def)
  with f' show ?thesis
    unfolding discAt_Nil by blast
qed

lemma discAt_sameTop:
  assumes "sameTop v v'" and "discAt [] ks t v"
  shows "discAt [] ks t v'"
proof -
  from assms(2) have r: "isRef v" and a: "\<not> isArray v"
    unfolding discAt_Nil by auto
  from assms(2) show ?thesis
  proof (rule discAt_root)
    from assms(1) r show "isRef v'" by (simp add: sameTop_def)
    from assms(1) a show "\<not> isArray v'" by (simp add: sameTop_def)
    from assms(1) show "map fst (props v') = map fst (props v)" by (simp add: sameTop_def)
    from assms(1) show "map_of (props v') ''objectType'' = map_of (props v) ''objectType''"
      by (simp add: sameTop_def)
  qed
qed

lemma discAt_updateAt_root:
  assumes "updateAt (q # qs) g v = Inr v'" and "q \<noteq> ''objectType''" and "discAt [] ks t v"
  shows "discAt [] ks t v'"
proof -
  from assms(3) have r: "isRef v" and a: "\<not> isArray v"
    unfolding discAt_Nil by auto
  from assms(3) show ?thesis
  proof (rule discAt_root)
    from updateAt_Cons_Inr(5) [OF assms(1)] r show "isRef v'" by simp
    from updateAt_Cons_Inr(4) [OF assms(1)] a show "\<not> isArray v'" by simp
    from assms(1) show "map fst (props v') = map fst (props v)" by (rule updateAt_Cons_Inr(1))
    from assms(1) show "map_of (props v') ''objectType'' = map_of (props v) ''objectType''"
      by (rule updateAt_Cons_Inr(2)) (simp add: assms(2) [symmetric])
  qed
qed

lemma updateAt_Cons_cases:
  assumes "updateAt (p # qs) g v = Inr v'"
  obtains "v' = v" | c' where "updateAt qs g (selectStep v p) = Inr c'"
    and "selectStep v' p = c'"
proof (cases "map_of (props v) p")
  case None
  with assms that(1) show ?thesis by simp
next
  case (Some c)
  with assms obtain c' where "updateAt qs g c = Inr c'" and "set_prop v p c' = Inr v'"
    by (auto simp: bindE_eq_Inr)
  with Some that(2) show ?thesis
    by (simp add: selectStep_map_of selectStep_set_prop)
qed

text \<open>A mutation that is neither at the path nor above it.\<close>

lemma discAt_updateAt:
  assumes "\<not> prefix qs ps" and "''objectType'' \<notin> set qs"
    and "updateAt qs g v = Inr v'" and "discAt ps ks t v"
  shows "discAt ps ks t v'"
  using assms
proof (induction ps arbitrary: qs v v')
  case Nil
  then obtain q qs' where "qs = q # qs'"
    by (cases qs) simp_all
  with Nil show ?case
    by (auto intro: discAt_updateAt_root simp del: updateAt.simps)
next
  case (Cons p ps)
  from Cons.prems(1) obtain q qs' where qs: "qs = q # qs'"
    by (cases qs) simp_all
  show ?case
  proof (cases "q = p")
    case False
    with Cons.prems(3,4) qs show ?thesis
      by (simp add: discAt_Cons selectStep_updateAt_other del: updateAt.simps)
  next
    case True
    with Cons.prems(1,2) qs have np: "\<not> prefix qs' ps" and no: "''objectType'' \<notin> set qs'"
      by simp_all
    from Cons.prems(3) qs True have "updateAt (p # qs') g v = Inr v'" by simp
    then show ?thesis
    proof (cases rule: updateAt_Cons_cases)
      case 1
      with Cons.prems(4) show ?thesis by simp
    next
      case (2 c')
      from Cons.IH [OF np no 2(1)] Cons.prems(4) 2(2) show ?thesis
        by (simp add: discAt_Cons)
    qed
  qed
qed

text \<open>A mutation at a path apart from the one read.\<close>

lemma selectParts_updateAt_apart:
  assumes "\<not> prefix qs ps" and "\<not> prefix ps qs" and "updateAt qs g v = Inr v'"
  shows "selectParts ps v' = selectParts ps v"
  using assms
proof (induction ps arbitrary: qs v v')
  case Nil
  then show ?case by simp
next
  case (Cons p ps)
  from Cons.prems(1) obtain q qs' where qs: "qs = q # qs'"
    by (cases qs) simp_all
  show ?case
  proof (cases "q = p")
    case False
    with Cons.prems(3) qs show ?thesis
      by (simp add: selectStep_updateAt_other del: updateAt.simps)
  next
    case True
    with Cons.prems(1,2) qs have np: "\<not> prefix qs' ps" "\<not> prefix ps qs'"
      by simp_all
    from Cons.prems(3) qs True have "updateAt (p # qs') g v = Inr v'" by simp
    then show ?thesis
    proof (cases rule: updateAt_Cons_cases)
      case 1
      then show ?thesis by simp
    next
      case (2 c')
      from Cons.IH [OF np 2(1)] 2(2) show ?thesis
        by simp
    qed
  qed
qed

lemma selectn_updateAt_apart:
  assumes "\<not> prefix (splitDots loc') (splitDots loc)" and "\<not> prefix (splitDots loc) (splitDots loc')"
    and "updateAt (splitDots loc') g v = Inr v'"
  shows "selectn loc v' = selectn loc v"
  using selectParts_updateAt_apart [OF assms] updateAt_splitDots_nullish [OF assms(3)]
  by (simp add: selectn_def)

text \<open>The steps of the reconciler, with the test that guards the mutation.\<close>

lemma correctSingle_cases:
  assumes "correctSingle a loc e = Inr e'"
  obtains "e' = e"
  | t where "readProp (selectn loc e) ''objectType'' = JUndefined" and "truthy (selectn loc e)"
      and "updateAt (splitDots loc) (\<lambda>sub. set_prop sub ''objectType'' t) e = Inr e'"
  using assms unfolding correctSingle_def Let_def
  by (auto simp: bindE_eq_Inr get_prop_def split: if_splits)

lemma single_paths:
  "loc \<in> set objectTypeLocations \<Longrightarrow>
     splitDots loc \<in> {[''actor''], [''object''], [''context'', ''instructor''],
       [''context'', ''team''], [''context'', ''statement'']}"
  by (auto simp: objectTypeLocations_def)

lemma multiple_paths:
  "loc \<in> set objectTypeLocationsMultiple \<Longrightarrow>
     splitDots loc \<in> {[''actor'', ''member''], [''context'', ''instructor'', ''member''],
       [''context'', ''team'', ''member''], [''context'', ''contextActivities'', ''category''],
       [''context'', ''contextActivities'', ''parent''],
       [''context'', ''contextActivities'', ''grouping''],
       [''context'', ''contextActivities'', ''other'']}"
  by (auto simp: objectTypeLocationsMultiple_def)

lemma locations_apart:
  assumes "loc \<in> set objectTypeLocations"
  shows "loc' \<in> set objectTypeLocations \<Longrightarrow> splitDots loc' \<noteq> splitDots loc \<Longrightarrow>
      \<not> prefix (splitDots loc') (splitDots loc) \<and> \<not> prefix (splitDots loc) (splitDots loc')"
    and "loc' \<in> set objectTypeLocationsMultiple \<Longrightarrow> \<not> prefix (splitDots loc') (splitDots loc)"
    and "loc' \<in> set objectTypeLocations \<or> loc' \<in> set objectTypeLocationsMultiple \<Longrightarrow>
      ''objectType'' \<notin> set (splitDots loc')"
proof -
  show "loc' \<in> set objectTypeLocations \<Longrightarrow> splitDots loc' \<noteq> splitDots loc \<Longrightarrow>
      \<not> prefix (splitDots loc') (splitDots loc) \<and> \<not> prefix (splitDots loc) (splitDots loc')"
    using single_paths [OF assms] single_paths [of loc'] by auto
  show "loc' \<in> set objectTypeLocationsMultiple \<Longrightarrow> \<not> prefix (splitDots loc') (splitDots loc)"
    using single_paths [OF assms] multiple_paths [of loc'] by auto
  show "loc' \<in> set objectTypeLocations \<or> loc' \<in> set objectTypeLocationsMultiple \<Longrightarrow>
      ''objectType'' \<notin> set (splitDots loc')"
    using single_paths [of loc'] multiple_paths [of loc'] by auto
qed

lemma discAt_selectn:
  "discAt (splitDots loc) ks t v \<Longrightarrow>
     \<exists>f. selectn loc v = JObj f \<and> map fst f = ks \<and> lookup f ''objectType'' = t"
proof -
  assume d: "discAt (splitDots loc) ks t v"
  then have "isRef (selectParts (splitDots loc) v)"
    by (auto simp: discAt_def split: jv.splits)
  moreover obtain p ps where "splitDots loc = p # ps"
    by (cases "splitDots loc") simp_all
  ultimately have "\<not> nullish v"
    using isRef_selectParts_Cons(1) by metis
  with d show ?thesis
    by (auto simp: discAt_def selectn_def split: jv.splits)
qed

lemma correctSingle_discAt:
  assumes "correctSingle a loc' e = Inr e'" and "loc \<in> set objectTypeLocations"
    and "loc' \<in> set objectTypeLocations"
    and "discAt (splitDots loc) ks t e" and "t \<noteq> JUndefined"
  shows "discAt (splitDots loc) ks t e'"
  using assms(1)
proof (cases rule: correctSingle_cases)
  case 1
  with assms(4) show ?thesis by simp
next
  case (2 t')
  show ?thesis
  proof (cases "splitDots loc' = splitDots loc")
    case True
    then have "selectn loc' e = selectn loc e"
      by (simp add: selectn_def)
    with discAt_selectn [OF assms(4)] 2(1) assms(5) show ?thesis
      by (auto simp: readProp_def)
  next
    case False
    with locations_apart(1) [OF assms(2,3)] locations_apart(3) [OF assms(2), of loc'] assms(3)
    have "\<not> prefix (splitDots loc') (splitDots loc)" and "''objectType'' \<notin> set (splitDots loc')"
      by simp_all
    from this 2(3) assms(4) show ?thesis by (rule discAt_updateAt)
  qed
qed

lemma correctMultiple_discAt:
  assumes "correctMultiple a loc' e = Inr e'" and "loc \<in> set objectTypeLocations"
    and "loc' \<in> set objectTypeLocationsMultiple"
    and "discAt (splitDots loc) ks t e"
  shows "discAt (splitDots loc) ks t e'"
proof (rule correctMultiple_invariant [OF assms(1), where P = "discAt (splitDots loc) ks t"])
  show "discAt (splitDots loc) ks t e" by (rule assms(4))
next
  fix t' j v v'
  assume u: "updateAt (splitDots loc')
         (\<lambda>sub. updateIndex sub j (\<lambda>el. set_prop el ''objectType'' t')) v = Inr v'"
    and d: "discAt (splitDots loc) ks t v"
  from locations_apart(2,3) [OF assms(2), of loc'] assms(3)
  have "\<not> prefix (splitDots loc') (splitDots loc)" and "''objectType'' \<notin> set (splitDots loc')"
    by simp_all
  from this u d show "discAt (splitDots loc) ks t v'" by (rule discAt_updateAt)
qed

lemma correctObjectTypes_discAt:
  assumes "correctObjectTypes a e = Inr e'" and "loc \<in> set objectTypeLocations"
    and "discAt (splitDots loc) ks t e" and "t \<noteq> JUndefined"
  shows "discAt (splitDots loc) ks t e'"
proof -
  from assms(1) obtain e1 where
    1: "forEachE (correctSingle a) objectTypeLocations e = Inr e1"
    and 2: "forEachE (correctMultiple a) objectTypeLocationsMultiple e1 = Inr e'"
    by (auto simp: correctObjectTypes_def bindE_eq_Inr)
  from 1 assms(3) have "discAt (splitDots loc) ks t e1"
    by (rule forEachE_invariant) (rule correctSingle_discAt [OF _ assms(2) _ _ assms(4)])
  with 2 show ?thesis
    by (rule forEachE_invariant) (rule correctMultiple_discAt [OF _ assms(2)])
qed

lemma location_head:
  assumes "loc \<in> set objectTypeLocations"
  obtains p ps where "splitDots loc = p # ps" and "p \<in> {''actor'', ''object'', ''context''}"
    and "p \<noteq> ''object'' \<or> ps = []"
  using assms by (auto simp: objectTypeLocations_def)

lemma correctBoth_discAt:
  assumes "correctBoth a e = Inr e'" and "loc \<in> set objectTypeLocations"
    and "discAt (splitDots loc) ks t e" and "t \<noteq> JUndefined"
  shows "discAt (splitDots loc) ks t e'"
  using assms(1)
proof (cases rule: correctBoth_cases)
  case once
  from once(2) assms(2-4) show ?thesis by (rule correctObjectTypes_discAt)
next
  case (twice e1)
  from twice(2) assms(2-4) have o1: "discAt (splitDots loc) ks t e1"
    by (rule correctObjectTypes_discAt)
  from assms(2) obtain p ps where sp: "splitDots loc = p # ps"
    and p: "p \<in> {''actor'', ''object'', ''context''}" and po: "p \<noteq> ''object'' \<or> ps = []"
    by (rule location_head)
  from o1 sp have "isRef (selectParts (p # ps) e1)"
    by (auto simp: discAt_def split: jv.splits)
  then have n1: "\<not> nullish e1" and m1: "map_of (props e1) p = Some (selectStep e1 p)"
    by (rule isRef_selectParts_Cons)+
  from assms(1) have "sameTop e e'" by (rule correctBoth_sameTop)
  moreover from twice(2) have "sameTop e e1" by (rule correctObjectTypes_sameTop)
  ultimately have n': "\<not> nullish e'" using n1 by (simp add: sameTop_def)
  show ?thesis
  proof (cases "p = ''object''")
    case False
    with twice(4) have "map_of (props e') p = map_of (props e1) p" by simp
    with n1 n' have "selectStep e' p = selectStep e1 p"
      by (simp add: selectStep_def readProp_def lookup_def)
    with o1 sp show ?thesis by (simp add: discAt_Cons)
  next
    case True
    with po have ps: "ps = []" by simp
    from twice(3) have "sameTop (readProp e1 ''object'') (readProp e' ''object'')"
      by (rule correctObjectTypes_sameTop)
    moreover from o1 sp True ps n1 have "discAt [] ks t (readProp e1 ''object'')"
      by (simp add: discAt_Cons selectStep_def)
    ultimately have "discAt [] ks t (readProp e' ''object'')"
      by (rule discAt_sameTop)
    with sp True ps n' show ?thesis
      by (simp add: discAt_Cons selectStep_def)
  qed
qed

subsection \<open>The single-valued rule in the whole reconciler\<close>

lemma selectn_path: "splitDots x = splitDots loc \<Longrightarrow> selectn x v = selectn loc v"
  by (simp add: selectn_def)

lemma correctSingle_path:
  assumes "splitDots x = splitDots loc"
  shows "correctSingle a x e = correctSingle a loc e"
  unfolding correctSingle_def selectn_path [OF assms] assms ..

lemma correctSingle_apart:
  assumes "correctSingle a x e = Inr e'" and "loc \<in> set objectTypeLocations"
    and "x \<in> set objectTypeLocations" and "splitDots x \<noteq> splitDots loc"
  shows "selectn loc e' = selectn loc e"
  using assms(1)
proof (cases rule: correctSingle_cases)
  case 1
  then show ?thesis by simp
next
  case (2 t)
  from locations_apart(1) [OF assms(2,3,4)] 2(3) show ?thesis
    by (intro selectn_updateAt_apart) simp_all
qed

lemma selectn_JObj:
  "selectn loc v = JObj f \<Longrightarrow> selectParts (splitDots loc) v = JObj f"
  by (auto simp: selectn_def split: if_splits)

lemma discAt_copied:
  assumes "selectn loc v = JObj (AList.update ''objectType'' t fe)"
  shows "discAt (splitDots loc) (map fst (AList.update ''objectType'' t fe)) t v"
proof -
  from assms have "selectParts (splitDots loc) v = JObj (AList.update ''objectType'' t fe)"
    by (rule selectn_JObj)
  then show ?thesis
    by (simp add: discAt_def lookup_def update_conv')
qed

lemma forEachE_single_copies:
  assumes "loc \<in> set objectTypeLocations" and "\<not> nullish (selectn loc a)"
    and "readProp (selectn loc a) ''objectType'' = t" and "t \<noteq> JUndefined"
    and "lookup fe ''objectType'' = JUndefined"
    and "set xs \<subseteq> set objectTypeLocations"
    and "forEachE (correctSingle a) xs e = Inr e'" and "selectn loc e = JObj fe"
  shows "if splitDots loc \<in> splitDots ` set xs
         then discAt (splitDots loc) (map fst (AList.update ''objectType'' t fe)) t e'
         else selectn loc e' = JObj fe"
  using assms(6-8)
proof (induction xs arbitrary: e)
  case Nil
  then show ?case by simp
next
  case (Cons x xs)
  let ?D = "discAt (splitDots loc) (map fst (AList.update ''objectType'' t fe)) t"
  from Cons.prems(1) have x: "x \<in> set objectTypeLocations" and xs: "set xs \<subseteq> set objectTypeLocations"
    by simp_all
  from Cons.prems(2) obtain e1 where 1: "correctSingle a x e = Inr e1"
    and 2: "forEachE (correctSingle a) xs e1 = Inr e'"
    by (auto simp: bindE_eq_Inr)
  show ?case
  proof (cases "splitDots x = splitDots loc")
    case True
    then have "correctSingle a x e = correctSingle a loc e"
      by (rule correctSingle_path)
    moreover from correctSingle_copies [OF assms(2,3,4) Cons.prems(3) assms(5)]
    obtain e2 where "correctSingle a loc e = Inr e2"
      and "selectn loc e2 = JObj (AList.update ''objectType'' t fe)"
      by blast
    ultimately have "selectn loc e1 = JObj (AList.update ''objectType'' t fe)"
      using 1 by simp
    then have "?D e1" by (rule discAt_copied)
    with 2 have "?D e'"
    proof (rule forEachE_invariant)
      fix y v v'
      assume "y \<in> set xs" and "correctSingle a y v = Inr v'" and "?D v"
      with xs assms(1,4) show "?D v'"
        by (intro correctSingle_discAt [of a y v v' loc]) auto
    qed
    with True show ?thesis by simp
  next
    case False
    from 1 assms(1) x False have "selectn loc e1 = selectn loc e"
      by (rule correctSingle_apart)
    with Cons.prems(3) have "selectn loc e1 = JObj fe" by simp
    from Cons.IH [OF xs 2 this] False show ?thesis
      by simp
  qed
qed

lemma correctObjectTypes_single_copies:
  assumes "correctObjectTypes a e = Inr e'" and "loc \<in> set objectTypeLocations"
    and "\<not> nullish (selectn loc a)"
    and "readProp (selectn loc a) ''objectType'' = t" and "t \<noteq> JUndefined"
    and "selectn loc e = JObj fe" and "lookup fe ''objectType'' = JUndefined"
  shows "discAt (splitDots loc) (map fst (AList.update ''objectType'' t fe)) t e'"
proof -
  let ?D = "discAt (splitDots loc) (map fst (AList.update ''objectType'' t fe)) t"
  from assms(1) obtain e1 where
    1: "forEachE (correctSingle a) objectTypeLocations e = Inr e1"
    and 2: "forEachE (correctMultiple a) objectTypeLocationsMultiple e1 = Inr e'"
    by (auto simp: correctObjectTypes_def bindE_eq_Inr)
  from forEachE_single_copies [OF assms(2,3,4,5,7) subset_refl 1 assms(6)] assms(2)
  have "?D e1" by simp
  with 2 show ?thesis
    by (rule forEachE_invariant) (rule correctMultiple_discAt [OF _ assms(2)])
qed

subsection \<open>The two trees of line 173 at a location\<close>

lemma normalize_discAt:
  assumes "normalize h a e cfg ctx = Inr (a', e')" and "loc \<in> set objectTypeLocations"
    and "discAt (splitDots loc) ks t e" and "t \<noteq> JUndefined"
  shows "discAt (splitDots loc) ks t e'"
proof -
  from assms(1) obtain a1 e1 e2 where 1: "adjustStatement a e cfg ctx = Inr (a1, e1)"
    and 2: "correctBoth a1 e1 = Inr e2" and 3: "checkTimestamp h a1 e2 = Inr (a', e')"
    by (rule normalize_Inr)
  from assms(2) obtain p ps where sp: "splitDots loc = p # ps"
    and p: "p \<in> {''actor'', ''object'', ''context''}"
    by (rule location_head)
  from 1 have r: "isRef e" and r1: "isRef e1"
    by (rule adjustStatement_expected)+
  from 1 p have "readProp e1 p = readProp e p"
    by (intro adjustStatement_expected(5)) auto
  with r r1 assms(3) sp have "discAt (splitDots loc) ks t e1"
    by (simp add: discAt_Cons selectStep_isRef)
  with 2 assms(2) have d2: "discAt (splitDots loc) ks t e2"
    using assms(4) by (rule correctBoth_discAt)
  from correctBoth_sameTop [OF 2] r1 have r2: "isRef e2"
    by (simp add: sameTop_isRef)
  with checkTimestamp_props(3) [OF 3] have r': "isRef e'" by simp
  from 3 p have "readProp e' p = readProp e2 p"
    by (intro checkTimestamp_readProp) auto
  with r2 r' d2 sp show ?thesis
    by (simp add: discAt_Cons selectStep_isRef)
qed

lemma normalize_actual_selectn:
  assumes "normalize h a e cfg ctx = Inr (a', e')" and "loc \<in> set objectTypeLocations"
  shows "selectn loc a' = selectn loc a"
proof -
  from assms(1) obtain a1 e1 e2 where 1: "adjustStatement a e cfg ctx = Inr (a1, e1)"
    and 3: "checkTimestamp h a1 e2 = Inr (a', e')"
    by (rule normalize_Inr)
  from assms(2) obtain p ps where sp: "splitDots loc = p # ps"
    and p: "p \<in> {''actor'', ''object'', ''context''}"
    by (rule location_head)
  from 1 have n: "\<not> nullish a" by (rule adjustStatement_expected(3))
  from 3 have "\<exists>x. del_prop a1 ''timestamp'' = Inr a'"
    unfolding checkTimestamp_def by (auto simp: bindE_eq_Inr split: if_splits)
  then have n': "\<not> nullish a'" by (auto dest: del_prop_Inr)
  from p have "map_of (props a') p = map_of (props a) p"
    by (auto simp: normalize_actual_keys [OF assms(1)])
  with n n' have "selectStep a' p = selectStep a p"
    by (simp add: selectStep_def readProp_def lookup_def)
  with n n' sp show ?thesis
    by (simp add: selectn_def)
qed

lemma deepEqual_selectStep:
  assumes "deepEqual h a b" and "map_of (props a) p = Some ca"
  shows "deepEqual h ca (selectStep b p)"
proof -
  from assms(2) have "isRef a" by (cases a) auto
  with assms(1) have "deepEqualProps h (props a) (props b)"
    by (cases a; cases b) auto
  from deepEqualProps_map_of [OF this assms(2)] show ?thesis
    by (auto simp: selectStep_map_of)
qed

lemma deepEqual_selectParts:
  assumes "deepEqual h a b" and "isRef (selectParts ps a)"
  shows "deepEqual h (selectParts ps a) (selectParts ps b)"
  using assms
proof (induction ps arbitrary: a b)
  case Nil
  then show ?case by simp
next
  case (Cons p ps)
  from Cons.prems(2) have m: "map_of (props a) p = Some (selectStep a p)"
    by (rule isRef_selectParts_Cons)
  with Cons.prems(1) have "deepEqual h (selectStep a p) (selectStep b p)"
    by (rule deepEqual_selectStep)
  with Cons.IH [of "selectStep a p" "selectStep b p"] Cons.prems(2) show ?case
    by simp
qed

text \<open>A discriminator that only the expected tree has, at a single-valued location.\<close>

lemma expected_only_discriminator:
  assumes "isRef cfg" and "loc \<in> set objectTypeLocations"
    and "selectn loc a = JObj fa" and "selectn loc e = JObj fe"
    and "map_of fa ''objectType'' = None" and "lookup fe ''objectType'' \<noteq> JUndefined"
    and "distinct (map fst fa)" and "distinct (map fst fe)"
  shows "isl (fst (assertStatementMatch h a e cfg ctx))"
proof (cases "normalize h a e cfg ctx")
  case (Inl err)
  then show ?thesis by (simp add: match_outcome [OF assms(1)])
next
  case (Inr p)
  obtain a' e' where "p = (a', e')" by (cases p)
  with Inr have n: "normalize h a e cfg ctx = Inr (a', e')" by simp
  from assms(4) have "selectParts (splitDots loc) e = JObj fe"
    by (rule selectn_JObj)
  then have "discAt (splitDots loc) (map fst fe) (lookup fe ''objectType'') e"
    by (simp add: discAt_def)
  with n assms(2) have "discAt (splitDots loc) (map fst fe) (lookup fe ''objectType'') e'"
    using assms(6) by (rule normalize_discAt)
  then obtain fe' where fe': "selectParts (splitDots loc) e' = JObj fe'"
    and k: "map fst fe' = map fst fe" and l: "lookup fe' ''objectType'' = lookup fe ''objectType''"
    by (auto simp: discAt_def split: jv.splits)
  from n assms(2) have "selectn loc a' = selectn loc a"
    by (rule normalize_actual_selectn)
  with assms(3) have "selectn loc a' = JObj fa"
    by simp
  then have fa: "selectParts (splitDots loc) a' = JObj fa"
    by (rule selectn_JObj)
  have "\<not> deepEqual h (JObj fa) (JObj fe')"
  proof (rule not_deepEqual_extra_key)
    show "isRef (JObj fe')" by simp
    show "distinctKeys (JObj fa)" using assms(7) by (simp add: distinctKeys_def)
    show "distinctKeys (JObj fe')" using assms(8) k by (simp add: distinctKeys_def)
    show "map_of (props (JObj fa)) ''objectType'' = None" using assms(5) by simp
    from l assms(6) show "map_of (props (JObj fe')) ''objectType'' \<noteq> None"
      by (cases "map_of fe' ''objectType''") (auto simp: lookup_def)
  qed
  moreover have "deepEqual h a' e' \<Longrightarrow> deepEqual h (JObj fa) (JObj fe')"
    using deepEqual_selectParts [of h a' e' "splitDots loc"] fa fe' by simp
  ultimately have "\<not> deepEqual h a' e'" by blast
  with n show ?thesis by (simp add: match_outcome [OF assms(1)])
qed

subsection \<open>The collection rule in the whole reconciler\<close>

text \<open>Line 69 on an object above the path read: its other properties stay.\<close>

lemma selectParts_updateAt_above:
  assumes "updateAt qs (\<lambda>s. set_prop s ''objectType'' t) v = Inr v'"
    and "strict_prefix qs ps" and "''objectType'' \<notin> set ps"
  shows "selectParts ps v' = selectParts ps v"
  using assms
proof (induction qs arbitrary: ps v v')
  case Nil
  then obtain r rest where ps: "ps = r # rest"
    by (cases ps) simp_all
  from Nil.prems(1) have s: "set_prop v ''objectType'' t = Inr v'" by simp
  then have "isRef v" and "isRef v'" by (simp_all add: set_prop_Inr)
  moreover from s Nil.prems(3) ps have "readProp v' r = readProp v r"
    by (auto simp: readProp_set_prop)
  ultimately show ?case
    using ps by (simp add: selectStep_isRef)
next
  case (Cons q qs)
  from Cons.prems(2) obtain ps' where ps: "ps = q # ps'" and sp: "strict_prefix qs ps'"
    by (cases ps) (auto simp: strict_prefix_def)
  from Cons.prems(3) ps have no: "''objectType'' \<notin> set ps'" by simp
  from Cons.prems(1) show ?case
  proof (cases rule: updateAt_Cons_cases)
    case 1
    then show ?thesis by simp
  next
    case (2 c')
    from Cons.IH [OF 2(1) sp no] 2(2) ps show ?thesis
      by simp
  qed
qed

lemma multiple_paths_list:
  "map splitDots objectTypeLocationsMultiple =
     [[''actor'', ''member''], [''context'', ''instructor'', ''member''],
      [''context'', ''team'', ''member''], [''context'', ''contextActivities'', ''category''],
      [''context'', ''contextActivities'', ''parent''],
      [''context'', ''contextActivities'', ''grouping''],
      [''context'', ''contextActivities'', ''other'']]"
  by (simp add: objectTypeLocationsMultiple_def)

lemma single_paths_list:
  "map splitDots objectTypeLocations =
     [[''actor''], [''object''], [''context'', ''instructor''],
      [''context'', ''team''], [''context'', ''statement'']]"
  by (simp add: objectTypeLocations_def)

lemma multiple_apart_all:
  "\<forall>p \<in> set (map splitDots objectTypeLocationsMultiple).
     \<forall>q \<in> set (map splitDots objectTypeLocationsMultiple).
       q = p \<or> \<not> prefix q p \<and> \<not> prefix p q"
  unfolding multiple_paths_list by simp

lemma single_multiple_all:
  "\<forall>p \<in> set (map splitDots objectTypeLocationsMultiple).
     \<forall>q \<in> set (map splitDots objectTypeLocations).
       strict_prefix q p \<or> \<not> prefix q p \<and> \<not> prefix p q"
  unfolding multiple_paths_list single_paths_list by (simp add: strict_prefix_def)

lemma multiple_locations_apart:
  assumes "loc \<in> set objectTypeLocationsMultiple"
  shows "x \<in> set objectTypeLocations \<Longrightarrow>
      strict_prefix (splitDots x) (splitDots loc)
      \<or> \<not> prefix (splitDots x) (splitDots loc) \<and> \<not> prefix (splitDots loc) (splitDots x)"
    and "x \<in> set objectTypeLocationsMultiple \<Longrightarrow> splitDots x \<noteq> splitDots loc \<Longrightarrow>
      \<not> prefix (splitDots x) (splitDots loc) \<and> \<not> prefix (splitDots loc) (splitDots x)"
    and "''objectType'' \<notin> set (splitDots loc)"
proof -
  from assms have l: "splitDots loc \<in> set (map splitDots objectTypeLocationsMultiple)"
    by simp
  show "strict_prefix (splitDots x) (splitDots loc)
      \<or> \<not> prefix (splitDots x) (splitDots loc) \<and> \<not> prefix (splitDots loc) (splitDots x)"
    if "x \<in> set objectTypeLocations"
  proof -
    from that have "splitDots x \<in> set (map splitDots objectTypeLocations)"
      by simp
    with single_multiple_all l show ?thesis by blast
  qed
  show "\<not> prefix (splitDots x) (splitDots loc) \<and> \<not> prefix (splitDots loc) (splitDots x)"
    if "x \<in> set objectTypeLocationsMultiple" and "splitDots x \<noteq> splitDots loc"
  proof -
    from that(1) have "splitDots x \<in> set (map splitDots objectTypeLocationsMultiple)"
      by simp
    with multiple_apart_all l that(2) show ?thesis by blast
  qed
  have "\<forall>p \<in> set (map splitDots objectTypeLocationsMultiple). ''objectType'' \<notin> set p"
    unfolding multiple_paths_list by simp
  with l show "''objectType'' \<notin> set (splitDots loc)" by blast
qed

lemma correctSingle_keeps_collection:
  assumes "correctSingle a x e = Inr e'" and "loc \<in> set objectTypeLocationsMultiple"
    and "x \<in> set objectTypeLocations"
  shows "selectn loc e' = selectn loc e"
  using assms(1)
proof (cases rule: correctSingle_cases)
  case 1
  then show ?thesis by simp
next
  case (2 t)
  from multiple_locations_apart(1) [OF assms(2,3)]
  consider "strict_prefix (splitDots x) (splitDots loc)"
    | "\<not> prefix (splitDots x) (splitDots loc)" "\<not> prefix (splitDots loc) (splitDots x)"
    by blast
  then show ?thesis
  proof cases
    case 1
    from selectParts_updateAt_above [OF 2(3) 1 multiple_locations_apart(3) [OF assms(2)]]
      updateAt_splitDots_nullish [OF 2(3)]
    show ?thesis by (simp add: selectn_def)
  next
    case 2
    from this \<open>updateAt (splitDots x) (\<lambda>sub. set_prop sub ''objectType'' t) e = Inr e'\<close>
    show ?thesis by (rule selectn_updateAt_apart)
  qed
qed

lemma correctMultiple_apart:
  assumes "correctMultiple a x e = Inr e'" and "loc \<in> set objectTypeLocationsMultiple"
    and "x \<in> set objectTypeLocationsMultiple" and "splitDots x \<noteq> splitDots loc"
  shows "selectn loc e' = selectn loc e"
proof (rule correctMultiple_invariant [OF assms(1), where P = "\<lambda>v. selectn loc v = selectn loc e"])
  show "selectn loc e = selectn loc e" by simp
next
  fix t j v v'
  assume u: "updateAt (splitDots x)
         (\<lambda>sub. updateIndex sub j (\<lambda>el. set_prop el ''objectType'' t)) v = Inr v'"
    and s: "selectn loc v = selectn loc e"
  from multiple_locations_apart(2) [OF assms(2,3,4)]
  have "\<not> prefix (splitDots x) (splitDots loc)" and "\<not> prefix (splitDots loc) (splitDots x)"
    by simp_all
  from this u have "selectn loc v' = selectn loc v" by (rule selectn_updateAt_apart)
  with s show "selectn loc v' = selectn loc e" by simp
qed

lemma correctElems_path:
  assumes "splitDots x = splitDots loc"
  shows "correctElems x vs i e = correctElems loc vs i e"
proof (induction vs arbitrary: i e)
  case Nil
  show ?case by simp
next
  case (Cons v vs)
  show ?case
    by (simp add: bindE_def Cons.IH selectn_path [OF assms] assms split: sum.splits)
qed

lemma correctMultiple_path:
  assumes "splitDots x = splitDots loc"
  shows "correctMultiple a x e = correctMultiple a loc e"
  unfolding correctMultiple_def selectn_path [OF assms] correctElems_path [OF assms] ..

lemma forEachE_multiple_copies:
  assumes "loc \<in> set objectTypeLocationsMultiple" and "selectn loc a = JArr ea pa"
    and "set xs \<subseteq> set objectTypeLocationsMultiple" and "distinct (map splitDots xs)"
    and "forEachE (correctMultiple a) xs e = Inr e'" and "selectn loc e = JArr ee pe"
  shows "if splitDots loc \<in> splitDots ` set xs
         then \<exists>ee'. selectn loc e' = JArr ee' pe \<and> length ee' = length ee
            \<and> (\<forall>i < length ee. ee' ! i =
                 (if i < length ea then reconciled (ea ! i) (ee ! i) else ee ! i))
         else selectn loc e' = JArr ee pe"
  using assms(3-6)
proof (induction xs arbitrary: e)
  case Nil
  have n: "splitDots loc \<notin> splitDots ` set []" by simp
  from Nil.prems(3,4) have "selectn loc e' = JArr ee pe" by simp
  then show ?case
    unfolding if_not_P [OF n] .
next
  case (Cons x xs)
  from Cons.prems(1) have x: "x \<in> set objectTypeLocationsMultiple"
    and xs: "set xs \<subseteq> set objectTypeLocationsMultiple"
    by simp_all
  from Cons.prems(2) have d: "distinct (map splitDots xs)" and nx: "splitDots x \<notin> splitDots ` set xs"
    by simp_all
  from Cons.prems(3) obtain e1 where 1: "correctMultiple a x e = Inr e1"
    and 2: "forEachE (correctMultiple a) xs e1 = Inr e'"
    by (auto simp: bindE_eq_Inr)
  show ?case
  proof (cases "splitDots x = splitDots loc")
    case True
    from 1 have "correctMultiple a loc e = Inr e1"
      unfolding correctMultiple_path [OF True] .
    from correctMultiple_JArr [OF this assms(2) Cons.prems(4)] obtain ee' where
      s1: "selectn loc e1 = JArr ee' pe" and l: "length ee' = length ee"
      and r: "\<forall>i < length ee. ee' ! i =
                 (if i < length ea then reconciled (ea ! i) (ee ! i) else ee ! i)"
      by blast
    from True nx have nl: "splitDots loc \<notin> splitDots ` set xs" by simp
    from 2 have "selectn loc e' = selectn loc e1"
    proof (rule forEachE_invariant [where P = "\<lambda>v. selectn loc v = selectn loc e1"])
      show "selectn loc e1 = selectn loc e1" by simp
    next
      fix y v v'
      assume y: "y \<in> set xs" and c: "correctMultiple a y v = Inr v'"
        and s: "selectn loc v = selectn loc e1"
      from y nl have "splitDots y \<noteq> splitDots loc" by (metis imageI)
      with c assms(1) y xs have "selectn loc v' = selectn loc v"
        by (intro correctMultiple_apart [of a y v v' loc]) auto
      with s show "selectn loc v' = selectn loc e1" by simp
    qed
    with s1 have "selectn loc e' = JArr ee' pe" by simp
    with l r have ex: "\<exists>ee'. selectn loc e' = JArr ee' pe \<and> length ee' = length ee
            \<and> (\<forall>i < length ee. ee' ! i =
                 (if i < length ea then reconciled (ea ! i) (ee ! i) else ee ! i))"
      by blast
    have m: "splitDots loc \<in> splitDots ` set (x # xs)"
      by (simp add: True [symmetric])
    from ex show ?thesis
      unfolding if_P [OF m] .
  next
    case False
    from 1 assms(1) x False have "selectn loc e1 = selectn loc e"
      by (rule correctMultiple_apart)
    with Cons.prems(4) have "selectn loc e1 = JArr ee pe" by simp
    note ih = Cons.IH [OF xs d 2 this]
    from False have eq: "(splitDots loc \<in> splitDots ` set (x # xs))
        = (splitDots loc \<in> splitDots ` set xs)"
      by auto
    from ih show ?thesis
      unfolding eq .
  qed
qed

lemma distinct_multiple_paths: "distinct (map splitDots objectTypeLocationsMultiple)"
  unfolding multiple_paths_list by simp

lemma correctObjectTypes_multiple_copies:
  assumes "correctObjectTypes a e = Inr e'" and "loc \<in> set objectTypeLocationsMultiple"
    and "selectn loc a = JArr ea pa" and "selectn loc e = JArr ee pe"
  shows "\<exists>ee'. selectn loc e' = JArr ee' pe \<and> length ee' = length ee
            \<and> (\<forall>i < length ee. ee' ! i =
                 (if i < length ea then reconciled (ea ! i) (ee ! i) else ee ! i))"
proof -
  from assms(1) obtain e1 where
    1: "forEachE (correctSingle a) objectTypeLocations e = Inr e1"
    and 2: "forEachE (correctMultiple a) objectTypeLocationsMultiple e1 = Inr e'"
    by (auto simp: correctObjectTypes_def bindE_eq_Inr)
  from 1 have "selectn loc e1 = selectn loc e"
  proof (rule forEachE_invariant [where P = "\<lambda>v. selectn loc v = selectn loc e"])
    show "selectn loc e = selectn loc e" by simp
  next
    fix x v v'
    assume "x \<in> set objectTypeLocations" and "correctSingle a x v = Inr v'"
      and s: "selectn loc v = selectn loc e"
    then have "selectn loc v' = selectn loc v"
      by (intro correctSingle_keeps_collection [OF _ assms(2)])
    with s show "selectn loc v' = selectn loc e" by simp
  qed
  with assms(4) have s1: "selectn loc e1 = JArr ee pe" by simp
  from assms(2) have "splitDots loc \<in> splitDots ` set objectTypeLocationsMultiple"
    by simp
  then have m: "splitDots loc \<in> splitDots ` set objectTypeLocationsMultiple" .
  from forEachE_multiple_copies [OF assms(2,3) subset_refl distinct_multiple_paths 2 s1]
  show ?thesis
    unfolding if_P [OF m] .
qed

subsection \<open>A member of a collection at line 173\<close>

lemma multiple_location_head:
  assumes "loc \<in> set objectTypeLocationsMultiple"
  obtains p ps where "splitDots loc = p # ps" and "p \<in> {''actor'', ''context''}"
  using multiple_paths [OF assms] by auto

lemma selectn_same_head:
  assumes "splitDots loc = p # ps" and "\<not> nullish v" and "\<not> nullish v'"
    and "map_of (props v') p = map_of (props v) p"
  shows "selectn loc v' = selectn loc v"
  using assms by (simp add: selectn_def selectStep_def readProp_def lookup_def)

lemma normalize_actual_collection:
  assumes "normalize h a e cfg ctx = Inr (a', e')" and "loc \<in> set objectTypeLocationsMultiple"
  shows "selectn loc a' = selectn loc a"
proof -
  from assms(1) obtain a1 e1 e2 where 1: "adjustStatement a e cfg ctx = Inr (a1, e1)"
    and 3: "checkTimestamp h a1 e2 = Inr (a', e')"
    by (rule normalize_Inr)
  from assms(2) obtain p ps where sp: "splitDots loc = p # ps"
    and p: "p \<in> {''actor'', ''context''}"
    by (rule multiple_location_head)
  from 1 have n: "\<not> nullish a" by (rule adjustStatement_expected(3))
  from 3 have "\<exists>x. del_prop a1 ''timestamp'' = Inr a'"
    unfolding checkTimestamp_def by (auto simp: bindE_eq_Inr split: if_splits)
  then have n': "\<not> nullish a'" by (auto dest: del_prop_Inr)
  from p have "map_of (props a') p = map_of (props a) p"
    by (auto simp: normalize_actual_keys [OF assms(1)])
  with sp n n' show ?thesis
    by (rule selectn_same_head)
qed

lemma adjustStatement_collection:
  assumes "adjustStatement a e cfg ctx = Inr (a1, e1)" and "loc \<in> set objectTypeLocationsMultiple"
  shows "selectn loc a1 = selectn loc a" and "selectn loc e1 = selectn loc e"
proof -
  from assms(2) obtain p ps where sp: "splitDots loc = p # ps"
    and p: "p \<in> {''actor'', ''context''}"
    by (rule multiple_location_head)
  from assms(1) have n: "\<not> nullish a" and n1: "\<not> nullish a1"
    by (rule adjustStatement_expected)+
  from p have "map_of (props a1) p = map_of (props a) p"
    by (auto simp: adjustStatement_props(1) [OF assms(1)])
  with sp n n1 show "selectn loc a1 = selectn loc a"
    by (rule selectn_same_head)
  from assms(1) have r: "isRef e" and r1: "isRef e1"
    by (rule adjustStatement_expected)+
  from assms(1) p have "readProp e1 p = readProp e p"
    by (intro adjustStatement_expected(5)) auto
  with r r1 sp show "selectn loc e1 = selectn loc e"
    by (simp add: selectn_def selectStep_isRef isRef_not_nullish)
qed

lemma correctBoth_collection:
  assumes "correctBoth a e = Inr e'" and "loc \<in> set objectTypeLocationsMultiple"
    and "selectn loc a = JArr ea pa" and "selectn loc e = JArr ee pe"
  shows "\<exists>ee'. selectn loc e' = JArr ee' pe \<and> length ee' = length ee
            \<and> (\<forall>i < length ee. ee' ! i =
                 (if i < length ea then reconciled (ea ! i) (ee ! i) else ee ! i))"
  using assms(1)
proof (cases rule: correctBoth_cases)
  case once
  from once(2) assms(2-4) show ?thesis by (rule correctObjectTypes_multiple_copies)
next
  case (twice e1)
  from twice(2) assms(2-4) obtain ee' where s: "selectn loc e1 = JArr ee' pe"
    and l: "length ee' = length ee"
    and r: "\<forall>i < length ee. ee' ! i =
                 (if i < length ea then reconciled (ea ! i) (ee ! i) else ee ! i)"
    using correctObjectTypes_multiple_copies by blast
  from assms(2) obtain p ps where sp: "splitDots loc = p # ps"
    and p: "p \<in> {''actor'', ''context''}"
    by (rule multiple_location_head)
  from s have n1: "\<not> nullish e1"
    by (auto simp: selectn_def split: if_splits)
  from assms(1) have "sameTop e e'" by (rule correctBoth_sameTop)
  moreover from twice(2) have "sameTop e e1" by (rule correctObjectTypes_sameTop)
  ultimately have n': "\<not> nullish e'" using n1 by (simp add: sameTop_def)
  from p twice(4) have "map_of (props e') p = map_of (props e1) p" by auto
  with sp n1 n' have "selectn loc e' = selectn loc e1"
    by (rule selectn_same_head)
  with s l r show ?thesis by auto
qed

lemma checkTimestamp_collection:
  assumes "checkTimestamp h a e = Inr (a', e')" and "loc \<in> set objectTypeLocationsMultiple"
    and "isRef e"
  shows "selectn loc e' = selectn loc e"
proof -
  from assms(2) obtain p ps where sp: "splitDots loc = p # ps"
    and p: "p \<in> {''actor'', ''context''}"
    by (rule multiple_location_head)
  from checkTimestamp_props(3) [OF assms(1)] assms(3) have r': "isRef e'" by simp
  from assms(1) p have "readProp e' p = readProp e p"
    by (intro checkTimestamp_readProp) auto
  with assms(3) r' sp show ?thesis
    by (simp add: selectn_def selectStep_isRef isRef_not_nullish)
qed

lemma normalize_collection:
  assumes "normalize h a e cfg ctx = Inr (a', e')" and "loc \<in> set objectTypeLocationsMultiple"
    and "selectn loc a = JArr ea pa" and "selectn loc e = JArr ee pe"
  shows "\<exists>ee'. selectn loc e' = JArr ee' pe \<and> length ee' = length ee
            \<and> (\<forall>i < length ee. ee' ! i =
                 (if i < length ea then reconciled (ea ! i) (ee ! i) else ee ! i))"
proof -
  from assms(1) obtain a1 e1 e2 where 1: "adjustStatement a e cfg ctx = Inr (a1, e1)"
    and 2: "correctBoth a1 e1 = Inr e2" and 3: "checkTimestamp h a1 e2 = Inr (a', e')"
    by (rule normalize_Inr)
  from adjustStatement_collection [OF 1 assms(2)] assms(3,4)
  have "selectn loc a1 = JArr ea pa" and "selectn loc e1 = JArr ee pe"
    by simp_all
  with 2 assms(2) have "\<exists>ee'. selectn loc e2 = JArr ee' pe \<and> length ee' = length ee
            \<and> (\<forall>i < length ee. ee' ! i =
                 (if i < length ea then reconciled (ea ! i) (ee ! i) else ee ! i))"
    by (rule correctBoth_collection)
  moreover from 1 have "isRef e1" by (rule adjustStatement_expected)
  with correctBoth_sameTop [OF 2] have "isRef e2"
    by (simp add: sameTop_isRef)
  with 3 assms(2) have "selectn loc e' = selectn loc e2"
    by (rule checkTimestamp_collection)
  ultimately show ?thesis by simp
qed

lemma deepEqualElems_nth:
  "deepEqualElems h as bs \<Longrightarrow> i < length as \<Longrightarrow> i < length bs \<Longrightarrow>
     deepEqual h (as ! i) (bs ! i)"
proof (induction as arbitrary: bs i)
  case Nil
  then show ?case by simp
next
  case (Cons x as)
  then show ?case
    by (cases bs; cases i) auto
qed

lemma selectn_JArr:
  "selectn loc v = JArr es ps \<Longrightarrow> selectParts (splitDots loc) v = JArr es ps"
  by (auto simp: selectn_def split: if_splits)

text \<open>A discriminator that only the expected tree has, in a member of a collection.\<close>

lemma expected_only_discriminator_member:
  assumes "isRef cfg" and "loc \<in> set objectTypeLocationsMultiple"
    and "selectn loc a = JArr ea pa" and "selectn loc e = JArr ee pe"
    and "i < length ea" and "i < length ee"
    and "ea ! i = JObj fa" and "ee ! i = JObj fe"
    and "map_of fa ''objectType'' = None" and "lookup fe ''objectType'' \<noteq> JUndefined"
    and "distinct (map fst fa)" and "distinct (map fst fe)"
  shows "isl (fst (assertStatementMatch h a e cfg ctx))"
proof (cases "normalize h a e cfg ctx")
  case (Inl err)
  then show ?thesis by (simp add: match_outcome [OF assms(1)])
next
  case (Inr p)
  obtain a' e' where "p = (a', e')" by (cases p)
  with Inr have n: "normalize h a e cfg ctx = Inr (a', e')" by simp
  from n assms(2,3,4) obtain ee' where s: "selectn loc e' = JArr ee' pe"
    and l: "length ee' = length ee"
    and r: "\<forall>i < length ee. ee' ! i =
                 (if i < length ea then reconciled (ea ! i) (ee ! i) else ee ! i)"
    using normalize_collection by blast
  from r assms(5-8) have "ee' ! i = reconciled (JObj fa) (JObj fe)"
    by simp
  with assms(10) have el: "ee' ! i = JObj fe"
    by (simp add: reconciled_def readProp_def)
  from n assms(2) have "selectn loc a' = selectn loc a"
    by (rule normalize_actual_collection)
  with assms(3) have "selectn loc a' = JArr ea pa" by simp
  then have sa: "selectParts (splitDots loc) a' = JArr ea pa"
    by (rule selectn_JArr)
  from s have se: "selectParts (splitDots loc) e' = JArr ee' pe"
    by (rule selectn_JArr)
  have nd: "\<not> deepEqual h (JObj fa) (JObj fe)"
  proof (rule not_deepEqual_extra_key)
    show "isRef (JObj fe)" by simp
    show "distinctKeys (JObj fa)" using assms(11) by (simp add: distinctKeys_def)
    show "distinctKeys (JObj fe)" using assms(12) by (simp add: distinctKeys_def)
    show "map_of (props (JObj fa)) ''objectType'' = None" using assms(9) by simp
    from assms(10) show "map_of (props (JObj fe)) ''objectType'' \<noteq> None"
      by (cases "map_of fe ''objectType''") (auto simp: lookup_def)
  qed
  have "\<not> deepEqual h a' e'"
  proof
    assume "deepEqual h a' e'"
    with deepEqual_selectParts [of h a' e' "splitDots loc"] sa se
    have "deepEqual h (JArr ea pa) (JArr ee' pe)" by simp
    then have "deepEqualElems h ea ee'" by simp
    from deepEqualElems_nth [OF this assms(5)] assms(6) l
    have "deepEqual h (ea ! i) (ee' ! i)" by simp
    with assms(7) el nd show False by simp
  qed
  with n show ?thesis by (simp add: match_outcome [OF assms(1)])
qed

subsection \<open>What a sub-record keeps\<close>

lemma frame_single_all:
  "\<forall>p \<in> set (map splitDots objectTypeLocations).
     \<forall>q \<in> set (map splitDots objectTypeLocations).
       q = p \<or> \<not> prefix q (p @ [k]) \<and> \<not> prefix (p @ [k]) q"
  unfolding single_paths_list by simp

lemma frame_multiple_all:
  "k \<noteq> ''member'' \<Longrightarrow>
   \<forall>p \<in> set (map splitDots objectTypeLocations).
     \<forall>q \<in> set (map splitDots objectTypeLocationsMultiple).
       \<not> prefix q (p @ [k]) \<and> \<not> prefix (p @ [k]) q"
  unfolding single_paths_list multiple_paths_list by auto

lemma single_no_discriminator:
  "\<forall>p \<in> set (map splitDots objectTypeLocations). ''objectType'' \<notin> set p"
  unfolding single_paths_list by simp

text \<open>
  The reconciler leaves every property of a single-valued sub-record but its
  \<^verbatim>\<open>objectType\<close> and its \<^verbatim>\<open>member\<close> as it is.
\<close>

lemma correctObjectTypes_frame:
  assumes "correctObjectTypes a e = Inr e'" and "loc \<in> set objectTypeLocations"
    and "k \<noteq> ''objectType''" and "k \<noteq> ''member''"
  shows "selectParts (splitDots loc @ [k]) e' = selectParts (splitDots loc @ [k]) e"
proof (rule correctObjectTypes_invariant [OF assms(1),
      where P = "\<lambda>v. selectParts (splitDots loc @ [k]) v = selectParts (splitDots loc @ [k]) e"])
  show "selectParts (splitDots loc @ [k]) e = selectParts (splitDots loc @ [k]) e" by simp
next
  fix x t v v'
  assume x: "x \<in> set objectTypeLocations"
    and u: "updateAt (splitDots x) (\<lambda>sub. set_prop sub ''objectType'' t) v = Inr v'"
    and s: "selectParts (splitDots loc @ [k]) v = selectParts (splitDots loc @ [k]) e"
  from assms(2) have l: "splitDots loc \<in> set (map splitDots objectTypeLocations)" by simp
  from x have xl: "splitDots x \<in> set (map splitDots objectTypeLocations)" by simp
  have "selectParts (splitDots loc @ [k]) v' = selectParts (splitDots loc @ [k]) v"
  proof (cases "splitDots x = splitDots loc")
    case True
    then have sp: "strict_prefix (splitDots x) (splitDots loc @ [k])"
      by (simp add: strict_prefix_def)
    from single_no_discriminator l assms(3)
    have "''objectType'' \<notin> set (splitDots loc @ [k])" by auto
    with u sp show ?thesis by (rule selectParts_updateAt_above)
  next
    case False
    with frame_single_all [of k] l xl
    have "\<not> prefix (splitDots x) (splitDots loc @ [k])"
      and "\<not> prefix (splitDots loc @ [k]) (splitDots x)"
      by blast+
    from this u show ?thesis by (rule selectParts_updateAt_apart)
  qed
  with s show "selectParts (splitDots loc @ [k]) v' = selectParts (splitDots loc @ [k]) e"
    by simp
next
  fix x t j v v'
  assume x: "x \<in> set objectTypeLocationsMultiple"
    and u: "updateAt (splitDots x)
         (\<lambda>sub. updateIndex sub j (\<lambda>el. set_prop el ''objectType'' t)) v = Inr v'"
    and s: "selectParts (splitDots loc @ [k]) v = selectParts (splitDots loc @ [k]) e"
  from assms(2) have l: "splitDots loc \<in> set (map splitDots objectTypeLocations)" by simp
  from x have xl: "splitDots x \<in> set (map splitDots objectTypeLocationsMultiple)" by simp
  from frame_multiple_all [OF assms(4)] l xl
  have "\<not> prefix (splitDots x) (splitDots loc @ [k])"
    and "\<not> prefix (splitDots loc @ [k]) (splitDots x)"
    by blast+
  from this u have "selectParts (splitDots loc @ [k]) v' = selectParts (splitDots loc @ [k]) v"
    by (rule selectParts_updateAt_apart)
  with s show "selectParts (splitDots loc @ [k]) v' = selectParts (splitDots loc @ [k]) e"
    by simp
qed

lemma selectParts_snoc: "selectParts (ps @ [k]) v = selectStep (selectParts ps v) k"
  by (simp add: selectParts_def)

lemma map_of_same_keys:
  assumes "lookup f' k = lookup f k" and "k \<in> fst ` set f' \<longleftrightarrow> k \<in> fst ` set f"
  shows "map_of f' k = map_of f k"
proof (cases "map_of f k")
  case None
  then have "k \<notin> fst ` set f" by (simp add: map_of_eq_None_iff)
  with assms(2) have "map_of f' k = None" by (simp add: map_of_eq_None_iff)
  with None show ?thesis by simp
next
  case (Some w)
  then have "k \<in> fst ` set f" by (rule map_of_Some_key)
  with assms(2) obtain w' where w': "map_of f' k = Some w'"
    by (cases "map_of f' k") (auto simp: map_of_eq_None_iff)
  with assms(1) Some show ?thesis by (simp add: lookup_def)
qed

lemma correctObjectTypes_keeps:
  assumes "correctObjectTypes a e = Inr e'" and "loc \<in> set objectTypeLocations"
    and "selectn loc e = JObj fe" and "selectn loc e' = JObj fe'"
    and "k \<noteq> ''objectType''" and "k \<noteq> ''member''"
    and "set (map fst fe') - {''objectType''} = set (map fst fe) - {''objectType''}"
  shows "map_of fe' k = map_of fe k"
proof -
  have "selectParts (splitDots loc) e = JObj fe"
    and "selectParts (splitDots loc) e' = JObj fe'"
    using assms(3,4) by (simp_all add: selectn_JObj)
  with correctObjectTypes_frame [OF assms(1,2,5,6)] have "lookup fe' k = lookup fe k"
    by (simp add: selectParts_snoc selectStep_isRef readProp_def)
  moreover from assms(5,7) have "k \<in> fst ` set fe' \<longleftrightarrow> k \<in> fst ` set fe"
    by auto
  ultimately show ?thesis by (rule map_of_same_keys)
qed

lemma correctSingle_noop:
  assumes "\<not> nullish (selectn loc a)"
    and "readProp (selectn loc a) ''objectType'' = JUndefined
       \<or> readProp (selectn loc e) ''objectType'' \<noteq> JUndefined"
  shows "correctSingle a loc e = Inr e"
  using assms
  by (auto simp: correctSingle_def Let_def get_prop_def dest: truthy_not_nullish)

lemma keys_update_minus:
  "set (map fst (AList.update k v al)) - {k} = set (map fst al) - {k}"
  by (auto simp: update_keys)

subsection \<open>The reconciler goes one way\<close>

text \<open>
  C5. After a call of the reconciler that returns: at a single-valued location whose
  actual sub-record has an \<^verbatim>\<open>objectType\<close> and whose expected sub-record is an object without
  one, the expected sub-record has the keys it had and \<^verbatim>\<open>objectType\<close>, with the value of
  the actual sub-record, and every other property but \<^verbatim>\<open>member\<close> as it was; at a
  single-valued location whose expected sub-record has an \<^verbatim>\<open>objectType\<close>, that sub-record
  has the keys it had and every property but \<^verbatim>\<open>member\<close> as it was, \<^verbatim>\<open>objectType\<close> included,
  whatever the actual tree holds. The rule of lines 56--71 returns the expected tree as
  it is when the actual sub-record has no \<^verbatim>\<open>objectType\<close> or the expected one has one. At a
  collection location where both trees hold a sequence (\<^verbatim>\<open>member\<close> is one), each element
  of the expected sequence that has a partner in the actual sequence is \<open>reconciled\<close> with
  it, which adds the partner's \<^verbatim>\<open>objectType\<close> to an object that has none and changes
  nothing when the partner has none or the element has one; the rule of lines 75--98
  returns the expected tree as it is when the expected tree has nothing at the location
  or the actual tree has no sequence there. And \<^verbatim>\<open>assertStatementMatch\<close>
  throws on two trees that hold an object without \<^verbatim>\<open>objectType\<close> in the actual tree and an
  object with one in the expected tree, at a single-valued location or at the same index
  of the sequences of a collection location.
\<close>

theorem discriminator_one_directional:
  "(\<forall>e' loc t fe. correctObjectTypes a e = Inr e' \<and> loc \<in> set objectTypeLocations
        \<and> \<not> nullish (selectn loc a) \<and> readProp (selectn loc a) ''objectType'' = t
        \<and> t \<noteq> JUndefined \<and> selectn loc e = JObj fe \<and> lookup fe ''objectType'' = JUndefined
      \<longrightarrow> (\<exists>fe'. selectn loc e' = JObj fe'
            \<and> map fst fe' = map fst (AList.update ''objectType'' t fe)
            \<and> map_of fe' ''objectType'' = Some t
            \<and> (\<forall>k. k \<noteq> ''objectType'' \<and> k \<noteq> ''member'' \<longrightarrow> map_of fe' k = map_of fe k)))
   \<and> (\<forall>e' loc fe. correctObjectTypes a e = Inr e' \<and> loc \<in> set objectTypeLocations
        \<and> selectn loc e = JObj fe \<and> lookup fe ''objectType'' \<noteq> JUndefined
      \<longrightarrow> (\<exists>fe'. selectn loc e' = JObj fe' \<and> map fst fe' = map fst fe
            \<and> (\<forall>k. k \<noteq> ''member'' \<longrightarrow> map_of fe' k = map_of fe k)))
   \<and> (\<forall>loc. \<not> nullish (selectn loc a)
        \<and> (readProp (selectn loc a) ''objectType'' = JUndefined
            \<or> readProp (selectn loc e) ''objectType'' \<noteq> JUndefined)
      \<longrightarrow> correctSingle a loc e = Inr e)
   \<and> (\<forall>e' loc ea pa ee pe. correctObjectTypes a e = Inr e'
        \<and> loc \<in> set objectTypeLocationsMultiple
        \<and> selectn loc a = JArr ea pa \<and> selectn loc e = JArr ee pe
      \<longrightarrow> (\<exists>ee'. selectn loc e' = JArr ee' pe \<and> length ee' = length ee
            \<and> (\<forall>i < length ee. ee' ! i =
                 (if i < length ea then reconciled (ea ! i) (ee ! i) else ee ! i))))
   \<and> (\<forall>fv fe t. lookup fv ''objectType'' = t \<and> t \<noteq> JUndefined
        \<and> lookup fe ''objectType'' = JUndefined
      \<longrightarrow> reconciled (JObj fv) (JObj fe) = JObj (AList.update ''objectType'' t fe))
   \<and> (\<forall>v el. readProp v ''objectType'' = JUndefined \<or> readProp el ''objectType'' \<noteq> JUndefined
      \<longrightarrow> reconciled v el = el)
   \<and> (\<forall>loc fa fe. isRef cfg \<and> loc \<in> set objectTypeLocations
        \<and> selectn loc a = JObj fa \<and> selectn loc e = JObj fe
        \<and> map_of fa ''objectType'' = None \<and> lookup fe ''objectType'' \<noteq> JUndefined
        \<and> distinct (map fst fa) \<and> distinct (map fst fe)
      \<longrightarrow> isl (fst (assertStatementMatch h a e cfg ctx)))
   \<and> (\<forall>loc ea pa ee pe i fa fe. isRef cfg \<and> loc \<in> set objectTypeLocationsMultiple
        \<and> selectn loc a = JArr ea pa \<and> selectn loc e = JArr ee pe
        \<and> i < length ea \<and> i < length ee \<and> ea ! i = JObj fa \<and> ee ! i = JObj fe
        \<and> map_of fa ''objectType'' = None \<and> lookup fe ''objectType'' \<noteq> JUndefined
        \<and> distinct (map fst fa) \<and> distinct (map fst fe)
      \<longrightarrow> isl (fst (assertStatementMatch h a e cfg ctx)))
   \<and> (\<forall>loc. \<not> truthy (selectn loc e) \<or> \<not> isArray (selectn loc a)
      \<longrightarrow> correctMultiple a loc e = Inr e)"
proof (intro conjI allI impI)
  fix e' loc t fe
  assume *: "correctObjectTypes a e = Inr e' \<and> loc \<in> set objectTypeLocations
        \<and> \<not> nullish (selectn loc a) \<and> readProp (selectn loc a) ''objectType'' = t
        \<and> t \<noteq> JUndefined \<and> selectn loc e = JObj fe \<and> lookup fe ''objectType'' = JUndefined"
  then have "discAt (splitDots loc) (map fst (AList.update ''objectType'' t fe)) t e'"
    by (intro correctObjectTypes_single_copies [of a e e' loc t fe]) simp_all
  then obtain fe' where s: "selectn loc e' = JObj fe'"
    and k: "map fst fe' = map fst (AList.update ''objectType'' t fe)"
    and l: "lookup fe' ''objectType'' = t"
    using discAt_selectn by blast
  from l * have m: "map_of fe' ''objectType'' = Some t"
    by (cases "map_of fe' ''objectType''") (auto simp: lookup_def)
  from k have ks: "set (map fst fe') - {''objectType''} = set (map fst fe) - {''objectType''}"
    by (simp only: keys_update_minus)
  have "map_of fe' k = map_of fe k" if "k \<noteq> ''objectType'' \<and> k \<noteq> ''member''" for k
    using * s that ks by (intro correctObjectTypes_keeps [of a e e' loc fe fe' k]) simp_all
  with s k m show "\<exists>fe'. selectn loc e' = JObj fe'
            \<and> map fst fe' = map fst (AList.update ''objectType'' t fe)
            \<and> map_of fe' ''objectType'' = Some t
            \<and> (\<forall>k. k \<noteq> ''objectType'' \<and> k \<noteq> ''member'' \<longrightarrow> map_of fe' k = map_of fe k)"
    by blast
next
  fix e' loc fe
  assume *: "correctObjectTypes a e = Inr e' \<and> loc \<in> set objectTypeLocations
        \<and> selectn loc e = JObj fe \<and> lookup fe ''objectType'' \<noteq> JUndefined"
  then have "selectParts (splitDots loc) e = JObj fe"
    by (intro selectn_JObj) simp
  then have "discAt (splitDots loc) (map fst fe) (lookup fe ''objectType'') e"
    by (simp add: discAt_def)
  with * have "discAt (splitDots loc) (map fst fe) (lookup fe ''objectType'') e'"
    by (intro correctObjectTypes_discAt [of a e e' loc]) simp_all
  then obtain fe' where s: "selectn loc e' = JObj fe'" and k: "map fst fe' = map fst fe"
    and l: "lookup fe' ''objectType'' = lookup fe ''objectType''"
    using discAt_selectn by blast
  have "map_of fe' k = map_of fe k" if "k \<noteq> ''member''" for k
  proof (cases "k = ''objectType''")
    case True
    from k have "k \<in> fst ` set fe' \<longleftrightarrow> k \<in> fst ` set fe"
      by (metis set_map)
    with l True show ?thesis by (intro map_of_same_keys) simp_all
  next
    case False
    with * s that k show ?thesis
      by (intro correctObjectTypes_keeps [of a e e' loc fe fe' k]) simp_all
  qed
  with s k show "\<exists>fe'. selectn loc e' = JObj fe' \<and> map fst fe' = map fst fe
            \<and> (\<forall>k. k \<noteq> ''member'' \<longrightarrow> map_of fe' k = map_of fe k)"
    by blast
next
  fix loc
  assume "\<not> nullish (selectn loc a)
        \<and> (readProp (selectn loc a) ''objectType'' = JUndefined
            \<or> readProp (selectn loc e) ''objectType'' \<noteq> JUndefined)"
  then show "correctSingle a loc e = Inr e"
    by (intro correctSingle_noop) simp_all
next
  fix e' loc ea pa ee pe
  assume "correctObjectTypes a e = Inr e' \<and> loc \<in> set objectTypeLocationsMultiple
        \<and> selectn loc a = JArr ea pa \<and> selectn loc e = JArr ee pe"
  then show "\<exists>ee'. selectn loc e' = JArr ee' pe \<and> length ee' = length ee
            \<and> (\<forall>i < length ee. ee' ! i =
                 (if i < length ea then reconciled (ea ! i) (ee ! i) else ee ! i))"
    by (intro correctObjectTypes_multiple_copies [of a e e' loc ea pa ee pe]) simp_all
next
  fix fv fe t
  assume "lookup fv ''objectType'' = t \<and> t \<noteq> JUndefined \<and> lookup fe ''objectType'' = JUndefined"
  then show "reconciled (JObj fv) (JObj fe) = JObj (AList.update ''objectType'' t fe)"
    by (intro reconciled_copies) simp_all
next
  fix v el
  assume "readProp v ''objectType'' = JUndefined \<or> readProp el ''objectType'' \<noteq> JUndefined"
  then show "reconciled v el = el"
    by (auto simp: reconciled_def)
next
  fix loc fa fe
  assume "isRef cfg \<and> loc \<in> set objectTypeLocations
        \<and> selectn loc a = JObj fa \<and> selectn loc e = JObj fe
        \<and> map_of fa ''objectType'' = None \<and> lookup fe ''objectType'' \<noteq> JUndefined
        \<and> distinct (map fst fa) \<and> distinct (map fst fe)"
  then show "isl (fst (assertStatementMatch h a e cfg ctx))"
    by (intro expected_only_discriminator [of cfg loc a fa e fe]) simp_all
next
  fix loc ea pa ee pe i fa fe
  assume "isRef cfg \<and> loc \<in> set objectTypeLocationsMultiple
        \<and> selectn loc a = JArr ea pa \<and> selectn loc e = JArr ee pe
        \<and> i < length ea \<and> i < length ee \<and> ea ! i = JObj fa \<and> ee ! i = JObj fe
        \<and> map_of fa ''objectType'' = None \<and> lookup fe ''objectType'' \<noteq> JUndefined
        \<and> distinct (map fst fa) \<and> distinct (map fst fe)"
  then show "isl (fst (assertStatementMatch h a e cfg ctx))"
    by (intro expected_only_discriminator_member [of cfg loc a ea pa e ee pe i fa fe]) simp_all
next
  fix loc
  assume "\<not> truthy (selectn loc e) \<or> \<not> isArray (selectn loc a)"
  then show "correctMultiple a loc e = Inr e"
    by (auto simp: correctMultiple_def)
qed

theorem discriminator_one_directional_witness:
  "correctObjectTypes sampleGroupActual sampleGroupExpected = Inr sampleGroupReconciled
   \<and> ''actor'' \<in> set objectTypeLocations \<and> ''object'' \<in> set objectTypeLocations
   \<and> ''actor.member'' \<in> set objectTypeLocationsMultiple
   \<and> readProp (selectn ''actor'' sampleGroupActual) ''objectType'' = JStr ''Group''
   \<and> readProp (selectn ''actor'' sampleGroupExpected) ''objectType'' = JUndefined
   \<and> readProp (selectn ''actor'' sampleGroupReconciled) ''objectType'' = JStr ''Group''
   \<and> readProp (selectn ''object'' sampleGroupActual) ''objectType'' = JUndefined
   \<and> readProp (selectn ''object'' sampleGroupExpected) ''objectType'' = JStr ''Activity''
   \<and> readProp (selectn ''object'' sampleGroupReconciled) ''objectType'' = JStr ''Activity''
   \<and> readProp (selectn ''object'' sampleGroupReconciled) ''id'' = JStr ''x''
   \<and> correctSingle sampleGroupActual ''object'' sampleGroupExpected = Inr sampleGroupExpected
   \<and> elems (selectn ''actor.member'' sampleGroupReconciled) ! 0
       = JObj [(''mbox'', JStr ''mailto:a@b.com''), (''objectType'', JStr ''Agent'')]
   \<and> elems (selectn ''actor.member'' sampleGroupReconciled) ! 1
       = JObj [(''mbox'', JStr ''mailto:c@d.com''), (''objectType'', JStr ''Agent'')]
   \<and> isRef sampleCfg
   \<and> isl (fst (assertStatementMatch sampleHost sampleGroupActual sampleGroupExpected sampleCfg
        sampleContext))
   \<and> isl (fst (assertStatementMatch sampleHost sampleMemberActual sampleMemberExpected sampleCfg
        sampleContext))"
proof -
  note d = discriminator_one_directional [of sampleGroupActual sampleGroupExpected sampleCfg
      sampleHost sampleContext]
  note d1 = d [THEN conjunct1, rule_format]
  note d2 = d [THEN conjunct2, THEN conjunct1, rule_format]
  note d3 = d [THEN conjunct2, THEN conjunct2, THEN conjunct1, rule_format]
  note d4 = d [THEN conjunct2, THEN conjunct2, THEN conjunct2, THEN conjunct1, rule_format]
  note d7 = d [THEN conjunct2, THEN conjunct2, THEN conjunct2, THEN conjunct2, THEN conjunct2,
      THEN conjunct2, THEN conjunct1, rule_format]
  note m = discriminator_one_directional [of sampleMemberActual sampleMemberExpected sampleCfg
      sampleHost sampleContext]
  note m8 = m [THEN conjunct2, THEN conjunct2, THEN conjunct2, THEN conjunct2, THEN conjunct2,
      THEN conjunct2, THEN conjunct2, THEN conjunct1, rule_format]
  have c: "correctObjectTypes sampleGroupActual sampleGroupExpected = Inr sampleGroupReconciled"
    by code_simp
  have l: "''actor'' \<in> set objectTypeLocations" "''object'' \<in> set objectTypeLocations"
    by (simp_all add: objectTypeLocations_def)
  have lm: "''actor.member'' \<in> set objectTypeLocationsMultiple"
    by (simp add: objectTypeLocationsMultiple_def)
  have a1: "\<not> nullish (selectn ''actor'' sampleGroupActual)"
    and a2: "readProp (selectn ''actor'' sampleGroupActual) ''objectType'' = JStr ''Group''"
    and a3: "selectn ''actor'' sampleGroupExpected
       = JObj [(''member'', JArr [JObj [(''mbox'', JStr ''mailto:a@b.com'')],
                                 JObj [(''mbox'', JStr ''mailto:c@d.com''),
                                       (''objectType'', JStr ''Agent'')]] [])]"
    and a4: "lookup [(''member'', JArr [JObj [(''mbox'', JStr ''mailto:a@b.com'')],
                                 JObj [(''mbox'', JStr ''mailto:c@d.com''),
                                       (''objectType'', JStr ''Agent'')]] [])] ''objectType''
       = JUndefined"
    and a5: "readProp (selectn ''actor'' sampleGroupExpected) ''objectType'' = JUndefined"
    by code_simp+
  have "\<exists>fe'. selectn ''actor'' sampleGroupReconciled = JObj fe'
      \<and> map fst fe' = map fst (AList.update ''objectType'' (JStr ''Group'')
           [(''member'', JArr [JObj [(''mbox'', JStr ''mailto:a@b.com'')],
                                 JObj [(''mbox'', JStr ''mailto:c@d.com''),
                                       (''objectType'', JStr ''Agent'')]] [])])
      \<and> map_of fe' ''objectType'' = Some (JStr ''Group'')
      \<and> (\<forall>k. k \<noteq> ''objectType'' \<and> k \<noteq> ''member'' \<longrightarrow> map_of fe' k
            = map_of [(''member'', JArr [JObj [(''mbox'', JStr ''mailto:a@b.com'')],
                                 JObj [(''mbox'', JStr ''mailto:c@d.com''),
                                       (''objectType'', JStr ''Agent'')]] [])] k)"
    by (rule d1) (simp add: c l a1 a2 a3 a4)
  then obtain ge' where "selectn ''actor'' sampleGroupReconciled = JObj ge'"
    and "map_of ge' ''objectType'' = Some (JStr ''Group'')"
    by blast
  then have r1: "readProp (selectn ''actor'' sampleGroupReconciled) ''objectType'' = JStr ''Group''"
    by (simp add: readProp_def lookup_def)
  have o1: "selectn ''object'' sampleGroupActual = JObj [(''id'', JStr ''x'')]"
    and o2: "selectn ''object'' sampleGroupExpected
       = JObj [(''id'', JStr ''x''), (''objectType'', JStr ''Activity'')]"
    and o3: "map_of [(''id'', JStr ''x'')] ''objectType'' = None"
    and o4: "lookup [(''id'', JStr ''x''), (''objectType'', JStr ''Activity'')] ''objectType''
       = JStr ''Activity''"
    and o5: "distinct (map fst [(''id'', JStr ''x'')])"
    and o6: "distinct (map fst [(''id'', JStr ''x''), (''objectType'', JStr ''Activity'')])"
    and o7: "readProp (selectn ''object'' sampleGroupActual) ''objectType'' = JUndefined"
    and o8: "readProp (selectn ''object'' sampleGroupExpected) ''objectType'' = JStr ''Activity''"
    and o9: "\<not> nullish (selectn ''object'' sampleGroupActual)"
    and r: "isRef sampleCfg"
    by code_simp+
  have "\<exists>fe'. selectn ''object'' sampleGroupReconciled = JObj fe'
      \<and> map fst fe' = map fst [(''id'', JStr ''x''), (''objectType'', JStr ''Activity'')]
      \<and> (\<forall>k. k \<noteq> ''member'' \<longrightarrow> map_of fe' k
            = map_of [(''id'', JStr ''x''), (''objectType'', JStr ''Activity'')] k)"
    by (rule d2) (simp add: c l o2 o4)
  then obtain fe' where fe': "selectn ''object'' sampleGroupReconciled = JObj fe'"
    and ke: "\<forall>k. k \<noteq> ''member'' \<longrightarrow> map_of fe' k
            = map_of [(''id'', JStr ''x''), (''objectType'', JStr ''Activity'')] k"
    by blast
  from ke [rule_format, of "''objectType''"] ke [rule_format, of "''id''"]
  have "map_of fe' ''objectType'' = Some (JStr ''Activity'')"
    and "map_of fe' ''id'' = Some (JStr ''x'')"
    by simp_all
  with fe' have r2: "readProp (selectn ''object'' sampleGroupReconciled) ''objectType''
      = JStr ''Activity''"
    and r3: "readProp (selectn ''object'' sampleGroupReconciled) ''id'' = JStr ''x''"
    by (simp_all add: readProp_def lookup_def)
  have n: "correctSingle sampleGroupActual ''object'' sampleGroupExpected = Inr sampleGroupExpected"
    by (rule d3) (simp add: o9 o7)
  have g1: "selectn ''actor.member'' sampleGroupActual
       = JArr [JObj [(''mbox'', JStr ''mailto:a@b.com''), (''objectType'', JStr ''Agent'')],
               JObj [(''mbox'', JStr ''mailto:c@d.com'')]] []"
    and g2: "selectn ''actor.member'' sampleGroupExpected
       = JArr [JObj [(''mbox'', JStr ''mailto:a@b.com'')],
               JObj [(''mbox'', JStr ''mailto:c@d.com''), (''objectType'', JStr ''Agent'')]] []"
    and g3: "reconciled
        (JObj [(''mbox'', JStr ''mailto:a@b.com''), (''objectType'', JStr ''Agent'')])
        (JObj [(''mbox'', JStr ''mailto:a@b.com'')])
       = JObj [(''mbox'', JStr ''mailto:a@b.com''), (''objectType'', JStr ''Agent'')]"
    and g4: "reconciled (JObj [(''mbox'', JStr ''mailto:c@d.com'')])
        (JObj [(''mbox'', JStr ''mailto:c@d.com''), (''objectType'', JStr ''Agent'')])
       = JObj [(''mbox'', JStr ''mailto:c@d.com''), (''objectType'', JStr ''Agent'')]"
    by code_simp+
  let ?ea = "[JObj [(''mbox'', JStr ''mailto:a@b.com''), (''objectType'', JStr ''Agent'')],
              JObj [(''mbox'', JStr ''mailto:c@d.com'')]]"
  let ?ee = "[JObj [(''mbox'', JStr ''mailto:a@b.com'')],
              JObj [(''mbox'', JStr ''mailto:c@d.com''), (''objectType'', JStr ''Agent'')]]"
  have "\<exists>ee'. selectn ''actor.member'' sampleGroupReconciled = JArr ee' [] \<and> length ee' = length ?ee
      \<and> (\<forall>i < length ?ee. ee' ! i =
            (if i < length ?ea then reconciled (?ea ! i) (?ee ! i) else ?ee ! i))"
    by (rule d4) (simp add: c lm g1 g2)
  then obtain ee' where s: "selectn ''actor.member'' sampleGroupReconciled = JArr ee' []"
    and al: "\<forall>i < length ?ee. ee' ! i =
            (if i < length ?ea then reconciled (?ea ! i) (?ee ! i) else ?ee ! i)"
    by blast
  from al [rule_format, of 0] have e0: "ee' ! 0 = reconciled (?ea ! 0) (?ee ! 0)"
    by simp
  from al [rule_format, of 1] have e1: "ee' ! 1 = reconciled (?ea ! 1) (?ee ! 1)"
    by simp
  from s e0 e1 g3 g4
  have el: "elems (selectn ''actor.member'' sampleGroupReconciled) ! 0
       = JObj [(''mbox'', JStr ''mailto:a@b.com''), (''objectType'', JStr ''Agent'')]"
    "elems (selectn ''actor.member'' sampleGroupReconciled) ! 1
       = JObj [(''mbox'', JStr ''mailto:c@d.com''), (''objectType'', JStr ''Agent'')]"
    by simp_all
  have f: "isl (fst (assertStatementMatch sampleHost sampleGroupActual sampleGroupExpected sampleCfg
        sampleContext))"
    by (rule d7 [of "''object''" "[(''id'', JStr ''x'')]"
          "[(''id'', JStr ''x''), (''objectType'', JStr ''Activity'')]"])
      (simp add: r l o1 o2 o3 o4)
  have h1: "selectn ''actor.member'' sampleMemberActual
       = JArr [JObj [(''mbox'', JStr ''mailto:a@b.com'')]] []"
    and h2: "selectn ''actor.member'' sampleMemberExpected
       = JArr [JObj [(''mbox'', JStr ''mailto:a@b.com''), (''objectType'', JStr ''Agent'')]] []"
    and h3: "map_of [(''mbox'', JStr ''mailto:a@b.com'')] ''objectType'' = None"
    and h4: "lookup [(''mbox'', JStr ''mailto:a@b.com''), (''objectType'', JStr ''Agent'')]
        ''objectType'' = JStr ''Agent''"
    by code_simp+
  have g: "isl (fst (assertStatementMatch sampleHost sampleMemberActual sampleMemberExpected
        sampleCfg sampleContext))"
    by (rule m8 [of "''actor.member''"
          "[JObj [(''mbox'', JStr ''mailto:a@b.com'')]]" "[]"
          "[JObj [(''mbox'', JStr ''mailto:a@b.com''), (''objectType'', JStr ''Agent'')]]" "[]"
          0 "[(''mbox'', JStr ''mailto:a@b.com'')]"
          "[(''mbox'', JStr ''mailto:a@b.com''), (''objectType'', JStr ''Agent'')]"])
      (simp add: r lm h1 h2 h3 h4)
  from c l lm a2 a5 r1 o7 o8 r2 r3 n el r f g show ?thesis
    by blast
qed

end
